(* ===== verification/Prelude.thy ===== *)
theory Prelude
  imports Complex_Main "HOL-Library.Word" "HOL-Library.Product_Lexorder" "HOL-Library.Option_ord"
begin

text \<open>
  What every component shares.

  \<^item> The transaction monad. A function of the source that runs statements inside
    \<^verbatim>\<open>async with session.begin()\<close> is a function from the state of the store to either
    an exception or a result with the new state. An exception carries no state: leaving the
    block by an exception rolls the transaction back, so the caller goes on with the state it
    had before the block.
  \<^item> Row operations: a table is the list of its rows, \<^verbatim>\<open>UPDATE ... WHERE\<close> maps over
    it (\<open>upd_where\<close>), a primary-key lookup is \<open>row_of\<close>.
  \<^item> The collections \<open>txn_simps\<close> (the monad's operations on a state) and
    \<open>row_simps\<close> (row operations), which the component proofs pass to \<open>simp\<close>.
\<close>

named_theorems txn_simps "the transaction monad, applied to a state"
named_theorems row_simps "updates and lookups on lists of rows"
named_theorems guard_simps "the guard lists of the repositories"

section \<open>The transaction monad\<close>

type_synonym ('s, 'e, 'a) txn = "'s \<Rightarrow> 'e + 'a \<times> 's"

definition txn_return :: "'a \<Rightarrow> ('s, 'e, 'a) txn" where
  "txn_return x = (\<lambda>s. Inr (x, s))"

definition txn_raise :: "'e \<Rightarrow> ('s, 'e, 'a) txn" where
  "txn_raise e = (\<lambda>s. Inl e)"

definition txn_bind :: "('s, 'e, 'a) txn \<Rightarrow> ('a \<Rightarrow> ('s, 'e, 'b) txn) \<Rightarrow> ('s, 'e, 'b) txn" where
  "txn_bind m f = (\<lambda>s. case m s of Inl e \<Rightarrow> Inl e | Inr (x, t) \<Rightarrow> f x t)"

definition txn_gets :: "('s \<Rightarrow> 'a) \<Rightarrow> ('s, 'e, 'a) txn" where
  "txn_gets f = (\<lambda>s. Inr (f s, s))"

definition txn_lift :: "'e + 'a \<Rightarrow> ('s, 'e, 'a) txn" where
  "txn_lift r = (\<lambda>s. case r of Inl e \<Rightarrow> Inl e | Inr x \<Rightarrow> Inr (x, s))"

text \<open>A \<^verbatim>\<open>for\<close> loop over a list fetched before the loop, with the loop's own variables as
  accumulator.\<close>

primrec txn_fold :: "('b \<Rightarrow> 'a \<Rightarrow> ('s, 'e, 'a) txn) \<Rightarrow> 'b list \<Rightarrow> 'a \<Rightarrow> ('s, 'e, 'a) txn" where
  "txn_fold f [] acc = txn_return acc"
| "txn_fold f (x # xs) acc = txn_bind (f x acc) (txn_fold f xs)"

lemma txn_return_apply [txn_simps]: "txn_return x s = Inr (x, s)"
  by (simp add: txn_return_def)

lemma txn_raise_apply [txn_simps]: "txn_raise e s = Inl e"
  by (simp add: txn_raise_def)

lemma txn_gets_apply [txn_simps]: "txn_gets f s = Inr (f s, s)"
  by (simp add: txn_gets_def)

lemma txn_lift_apply [txn_simps]:
  "txn_lift (Inl e) s = Inl e" "txn_lift (Inr x) s = Inr (x, s)"
  by (simp_all add: txn_lift_def)

lemma txn_lift_Inr [txn_simps]: "txn_lift r s = Inr y \<longleftrightarrow> (\<exists>x. r = Inr x \<and> y = (x, s))"
  by (cases r) (auto simp: txn_lift_def)

lemma txn_bind_Inr [txn_simps]:
  "txn_bind m f s = Inr r \<longleftrightarrow> (\<exists>x t. m s = Inr (x, t) \<and> f x t = Inr r)"
  by (auto simp: txn_bind_def split: sum.splits)

lemma txn_bind_step: "m s = Inr (x, t) \<Longrightarrow> txn_bind m f s = f x t"
  by (simp add: txn_bind_def)

lemma txn_bind_error: "m s = Inl e \<Longrightarrow> txn_bind m f s = Inl e"
  by (simp add: txn_bind_def)

lemma txn_bind_return [simp]: "txn_bind (txn_return x) f = f x"
  by (rule ext) (simp add: txn_bind_def txn_return_def)

lemma txn_bind_gets [txn_simps]: "txn_bind (txn_gets g) f s = f (g s) s"
  by (simp add: txn_bind_def txn_gets_def)

lemma txn_bind_raise [simp]: "txn_bind (txn_raise e) f = txn_raise e"
  by (rule ext) (simp add: txn_bind_def txn_raise_def)

lemma txn_bind_assoc: "txn_bind (txn_bind m f) g = txn_bind m (\<lambda>x. txn_bind (f x) g)"
  by (rule ext) (simp add: txn_bind_def split: sum.splits)

text \<open>
  The loop rule: an invariant over the rows still to come, the accumulator and the state, kept
  by one iteration, holds at the end.
\<close>

lemma txn_fold_rule:
  assumes "txn_fold f xs acc s = Inr (r, t)" and "I xs acc s"
    and "\<And>x xs acc s acc' s'. I (x # xs) acc s \<Longrightarrow> f x acc s = Inr (acc', s') \<Longrightarrow> I xs acc' s'"
  shows "I [] r t"
  using assms(1,2)
proof (induction xs arbitrary: acc s)
  case Nil
  then show ?case by (simp add: txn_simps)
next
  case (Cons x xs)
  then obtain acc' s' where "f x acc s = Inr (acc', s')" "txn_fold f xs acc' s' = Inr (r, t)"
    by (auto simp: txn_simps)
  with Cons assms(3) show ?case by blast
qed

text \<open>
  A transaction preserves a property of states when every successful run does; the property
  then needs checking on the single statements only.
\<close>

named_theorems preserves_intros "transactions that preserve a property"

definition preserves :: "('s \<Rightarrow> bool) \<Rightarrow> ('s, 'e, 'a) txn \<Rightarrow> bool" where
  "preserves P m \<longleftrightarrow> (\<forall>s x t. P s \<longrightarrow> m s = Inr (x, t) \<longrightarrow> P t)"

lemma preservesD: "preserves P m \<Longrightarrow> P s \<Longrightarrow> m s = Inr (x, t) \<Longrightarrow> P t"
  by (auto simp: preserves_def)

lemma preserves_pure [preserves_intros]:
  "preserves P (txn_return x)" "preserves P (txn_raise e)" "preserves P (txn_gets f)"
  "preserves P (txn_lift r)"
  by (auto simp: preserves_def txn_simps)

lemma preserves_bind [preserves_intros]:
  assumes "preserves P m" and "\<And>x. preserves P (f x)"
  shows "preserves P (txn_bind m f)"
  unfolding preserves_def
proof (intro allI impI)
  fix s y t assume "P s" and "txn_bind m f s = Inr (y, t)"
  then obtain x u where "m s = Inr (x, u)" "f x u = Inr (y, t)" by (auto simp: txn_bind_Inr)
  then show "P t" using preservesD [OF assms(2)] preservesD [OF assms(1) \<open>P s\<close>] by simp
qed

lemma preserves_if [preserves_intros]:
  "preserves P a \<Longrightarrow> preserves P b \<Longrightarrow> preserves P (if c then a else b)"
  by simp

lemma preserves_case_option [preserves_intros]:
  "preserves P a \<Longrightarrow> (\<And>x. preserves P (f x)) \<Longrightarrow> preserves P (case c of None \<Rightarrow> a | Some x \<Rightarrow> f x)"
  by (cases c) simp_all

lemma preserves_case_prod [preserves_intros]:
  "(\<And>x y. preserves P (f x y)) \<Longrightarrow> preserves P (case p of (x, y) \<Rightarrow> f x y)"
  by (cases p) simp

lemma preserves_fold [preserves_intros]:
  "(\<And>x acc. preserves P (f x acc)) \<Longrightarrow> preserves P (txn_fold f xs acc)"
  by (induction xs arbitrary: acc) (auto intro: preserves_intros)

section \<open>Effects that an exception does not undo\<close>

text \<open>
  Code outside a transaction (publishing to Redis, running a handler) keeps what it did before
  an exception: a step returns the exception or its result, and the state in either case.
\<close>

type_synonym ('s, 'e, 'a) io = "'s \<Rightarrow> ('e + 'a) \<times> 's"

definition io_return :: "'a \<Rightarrow> ('s, 'e, 'a) io" where
  "io_return x = (\<lambda>s. (Inr x, s))"

definition io_raise :: "'e \<Rightarrow> ('s, 'e, 'a) io" where
  "io_raise e = (\<lambda>s. (Inl e, s))"

definition io_bind :: "('s, 'e, 'a) io \<Rightarrow> ('a \<Rightarrow> ('s, 'e, 'b) io) \<Rightarrow> ('s, 'e, 'b) io" where
  "io_bind m f = (\<lambda>s. case m s of (Inl e, t) \<Rightarrow> (Inl e, t) | (Inr x, t) \<Rightarrow> f x t)"

definition io_lift :: "'e + 'a \<Rightarrow> ('s, 'e, 'a) io" where
  "io_lift r = (\<lambda>s. (r, s))"

primrec io_for :: "('b \<Rightarrow> ('s, 'e, unit) io) \<Rightarrow> 'b list \<Rightarrow> ('s, 'e, unit) io" where
  "io_for f [] = io_return ()"
| "io_for f (x # xs) = io_bind (f x) (\<lambda>_. io_for f xs)"

lemma io_apply [txn_simps]:
  "io_return x s = (Inr x, s)" "io_raise e s = (Inl e, s)" "io_lift r s = (r, s)"
  by (simp_all add: io_return_def io_raise_def io_lift_def)

lemma io_bind_return [simp]: "io_bind (io_return x) f = f x"
  by (rule ext) (simp add: io_bind_def io_return_def)

lemma io_bind_raise [simp]: "io_bind (io_raise e) f = io_raise e"
  by (rule ext) (simp add: io_bind_def io_raise_def)

lemma io_bind_lift [simp]:
  "io_bind (io_lift (Inr x)) f = f x" "io_bind (io_lift (Inl e)) f = io_raise e"
  by (rule ext, simp add: io_bind_def io_lift_def io_raise_def)+

lemma io_bind_apply [txn_simps]:
  "io_bind m f s = (case m s of (Inl e, t) \<Rightarrow> (Inl e, t) | (Inr x, t) \<Rightarrow> f x t)"
  by (simp add: io_bind_def)

text \<open>The loop rule: an invariant kept by every iteration, whether or not it raises, holds of the
  state the loop leaves.\<close>

lemma io_for_invariant:
  assumes "I s" and "\<And>x s. x \<in> set xs \<Longrightarrow> I s \<Longrightarrow> I (snd (f x s))"
  shows "I (snd (io_for f xs s))"
  using assms
proof (induction xs arbitrary: s)
  case Nil
  then show ?case by (simp add: txn_simps)
next
  case (Cons x xs)
  obtain r t where step: "f x s = (r, t)" by (cases "f x s")
  have "I t" using Cons.prems(2) [of x s] Cons.prems(1) step by simp
  then have "I (snd (io_for f xs t))" using Cons by simp
  with \<open>I t\<close> show ?case by (cases r) (simp_all add: txn_simps step)
qed

section \<open>Tables as lists of rows\<close>

definition upd_where :: "('a \<Rightarrow> bool) \<Rightarrow> ('a \<Rightarrow> 'a) \<Rightarrow> 'a list \<Rightarrow> 'a list" where
  "upd_where p f xs = map (\<lambda>x. if p x then f x else x) xs"

definition row_of :: "('a \<Rightarrow> 'k) \<Rightarrow> 'k \<Rightarrow> 'a list \<Rightarrow> 'a option" where
  "row_of k v xs = find (\<lambda>x. k x = v) xs"

lemma upd_where_Nil [simp]: "upd_where p f [] = []"
  by (simp add: upd_where_def)

lemma upd_where_Cons [simp]:
  "upd_where p f (x # xs) = (if p x then f x else x) # upd_where p f xs"
  by (simp add: upd_where_def)

lemma in_set_upd_where [row_simps]:
  "y \<in> set (upd_where p f xs) \<longleftrightarrow> (\<exists>x \<in> set xs. y = (if p x then f x else x))"
  by (auto simp: upd_where_def)

lemma upd_where_mem: "x \<in> set xs \<Longrightarrow> (if p x then f x else x) \<in> set (upd_where p f xs)"
  by (auto simp: upd_where_def)

lemma length_upd_where [simp]: "length (upd_where p f xs) = length xs"
  by (simp add: upd_where_def)

lemma map_upd_where:
  "(\<And>x. x \<in> set xs \<Longrightarrow> p x \<Longrightarrow> k (f x) = k x) \<Longrightarrow> map k (upd_where p f xs) = map k xs"
  by (auto simp: upd_where_def)

lemma filter_upd_where:
  "(\<And>x. x \<in> set xs \<Longrightarrow> p x \<Longrightarrow> q (f x) = q x) \<Longrightarrow>
     filter q (upd_where p f xs) = upd_where p f (filter q xs)"
  by (induction xs) auto

lemma upd_where_id: "(\<And>x. x \<in> set xs \<Longrightarrow> \<not> p x) \<Longrightarrow> upd_where p f xs = xs"
  by (induction xs) auto

lemma row_of_Some_iff:
  assumes "distinct (map k xs)"
  shows "row_of k v xs = Some x \<longleftrightarrow> x \<in> set xs \<and> k x = v"
  using assms unfolding row_of_def
  by (induction xs) (auto simp: rev_image_eqI)

lemma row_of_None_iff: "row_of k v xs = None \<longleftrightarrow> (\<forall>x \<in> set xs. k x \<noteq> v)"
  by (auto simp: row_of_def find_None_iff)

lemma row_of_SomeD: "row_of k v xs = Some x \<Longrightarrow> x \<in> set xs \<and> k x = v"
  by (auto simp: row_of_def find_Some_iff)

lemma row_of_upd_where:
  assumes "\<And>x. p x \<Longrightarrow> k (f x) = k x"
  shows "row_of k v (upd_where p f xs) = map_option (\<lambda>x. if p x then f x else x) (row_of k v xs)"
  using assms unfolding row_of_def by (induction xs) auto

lemma rowcount_pos [row_simps]: "0 < length (filter p xs) \<longleftrightarrow> (\<exists>x \<in> set xs. p x)"
  by (induction xs) auto

lemma same_row:
  assumes "distinct (map k xs)" and "x \<in> set xs" and "y \<in> set xs" and "k x = k y"
  shows "x = y"
  using assms by (auto simp: distinct_map inj_on_def)

section \<open>Nullable columns\<close>

text \<open>SQL comparisons with a NULL column are not true.\<close>

definition sql_le :: "'a::linorder option \<Rightarrow> 'a \<Rightarrow> bool" where
  "sql_le c v = (case c of None \<Rightarrow> False | Some x \<Rightarrow> x \<le> v)"

definition sql_lt :: "'a::linorder option \<Rightarrow> 'a \<Rightarrow> bool" where
  "sql_lt c v = (case c of None \<Rightarrow> False | Some x \<Rightarrow> x < v)"

definition coalesce :: "'a option \<Rightarrow> 'a \<Rightarrow> 'a" where
  "coalesce c v = (case c of None \<Rightarrow> v | Some x \<Rightarrow> x)"

lemma sql_cmp_simps [simp]:
  "\<not> sql_le None v" "sql_le (Some x) v \<longleftrightarrow> x \<le> v"
  "\<not> sql_lt None v" "sql_lt (Some x) v \<longleftrightarrow> x < v"
  "coalesce None v = v" "coalesce (Some x) v = x"
  by (simp_all add: sql_le_def sql_lt_def coalesce_def)

lemma sql_leE: "sql_le c v \<Longrightarrow> \<exists>x. c = Some x \<and> x \<le> v"
  by (cases c) auto

lemma sql_ltE: "sql_lt c v \<Longrightarrow> \<exists>x. c = Some x \<and> x < v"
  by (cases c) auto

end
