(* ===== verification/PyValues.thy ===== *)
theory PyValues
  imports Prelude
begin

text \<open>
  The values of the language and of its standard library that the program passes around:
  floats, JSON values, exceptions (\<^verbatim>\<open>app/domain/errors.py\<close> and the library's own),
  UUIDs with their textual form, and instants.

  A float is an exact rational, an infinity or NaN (the sign of zero is not kept: no
  expression of the program distinguishes the two zeros). A string is a list of characters
  with code points below 256. An instant is an integer number of microseconds, the resolution
  of both Python's \<^verbatim>\<open>datetime\<close> and PostgreSQL's \<^verbatim>\<open>timestamptz\<close>; all instants
  of the program are in UTC (\<^verbatim>\<open>app/core/clock.py\<close>).
\<close>

datatype pyfloat = Finite rat | PosInf | NegInf | NaN

datatype json =
    JNull
  | JBool bool
  | JInt int
  | JFloat pyfloat
  | JStr string
  | JList "json list"
  | JObj "(string \<times> json) list"

type_synonym dict = "(string \<times> json) list"
type_synonym datetime = int
type_synonym uuid = "128 word"

abbreviation microseconds :: int where
  "microseconds \<equiv> 1000000"

definition dict_set :: "dict \<Rightarrow> string \<Rightarrow> json \<Rightarrow> dict" where
  "dict_set d k v =
     (if map_of d k = None then d @ [(k, v)] else map (\<lambda>(a, b). if a = k then (a, v) else (a, b)) d)"

lemma map_of_dict_set: "map_of (dict_set d k v) = (map_of d)(k \<mapsto> v)"
proof -
  have "map_of (map (\<lambda>(a, b). if a = k then (a, v) else (a, b)) d) x =
      (if x = k \<and> map_of d k \<noteq> None then Some v else map_of d x)" for x
    by (induction d) (auto split: if_splits)
  then show ?thesis
    by (auto simp: dict_set_def map_add_def fun_eq_iff split: option.splits)
qed

section \<open>Exceptions\<close>

text \<open>
  One constructor per exception class the program raises or that reaches it from the database
  driver, Redis and httpx. \<open>is_ValueError\<close> gives the subclasses of \<^verbatim>\<open>ValueError\<close>:
  an \<^verbatim>\<open>except ValueError\<close> clause catches all of them.
\<close>

datatype exn =
    IntegrityError
  | DataError
  | MultipleResultsFound
  | ValueError string
  | UnknownJobTypeError string
  | PayloadTooLargeError string
  | TooManyActiveJobsError int
  | InvalidCursorError string
  | OverflowError
  | TypeError
  | KeyError string
  | ZeroDivisionError
  | JobCancelledError
  | CancelledError
  | RetryableError string string
  | NonRetryableError string string
  | RedisError string
  | HTTPError string
  | InvalidURL string

fun is_ValueError :: "exn \<Rightarrow> bool" where
  "is_ValueError (ValueError _) = True"
| "is_ValueError (UnknownJobTypeError _) = True"
| "is_ValueError (PayloadTooLargeError _) = True"
| "is_ValueError (InvalidCursorError _) = True"
| "is_ValueError _ = False"

section \<open>UUIDs\<close>

definition hex_digit :: "nat \<Rightarrow> char" where
  "hex_digit n = ''0123456789abcdef'' ! n"

fun hex_digits :: "nat \<Rightarrow> nat \<Rightarrow> string" where
  "hex_digits 0 v = []"
| "hex_digits (Suc k) v = hex_digits k (v div 16) @ [hex_digit (v mod 16)]"

text \<open>\<^verbatim>\<open>str(uuid)\<close>: 32 hexadecimal digits in groups of 8, 4, 4, 4 and 12.\<close>

definition uuid_hex :: "uuid \<Rightarrow> string" where
  "uuid_hex u = hex_digits 32 (unat u)"

definition uuid_str :: "uuid \<Rightarrow> string" where
  "uuid_str u = (let h = uuid_hex u in
     take 8 h @ ''-'' @ take 4 (drop 8 h) @ ''-'' @ take 4 (drop 12 h) @ ''-'' @
     take 4 (drop 16 h) @ ''-'' @ drop 20 h)"

lemma hex_digit_inj: "a < 16 \<Longrightarrow> b < 16 \<Longrightarrow> hex_digit a = hex_digit b \<longleftrightarrow> a = b"
  unfolding hex_digit_def by (rule nth_eq_iff_index_eq) simp_all

lemma hex_digit_in: "n < 16 \<Longrightarrow> hex_digit n \<in> set ''0123456789abcdef''"
  unfolding hex_digit_def by (rule nth_mem) simp

lemma length_hex_digits [simp]: "length (hex_digits k v) = k"
  by (induction k arbitrary: v) simp_all

lemma set_hex_digits: "set (hex_digits k v) \<subseteq> set ''0123456789abcdef''"
proof (induction k arbitrary: v)
  case 0
  then show ?case by simp
next
  case (Suc k)
  then show ?case using hex_digit_in [of "v mod 16"] by auto
qed

lemma hex_digits_inj:
  "a < 16 ^ k \<Longrightarrow> b < 16 ^ k \<Longrightarrow> hex_digits k a = hex_digits k b \<longleftrightarrow> a = b"
proof (induction k arbitrary: a b)
  case 0
  then show ?case by simp
next
  case (Suc k)
  have "a div 16 < 16 ^ k" "b div 16 < 16 ^ k"
    using Suc.prems by (simp_all add: less_mult_imp_div_less mult.commute)
  then have "hex_digits (Suc k) a = hex_digits (Suc k) b \<longleftrightarrow> a div 16 = b div 16 \<and> a mod 16 = b mod 16"
    by (simp add: Suc.IH hex_digit_inj)
  also have "\<dots> \<longleftrightarrow> a = b"
    by (metis div_mult_mod_eq)
  finally show ?case .
qed

lemma uuid_hex_inj: "uuid_hex a = uuid_hex b \<longleftrightarrow> a = b"
proof -
  have "unat a < 16 ^ 32" "unat b < 16 ^ 32"
    using unsigned_less [where 'a = nat, of a] unsigned_less [where 'a = nat, of b] by simp_all
  then show ?thesis by (simp add: uuid_hex_def hex_digits_inj word_unat_eq_iff)
qed

lemma length_uuid_hex [simp]: "length (uuid_hex u) = 32"
  by (simp add: uuid_hex_def)

lemma uuid_hex_no_dash: "CHR ''-'' \<notin> set (uuid_hex u)"
  using set_hex_digits [of 32 "unat u"] by (auto simp: uuid_hex_def)

lemma length_uuid_str [simp]: "length (uuid_str u) = 36"
  by (simp add: uuid_str_def Let_def)

lemma regroup_hex:
  "take 8 h @ take 4 (drop 8 h) @ take 4 (drop 12 h) @ take 4 (drop 16 h) @ drop 20 h = h"
proof -
  have "drop k h = take 4 (drop k h) @ drop (k + 4) h" for k
    by (metis add.commute append_take_drop_id drop_drop)
  from this [of 16] this [of 12] this [of 8] show ?thesis by simp
qed

text \<open>Removing the dashes, as \<^verbatim>\<open>uuid.UUID(hex)\<close> does, gives the digits back.\<close>

lemma uuid_str_undash: "filter (\<lambda>c. c \<noteq> CHR ''-'') (uuid_str u) = uuid_hex u"
proof -
  have sub: "filter (\<lambda>c. c \<noteq> CHR ''-'') xs = xs" if "set xs \<subseteq> set (uuid_hex u)" for xs
    using that uuid_hex_no_dash [of u] by (intro filter_True) auto
  have parts: "set (take m (drop k (uuid_hex u))) \<subseteq> set (uuid_hex u)"
    "set (take m (uuid_hex u)) \<subseteq> set (uuid_hex u)" "set (drop k (uuid_hex u)) \<subseteq> set (uuid_hex u)" for m k
    by (auto dest: in_set_takeD in_set_dropD)
  show ?thesis
    by (simp add: uuid_str_def Let_def sub parts regroup_hex)
qed

lemma uuid_str_inj: "uuid_str a = uuid_str b \<longleftrightarrow> a = b"
  by (metis uuid_str_undash uuid_hex_inj)

lemma uuid_str_prefix_inj: "uuid_str a @ x = uuid_str b @ y \<longleftrightarrow> a = b \<and> x = y"
  by (auto simp: uuid_str_inj dest: append_eq_append_conv [THEN iffD1, rotated])

end
