(* ===== verification/PyFloat.thy ===== *)
theory PyFloat
  imports PyValues
begin

text \<open>
  Python's floats: IEEE 754 binary64 with round-to-nearest-even, written out over the
  rationals so that it can be computed and reasoned about. A finite float is a
  \<^const>\<open>Finite\<close> rational on the binary64 grid; every arithmetic operation is the exact
  operation followed by \<open>round_double\<close>. Also \<^verbatim>\<open>repr\<close> of a float (the shortest
  decimal that reads back as the same float), the conversions between \<^verbatim>\<open>int\<close> and
  \<^verbatim>\<open>float\<close>, and \<^verbatim>\<open>timedelta(seconds=x)\<close> for a float.
\<close>

section \<open>Rounding\<close>

definition round_half_even :: "rat \<Rightarrow> int" where
  "round_half_even x = (let f = \<lfloor>x\<rfloor>; r = x - of_int f in
     if r < 1/2 then f else if r > 1/2 then f + 1 else if even f then f else f + 1)"

fun bit_length :: "nat \<Rightarrow> nat" where
  "bit_length n = (if n = 0 then 0 else Suc (bit_length (n div 2)))"

declare bit_length.simps [simp del]

text \<open>The binary exponent of a positive rational: \<open>2 powi e \<le> x < 2 powi (e + 1)\<close>.\<close>

definition binary_exponent :: "rat \<Rightarrow> int" where
  "binary_exponent x = (let (a, b) = quotient_of x;
       k = int (bit_length (nat a)) - int (bit_length (nat b))
     in if 2 powi k \<le> x then k else k - 1)"

text \<open>The exponent of the last of the 53 bits; subnormal numbers share the smallest one.\<close>

definition ulp_exponent :: "rat \<Rightarrow> int" where
  "ulp_exponent x = max (binary_exponent \<bar>x\<bar> - 52) (- 1074)"

definition fl :: "rat \<Rightarrow> rat" where
  "fl x = (if x = 0 then 0
     else of_int (round_half_even (x / 2 powi ulp_exponent x)) * 2 powi ulp_exponent x)"

definition round_double :: "rat \<Rightarrow> pyfloat" where
  "round_double x = (let y = fl x in
     if \<bar>y\<bar> < 2 ^ 1024 then Finite y else if x > 0 then PosInf else NegInf)"

section \<open>Arithmetic\<close>

fun fneg :: "pyfloat \<Rightarrow> pyfloat" where
  "fneg (Finite x) = Finite (- x)"
| "fneg PosInf = NegInf"
| "fneg NegInf = PosInf"
| "fneg NaN = NaN"

fun fadd :: "pyfloat \<Rightarrow> pyfloat \<Rightarrow> pyfloat" where
  "fadd (Finite x) (Finite y) = round_double (x + y)"
| "fadd NaN _ = NaN"
| "fadd _ NaN = NaN"
| "fadd PosInf NegInf = NaN"
| "fadd NegInf PosInf = NaN"
| "fadd PosInf _ = PosInf"
| "fadd NegInf _ = NegInf"
| "fadd _ PosInf = PosInf"
| "fadd _ NegInf = NegInf"

definition fsub :: "pyfloat \<Rightarrow> pyfloat \<Rightarrow> pyfloat" where
  "fsub x y = fadd x (fneg y)"

definition signed_inf :: "bool \<Rightarrow> pyfloat" where
  "signed_inf negative = (if negative then NegInf else PosInf)"

fun fmul :: "pyfloat \<Rightarrow> pyfloat \<Rightarrow> pyfloat" where
  "fmul (Finite x) (Finite y) = round_double (x * y)"
| "fmul NaN _ = NaN"
| "fmul _ NaN = NaN"
| "fmul PosInf (Finite y) = (if y = 0 then NaN else signed_inf (y < 0))"
| "fmul NegInf (Finite y) = (if y = 0 then NaN else signed_inf (y > 0))"
| "fmul (Finite x) PosInf = (if x = 0 then NaN else signed_inf (x < 0))"
| "fmul (Finite x) NegInf = (if x = 0 then NaN else signed_inf (x > 0))"
| "fmul PosInf PosInf = PosInf"
| "fmul PosInf NegInf = NegInf"
| "fmul NegInf PosInf = NegInf"
| "fmul NegInf NegInf = PosInf"

text \<open>Python raises \<^verbatim>\<open>ZeroDivisionError\<close> where IEEE would return an infinity or NaN.\<close>

fun fdiv :: "pyfloat \<Rightarrow> pyfloat \<Rightarrow> exn + pyfloat" where
  "fdiv NaN (Finite y) = (if y = 0 then Inl ZeroDivisionError else Inr NaN)"
| "fdiv (Finite x) (Finite y) = (if y = 0 then Inl ZeroDivisionError else Inr (round_double (x / y)))"
| "fdiv PosInf (Finite y) = (if y = 0 then Inl ZeroDivisionError else Inr (signed_inf (y < 0)))"
| "fdiv NegInf (Finite y) = (if y = 0 then Inl ZeroDivisionError else Inr (signed_inf (y > 0)))"
| "fdiv (Finite x) PosInf = Inr (Finite 0)"
| "fdiv (Finite x) NegInf = Inr (Finite 0)"
| "fdiv _ _ = Inr NaN"

text \<open>Comparisons: false when an operand is NaN.\<close>

fun flt :: "pyfloat \<Rightarrow> pyfloat \<Rightarrow> bool" where
  "flt (Finite x) (Finite y) \<longleftrightarrow> x < y"
| "flt NaN _ \<longleftrightarrow> False"
| "flt _ NaN \<longleftrightarrow> False"
| "flt NegInf NegInf \<longleftrightarrow> False"
| "flt NegInf _ \<longleftrightarrow> True"
| "flt PosInf _ \<longleftrightarrow> False"
| "flt (Finite _) PosInf \<longleftrightarrow> True"
| "flt (Finite _) NegInf \<longleftrightarrow> False"

text \<open>\<^verbatim>\<open>min(a, b)\<close> and \<^verbatim>\<open>max(a, b)\<close> keep the first argument unless the second is
  strictly smaller (greater).\<close>

definition fmin :: "pyfloat \<Rightarrow> pyfloat \<Rightarrow> pyfloat" where
  "fmin a b = (if flt b a then b else a)"

definition fmax :: "pyfloat \<Rightarrow> pyfloat \<Rightarrow> pyfloat" where
  "fmax a b = (if flt a b then b else a)"

section \<open>Conversions\<close>

text \<open>\<^verbatim>\<open>float(n)\<close>: raises when the integer is too large.\<close>

definition float_of_int :: "int \<Rightarrow> exn + pyfloat" where
  "float_of_int n = (case round_double (of_int n) of Finite x \<Rightarrow> Inr (Finite x) | _ \<Rightarrow> Inl OverflowError)"

text \<open>\<^verbatim>\<open>a / b\<close> on integers is correctly rounded.\<close>

definition int_true_div :: "int \<Rightarrow> int \<Rightarrow> exn + pyfloat" where
  "int_true_div a b = (if b = 0 then Inl ZeroDivisionError else
     case round_double (of_int a / of_int b) of Finite x \<Rightarrow> Inr (Finite x) | _ \<Rightarrow> Inl OverflowError)"

text \<open>\<^verbatim>\<open>int(x)\<close> truncates towards zero.\<close>

definition rat_trunc :: "rat \<Rightarrow> int" where
  "rat_trunc x = (if x \<ge> 0 then \<lfloor>x\<rfloor> else \<lceil>x\<rceil>)"

fun int_of_float :: "pyfloat \<Rightarrow> exn + int" where
  "int_of_float (Finite x) = Inr (rat_trunc x)"
| "int_of_float NaN = Inl (ValueError ''cannot convert float NaN to integer'')"
| "int_of_float _ = Inl OverflowError"

text \<open>
  \<^verbatim>\<open>timedelta(seconds=x)\<close> in microseconds: the whole seconds exactly, the fraction times
  one million in floating point, rounded half to even.
\<close>

fun timedelta_float :: "pyfloat \<Rightarrow> exn + int" where
  "timedelta_float (Finite x) =
     Inr (rat_trunc x * microseconds + round_half_even (fl ((x - of_int (rat_trunc x)) * 1000000)))"
| "timedelta_float NaN = Inl (ValueError ''cannot convert float NaN to integer'')"
| "timedelta_float _ = Inl OverflowError"

section \<open>Decimal text\<close>

definition digit_char :: "nat \<Rightarrow> char" where
  "digit_char n = ''0123456789'' ! n"

fun nat_str :: "nat \<Rightarrow> string" where
  "nat_str n = (if n < 10 then [digit_char n] else nat_str (n div 10) @ [digit_char (n mod 10)])"

declare nat_str.simps [simp del]

definition int_str :: "int \<Rightarrow> string" where
  "int_str n = (if n < 0 then ''-'' @ nat_str (nat (- n)) else nat_str (nat n))"

definition decimal_exponent :: "rat \<Rightarrow> int" where
  "decimal_exponent x = (let (a, b) = quotient_of x;
       k = int (length (nat_str (nat a))) - int (length (nat_str (nat b)))
     in if 10 powi k \<le> x then k else k - 1)"

text \<open>
  The shortest digits of a positive float: for one digit more at a time, the two neighbouring
  decimals, the nearer first, until one reads back as the float. Seventeen digits always do.
\<close>

definition digit_candidates :: "rat \<Rightarrow> nat \<Rightarrow> (nat \<times> int) list" where
  "digit_candidates x n = (let s = decimal_exponent x - int n + 1; v = x / 10 powi s; m = \<lfloor>v\<rfloor> in
     if v - of_int m \<le> 1/2 then [(nat m, s), (nat m + 1, s)] else [(nat m + 1, s), (nat m, s)])"

fun shortest_digits :: "nat \<Rightarrow> nat \<Rightarrow> rat \<Rightarrow> nat \<times> int" where
  "shortest_digits 0 n x = hd (digit_candidates x 17)"
| "shortest_digits (Suc k) n x =
     (case find (\<lambda>(m, s). fl (of_nat m * 10 powi s) = x) (digit_candidates x n) of
        Some r \<Rightarrow> r | None \<Rightarrow> shortest_digits k (Suc n) x)"

definition strip_zeros :: "string \<Rightarrow> string" where
  "strip_zeros ds = rev (dropWhile (\<lambda>c. c = CHR ''0'') (rev ds))"

definition exponent_str :: "int \<Rightarrow> string" where
  "exponent_str e = (if e < 0 then ''-'' else ''+'') @
     (if \<bar>e\<bar> < 10 then ''0'' else []) @ nat_str (nat \<bar>e\<bar>)"

definition positive_repr :: "rat \<Rightarrow> string" where
  "positive_repr x = (let (m, s) = shortest_digits 17 1 x;
       all = nat_str m; decpt = int (length all) + s; ds = strip_zeros all
     in if decpt \<le> - 4 \<or> decpt > 16 then
          take 1 ds @ (if length ds > 1 then ''.'' @ drop 1 ds else []) @ ''e'' @ exponent_str (decpt - 1)
        else if decpt \<le> 0 then ''0.'' @ replicate (nat (- decpt)) CHR ''0'' @ ds
        else if decpt \<ge> int (length ds) then ds @ replicate (nat decpt - length ds) CHR ''0'' @ ''.0''
        else take (nat decpt) ds @ ''.'' @ drop (nat decpt) ds)"

fun float_repr :: "pyfloat \<Rightarrow> string" where
  "float_repr (Finite x) = (if x = 0 then ''0.0''
     else if x < 0 then ''-'' @ positive_repr (- x) else positive_repr x)"
| "float_repr PosInf = ''inf''"
| "float_repr NegInf = ''-inf''"
| "float_repr NaN = ''nan''"

end
