(* ===== verification/PyFloatFacts.thy ===== *)
theory PyFloatFacts
  imports PyFloat
begin

text \<open>
  What the components use of floating-point arithmetic: rounding is monotone (\<open>fl_mono\<close>),
  exact on integers of at most 53 bits (\<open>fl_int\<close>), and keeps the sign.
\<close>

section \<open>Rounding to an integer\<close>

lemma round_half_even_int [simp]: "round_half_even (of_int n) = n"
  by (simp add: round_half_even_def)

lemma round_half_even_bounds: "\<lfloor>x\<rfloor> \<le> round_half_even x" "round_half_even x \<le> \<lfloor>x\<rfloor> + 1"
  by (simp_all add: round_half_even_def Let_def)

lemma round_half_even_mono:
  assumes "x \<le> y"
  shows "round_half_even x \<le> round_half_even y"
proof (cases "\<lfloor>x\<rfloor> = \<lfloor>y\<rfloor>")
  case True
  with assms show ?thesis by (auto simp: round_half_even_def Let_def)
next
  case False
  then have "\<lfloor>x\<rfloor> + 1 \<le> \<lfloor>y\<rfloor>" using floor_mono [OF assms] by linarith
  then show ?thesis using round_half_even_bounds [of x] round_half_even_bounds [of y] by linarith
qed

section \<open>The binary exponent\<close>

lemma bit_length_bounds: "0 < n \<Longrightarrow> 2 ^ (bit_length n - 1) \<le> n \<and> n < 2 ^ bit_length n \<and> 0 < bit_length n"
proof (induction n rule: bit_length.induct)
  case (1 n)
  show ?case
  proof (cases "n div 2 = 0")
    case True
    then have "n = 1" using 1(2) by simp
    then show ?thesis by (simp add: bit_length.simps)
  next
    case False
    then have IH: "2 ^ (bit_length (n div 2) - 1) \<le> n div 2" "n div 2 < 2 ^ bit_length (n div 2)"
        "0 < bit_length (n div 2)"
      using 1 by auto
    have len: "bit_length n = Suc (bit_length (n div 2))" using 1(2) by (simp add: bit_length.simps [of n])
    define p where "p = (2::nat) ^ (bit_length (n div 2) - 1)"
    have "2 ^ bit_length (n div 2) = 2 * p"
      unfolding p_def using IH(3) by (metis Suc_diff_1 power_Suc)
    then have "p \<le> n div 2" "n div 2 < 2 * p" "2 ^ bit_length n = 4 * p" "2 ^ (bit_length n - 1) = 2 * p"
      using IH by (simp_all add: len p_def)
    then show ?thesis using len by linarith
  qed
qed

lemma powi_diff_le_iff: "(2::rat) powi (a - b) \<le> x \<longleftrightarrow> 2 powi a \<le> x * 2 powi b"
  by (simp add: power_int_diff field_simps)

lemma powi_diff_gt_iff: "x < (2::rat) powi (a - b) \<longleftrightarrow> x * 2 powi b < 2 powi a"
  by (simp add: power_int_diff field_simps)

lemma binary_exponent_bounds:
  assumes "0 < x"
  shows "2 powi binary_exponent x \<le> x" "x < 2 powi (binary_exponent x + 1)"
proof -
  obtain a b where q: "quotient_of x = (a, b)" by (cases "quotient_of x")
  have b: "0 < b" using quotient_of_denom_pos [OF q] .
  have x: "x = of_int a / of_int b" using quotient_of_div [OF q] .
  then have a: "0 < a" using assms b by (simp add: zero_less_divide_iff)
  define la lb where "la = bit_length (nat a)" and "lb = bit_length (nat b)"
  have bounds: "2 ^ (la - 1) \<le> a" "a < 2 ^ la" "0 < la" "2 ^ (lb - 1) \<le> b" "b < 2 ^ lb" "0 < lb"
    using bit_length_bounds [of "nat a"] bit_length_bounds [of "nat b"] a b
    by (simp_all add: la_def lb_def nat_less_iff le_nat_iff)
  have ra: "(2::rat) ^ (la - 1) \<le> of_int a" "of_int a < (2::rat) ^ la"
      "(2::rat) ^ (lb - 1) \<le> of_int b" "of_int b < (2::rat) ^ lb"
    using bounds by (metis of_int_le_iff of_int_less_iff of_int_numeral of_int_power)+
  define k where "k = int la - int lb"
  have pow: "(2::rat) powi (k - 1) = 2 ^ (la - 1) / 2 ^ lb" "(2::rat) powi (k + 1) = 2 ^ la / 2 ^ (lb - 1)"
    using bounds(3,6) by (simp_all add: k_def power_int_diff power_int_add of_nat_diff flip: power_int_of_nat)
  have "2 ^ (la - 1) * of_int b \<le> of_int a * (2::rat) ^ lb"
    using ra a b by (intro mult_mono) auto
  then have low: "2 powi (k - 1) \<le> x" using b by (simp add: pow x field_simps)
  have "of_int a * (2::rat) ^ (lb - 1) < 2 ^ la * of_int b"
    using ra a b by (intro mult_less_le_imp_less) auto
  then have high: "x < 2 powi (k + 1)" unfolding pow x using b by (simp add: field_simps)
  have e: "binary_exponent x = (if 2 powi k \<le> x then k else k - 1)"
    by (simp add: binary_exponent_def q k_def la_def lb_def Let_def)
  show "2 powi binary_exponent x \<le> x" "x < 2 powi (binary_exponent x + 1)"
    using low high by (auto simp: e)
qed

lemma binary_exponent_mono:
  assumes "0 < x" and "x \<le> y"
  shows "binary_exponent x \<le> binary_exponent y"
proof (rule ccontr)
  assume "\<not> ?thesis"
  then have "2 powi (binary_exponent y + 1) \<le> (2::rat) powi binary_exponent x"
    by (intro power_int_increasing) auto
  with binary_exponent_bounds [OF assms(1)] binary_exponent_bounds [of y] assms show False by linarith
qed

section \<open>Rounding to binary64\<close>

lemma fl_0 [simp]: "fl 0 = 0"
  by (simp add: fl_def)

lemma ulp_exponent_minus [simp]: "ulp_exponent (- x) = ulp_exponent x"
  by (simp add: ulp_exponent_def)

lemma round_half_even_minus: "round_half_even (- x) = - round_half_even x"
proof (cases "x = of_int \<lfloor>x\<rfloor>")
  case True
  then show ?thesis by (metis of_int_minus round_half_even_int)
next
  case False
  then have "\<lfloor>- x\<rfloor> = - \<lfloor>x\<rfloor> - 1"
    by (metis add_diff_cancel ceiling_altdef floor_minus minus_add_distrib uminus_add_conv_diff diff_minus_eq_add minus_diff_eq)
  then show ?thesis by (auto simp: round_half_even_def Let_def)
qed

lemma fl_minus [simp]: "fl (- x) = - fl x"
  by (simp add: fl_def round_half_even_minus)

text \<open>A power of two that is not below the last place separates the floats on its two sides.\<close>

lemma round_at_power:
  assumes "u \<le> e"
  shows "x \<le> 2 powi e \<Longrightarrow> of_int (round_half_even (x / 2 powi u)) * 2 powi u \<le> (2::rat) powi e"
    and "2 powi e \<le> x \<Longrightarrow> (2::rat) powi e \<le> of_int (round_half_even (x / 2 powi u)) * 2 powi u"
proof -
  define n :: int where "n = 2 ^ nat (e - u)"
  have n: "(of_int n :: rat) * 2 powi u = 2 powi e"
    using assms by (simp add: n_def flip: power_int_of_nat power_int_add)
  show "of_int (round_half_even (x / 2 powi u)) * 2 powi u \<le> (2::rat) powi e" if "x \<le> 2 powi e"
  proof -
    have "x / 2 powi u \<le> of_int n" using that by (simp add: divide_le_eq flip: n)
    from round_half_even_mono [OF this] have "round_half_even (x / 2 powi u) \<le> n" by simp
    then show ?thesis unfolding n [symmetric] by (intro mult_right_mono) auto
  qed
  show "(2::rat) powi e \<le> of_int (round_half_even (x / 2 powi u)) * 2 powi u" if "2 powi e \<le> x"
  proof -
    have "of_int n \<le> x / 2 powi u" using that by (simp add: le_divide_eq flip: n)
    from round_half_even_mono [OF this] have "n \<le> round_half_even (x / 2 powi u)" by simp
    then show ?thesis unfolding n [symmetric] by (intro mult_right_mono) auto
  qed
qed

lemma fl_nonneg: "0 \<le> x \<Longrightarrow> 0 \<le> fl x"
  using round_half_even_mono [of 0 "x / 2 powi ulp_exponent x"] round_half_even_int [of 0]
  by (auto simp: fl_def)

lemma fl_mono_pos:
  assumes "0 < x" and "x \<le> y"
  shows "fl x \<le> fl y"
proof (cases "ulp_exponent x = ulp_exponent y")
  case True
  have "round_half_even (x / 2 powi ulp_exponent y) \<le> round_half_even (y / 2 powi ulp_exponent y)"
    using assms by (intro round_half_even_mono divide_right_mono) auto
  with assms True show ?thesis by (simp add: fl_def mult_right_mono)
next
  case False
  have exps: "binary_exponent x \<le> binary_exponent y" using assms by (rule binary_exponent_mono)
  with False assms have less: "binary_exponent x < binary_exponent y"
      "ulp_exponent x \<le> binary_exponent y" "ulp_exponent y \<le> binary_exponent y"
    by (auto simp: ulp_exponent_def split: if_splits)
  have "x \<le> 2 powi binary_exponent y"
    using binary_exponent_bounds(2) [OF assms(1)] power_int_increasing [of "binary_exponent x + 1" "binary_exponent y" "2::rat"] less(1)
    by simp
  then have "fl x \<le> 2 powi binary_exponent y"
    using assms(1) round_at_power(1) [OF less(2)] by (simp add: fl_def)
  also have "\<dots> \<le> fl y"
    using assms round_at_power(2) [OF less(3)] binary_exponent_bounds(1) [of y] by (simp add: fl_def)
  finally show ?thesis .
qed

lemma fl_mono:
  assumes "x \<le> y"
  shows "fl x \<le> fl y"
proof -
  consider "0 < x" | "x \<le> 0" "0 \<le> y" | "y < 0" by linarith
  then show ?thesis
  proof cases
    case 1
    then show ?thesis using assms by (rule fl_mono_pos)
  next
    case 2
    then show ?thesis using fl_nonneg [of y] fl_nonneg [of "- x"] by simp
  next
    case 3
    then show ?thesis using fl_mono_pos [of "- y" "- x"] assms by simp
  qed
qed

text \<open>Integers of at most 53 bits are floats.\<close>

lemma fl_int:
  assumes "\<bar>n\<bar> < 2 ^ 53"
  shows "fl (of_int n) = of_int n"
proof (cases "n = 0")
  case True
  then show ?thesis by simp
next
  case False
  define u where "u = ulp_exponent (of_int n)"
  have "of_int \<bar>n\<bar> < (of_int (2 ^ 53) :: rat)" using assms by (simp only: of_int_less_iff)
  then have "2 powi binary_exponent \<bar>of_int n :: rat\<bar> < (2::rat) powi 53"
    using binary_exponent_bounds(1) [of "\<bar>of_int n :: rat\<bar>"] False by simp
  then have "binary_exponent \<bar>of_int n :: rat\<bar> < 53"
    using power_int_increasing [of 53 "binary_exponent \<bar>of_int n :: rat\<bar>" "2::rat"] by fastforce
  then have u: "u \<le> 0" by (simp add: u_def ulp_exponent_def)
  define m where "m = n * 2 ^ nat (- u)"
  have eq: "(of_int n :: rat) / 2 powi u = of_int m"
    using u by (simp add: m_def power_int_minus divide_inverse flip: power_int_of_nat)
  have "fl (of_int n) = of_int (round_half_even (of_int m)) * 2 powi u"
    unfolding fl_def u_def [symmetric] eq using \<open>n \<noteq> 0\<close> by (simp only: of_int_eq_0_iff if_False)
  also have "\<dots> = (of_int n :: rat) / 2 powi u * 2 powi u"
    by (simp only: round_half_even_int eq)
  finally show ?thesis by simp
qed

text \<open>So are the powers of two.\<close>

lemma binary_exponent_power: "binary_exponent (2 powi e) = e"
proof -
  have b: "2 powi binary_exponent (2 powi e) \<le> (2::rat) powi e"
      "(2::rat) powi e < 2 powi (binary_exponent (2 powi e) + 1)"
    using binary_exponent_bounds [of "2 powi e"] by simp_all
  have "\<not> e < binary_exponent (2 powi e)"
    using b(1) power_int_strict_increasing [of e "binary_exponent (2 powi e)" "2::rat"] by fastforce
  moreover have "\<not> binary_exponent (2 powi e) < e"
    using b(2) power_int_increasing [of "binary_exponent (2 powi e) + 1" e "2::rat"] by fastforce
  ultimately show ?thesis by simp
qed

lemma fl_power:
  assumes "- 1074 \<le> e"
  shows "fl (2 powi e) = 2 powi e"
proof -
  have "ulp_exponent (2 powi e) \<le> e"
    using assms by (simp add: ulp_exponent_def binary_exponent_power)
  from round_at_power [OF this, of "2 powi e"] show ?thesis by (simp add: fl_def)
qed

lemma powi_less_max: "e \<le> 1023 \<Longrightarrow> (2::rat) powi e < 2 ^ 1024"
  using power_int_strict_increasing [of e 1024 "2::rat"] by simp

lemma fl_bounded:
  assumes "\<bar>x\<bar> \<le> 2 powi 1023"
  shows "\<bar>fl x\<bar> < 2 ^ 1024"
proof -
  have "fl x \<le> 2 powi 1023" "fl (- x) \<le> 2 powi 1023"
    using fl_mono [of x "2 powi 1023"] fl_mono [of "- x" "2 powi 1023"] fl_power [of 1023] assms
    by (simp_all only: abs_le_iff)
  then show ?thesis using powi_less_max [of 1023] by (simp only: fl_minus abs_less_iff) linarith
qed

lemma round_double_power:
  assumes "0 \<le> e"
  shows "round_double (2 powi e) = (if e \<le> 1023 then Finite (2 powi e) else PosInf)"
proof (cases "e \<le> 1023")
  case True
  then show ?thesis using assms fl_power [of e] powi_less_max [of e] by (simp add: round_double_def Let_def)
next
  case False
  then have "(2::rat) powi 1024 \<le> 2 powi e" by (intro power_int_increasing) auto
  then have "\<not> (2::rat) powi e < 2 ^ 1024" by (simp only: power_int_numeral not_less)
  with False show ?thesis using assms fl_power [of e] by (simp add: round_double_def Let_def)
qed

text \<open>The floats are the integer multiples of a power of two with at most 53 bits.\<close>

lemma fl_grid_less:
  assumes "\<bar>m\<bar> < 2 ^ 53" and "- 1074 \<le> u"
  shows "fl (of_int m * 2 powi u) = of_int m * 2 powi u" (is "fl ?y = ?y")
proof (cases "m = 0")
  case True
  then show ?thesis by simp
next
  case False
  have "of_int \<bar>m\<bar> < (of_int (2 ^ 53) :: rat)" using assms(1) by (simp only: of_int_less_iff)
  then have "\<bar>?y\<bar> < 2 powi 53 * 2 powi u" by (simp add: abs_mult)
  then have "2 powi binary_exponent \<bar>?y\<bar> < (2::rat) powi (53 + u)"
    using binary_exponent_bounds(1) [of "\<bar>?y\<bar>"] False by (simp add: power_int_add)
  then have "binary_exponent \<bar>?y\<bar> < 53 + u"
    using power_int_increasing [of "53 + u" "binary_exponent \<bar>?y\<bar>" "2::rat"] by fastforce
  define v where "v = ulp_exponent ?y"
  have "v \<le> u" using \<open>binary_exponent \<bar>?y\<bar> < 53 + u\<close> assms(2) by (simp add: v_def ulp_exponent_def)
  define n where "n = m * 2 ^ nat (u - v)"
  have eq: "?y / 2 powi v = of_int n"
    using \<open>v \<le> u\<close> by (simp add: n_def power_int_diff flip: power_int_of_nat)
  have "fl ?y = of_int (round_half_even (of_int n)) * 2 powi v"
    using False by (simp only: fl_def v_def [symmetric] eq) simp
  also have "\<dots> = ?y / 2 powi v * 2 powi v" by (simp only: round_half_even_int eq)
  finally show ?thesis by simp
qed

lemma fl_grid:
  assumes "\<bar>m\<bar> \<le> 2 ^ 53" and "- 1074 \<le> u"
  shows "fl (of_int m * 2 powi u) = of_int m * 2 powi u"
proof (cases "\<bar>m\<bar> = 2 ^ 53")
  case True
  have "(2::rat) ^ 53 * 2 powi u = 2 powi (53 + u)" by (simp add: power_int_add)
  moreover have "m = 2 ^ 53 \<or> m = - (2 ^ 53)" using True by linarith
  ultimately show ?thesis using fl_power [of "53 + u"] assms(2) by auto
next
  case False
  then show ?thesis using assms by (intro fl_grid_less) auto
qed

lemma fl_repr: "\<exists>m u. fl x = of_int m * 2 powi u \<and> \<bar>m\<bar> \<le> 2 ^ 53 \<and> - 1074 \<le> u"
proof -
  have pos: "\<exists>m u. fl x = of_int m * 2 powi u \<and> \<bar>m\<bar> \<le> 2 ^ 53 \<and> - 1074 \<le> u" if "0 < x" for x
  proof -
    define u where "u = ulp_exponent x"
    have "binary_exponent x + 1 \<le> 53 + u" using that by (simp add: u_def ulp_exponent_def)
    then have "(2::rat) powi (binary_exponent x + 1) \<le> 2 powi (53 + u)" by (intro power_int_increasing) auto
    then have "x \<le> 2 powi 53 * 2 powi u"
      using binary_exponent_bounds(2) [OF that] by (simp add: power_int_add)
    then have "x / 2 powi u \<le> of_int (2 ^ 53)" by (simp add: divide_le_eq)
    then have "round_half_even (x / 2 powi u) \<le> 2 ^ 53"
      using round_half_even_mono round_half_even_int [of "2 ^ 53"] by metis
    moreover have "0 \<le> round_half_even (x / 2 powi u)"
      using round_half_even_mono [of 0 "x / 2 powi u"] round_half_even_int [of 0] that by simp
    ultimately show ?thesis using that
      by (intro exI [of _ "round_half_even (x / 2 powi u)"] exI [of _ u]) (simp add: fl_def u_def ulp_exponent_def)
  qed
  consider "0 < x" | "x = 0" | "0 < - x" by linarith
  then show ?thesis
  proof cases
    case 2
    then show ?thesis by (intro exI [of _ 0]) auto
  next
    case 3
    from pos [OF this] obtain m u where "- fl x = of_int m * 2 powi u" "\<bar>m\<bar> \<le> 2 ^ 53" "- 1074 \<le> u" by auto
    then show ?thesis by (intro exI [of _ "- m"] exI [of _ u]) (simp add: minus_equation_iff)
  qed (rule pos)
qed

lemma fl_idem [simp]: "fl (fl x) = fl x"
  using fl_repr [of x] fl_grid by metis

lemma fl_double:
  assumes "fl x = x"
  shows "fl (2 * x) = 2 * x"
proof -
  from fl_repr [of x] assms obtain m u where "x = of_int m * 2 powi u" "\<bar>m\<bar> \<le> 2 ^ 53" "- 1074 \<le> u" by auto
  then have "2 * x = of_int m * 2 powi (u + 1)" "fl (of_int m * 2 powi (u + 1)) = of_int m * 2 powi (u + 1)"
    using fl_grid [of m "u + 1"] by (simp_all add: power_int_add)
  then show ?thesis by (simp only:)
qed

end
