(* ===== verification/Enums.thy ===== *)
theory Enums
  imports Prelude
begin

text \<open>
  The domain vocabulary: \<^verbatim>\<open>app/domain/enums.py\<close> and the job state machine of
  \<^verbatim>\<open>app/domain/state_machine.py\<close>. Each Python enumeration is a datatype with the source's
  members (prefixed where two enumerations share a member name) and its \<^verbatim>\<open>.value\<close>
  strings; \<^verbatim>\<open>VALID_TRANSITIONS\<close> is a total function, since the dictionary has every
  status as a key.
\<close>

section \<open>Enumerations\<close>

datatype JobStatus =
  PENDING | QUEUED | RUNNING | RETRYING | SUCCEEDED | FAILED | CANCELLING | CANCELLED | EXPIRED

fun JobStatus_value :: "JobStatus \<Rightarrow> string" where
  "JobStatus_value PENDING = ''pending''"
| "JobStatus_value QUEUED = ''queued''"
| "JobStatus_value RUNNING = ''running''"
| "JobStatus_value RETRYING = ''retrying''"
| "JobStatus_value SUCCEEDED = ''succeeded''"
| "JobStatus_value FAILED = ''failed''"
| "JobStatus_value CANCELLING = ''cancelling''"
| "JobStatus_value CANCELLED = ''cancelled''"
| "JobStatus_value EXPIRED = ''expired''"

definition all_JobStatus :: "JobStatus list" where
  "all_JobStatus =
     [PENDING, QUEUED, RUNNING, RETRYING, SUCCEEDED, FAILED, CANCELLING, CANCELLED, EXPIRED]"

definition TERMINAL_STATUSES :: "JobStatus list" where
  "TERMINAL_STATUSES = [SUCCEEDED, FAILED, CANCELLED, EXPIRED]"

datatype JobPriority = LOW | NORMAL | HIGH

fun JobPriority_value :: "JobPriority \<Rightarrow> string" where
  "JobPriority_value LOW = ''low''"
| "JobPriority_value NORMAL = ''normal''"
| "JobPriority_value HIGH = ''high''"

datatype JobType = SLEEP | REPORT | FLAKY | ALWAYS_FAIL | LLM_SUMMARY

fun JobType_value :: "JobType \<Rightarrow> string" where
  "JobType_value SLEEP = ''sleep''"
| "JobType_value REPORT = ''report''"
| "JobType_value FLAKY = ''flaky''"
| "JobType_value ALWAYS_FAIL = ''always_fail''"
| "JobType_value LLM_SUMMARY = ''llm_summary''"

datatype JobEventType =
  EV_SUBMITTED | EV_QUEUED | EV_STARTED | EV_SUCCEEDED | EV_FAILED | EV_RETRY_SCHEDULED
| EV_CANCEL_REQUESTED | EV_CANCELLED | EV_REQUEUED | EV_EXPIRED

fun JobEventType_value :: "JobEventType \<Rightarrow> string" where
  "JobEventType_value EV_SUBMITTED = ''submitted''"
| "JobEventType_value EV_QUEUED = ''queued''"
| "JobEventType_value EV_STARTED = ''started''"
| "JobEventType_value EV_SUCCEEDED = ''succeeded''"
| "JobEventType_value EV_FAILED = ''failed''"
| "JobEventType_value EV_RETRY_SCHEDULED = ''retry_scheduled''"
| "JobEventType_value EV_CANCEL_REQUESTED = ''cancel_requested''"
| "JobEventType_value EV_CANCELLED = ''cancelled''"
| "JobEventType_value EV_REQUEUED = ''requeued''"
| "JobEventType_value EV_EXPIRED = ''expired''"

datatype NotificationChannel = EMAIL | WEBHOOK | LOG

datatype NotificationStatus = N_PENDING | N_SENT | N_FAILED

datatype OutboxStatus = O_PENDING | O_PUBLISHED

section \<open>The job state machine\<close>

fun VALID_TRANSITIONS :: "JobStatus \<Rightarrow> JobStatus list" where
  "VALID_TRANSITIONS PENDING = [QUEUED, CANCELLED, EXPIRED]"
| "VALID_TRANSITIONS QUEUED = [RUNNING, CANCELLED, EXPIRED]"
| "VALID_TRANSITIONS RUNNING = [SUCCEEDED, FAILED, RETRYING, CANCELLING, QUEUED]"
| "VALID_TRANSITIONS RETRYING = [QUEUED, CANCELLED]"
| "VALID_TRANSITIONS CANCELLING = [CANCELLED, SUCCEEDED, FAILED]"
| "VALID_TRANSITIONS SUCCEEDED = []"
| "VALID_TRANSITIONS FAILED = []"
| "VALID_TRANSITIONS CANCELLED = []"
| "VALID_TRANSITIONS EXPIRED = []"

definition can_transition :: "JobStatus \<Rightarrow> JobStatus \<Rightarrow> bool" where
  "can_transition source target \<longleftrightarrow> target \<in> set (VALID_TRANSITIONS source)"

definition is_terminal :: "JobStatus \<Rightarrow> bool" where
  "is_terminal status \<longleftrightarrow> status \<in> set TERMINAL_STATUSES"

lemma is_terminal_simps [simp]:
  "\<not> is_terminal PENDING" "\<not> is_terminal QUEUED" "\<not> is_terminal RUNNING"
  "\<not> is_terminal RETRYING" "\<not> is_terminal CANCELLING"
  "is_terminal SUCCEEDED" "is_terminal FAILED" "is_terminal CANCELLED" "is_terminal EXPIRED"
  by (simp_all add: is_terminal_def TERMINAL_STATUSES_def)

lemma in_all_JobStatus [simp]: "x \<in> set all_JobStatus"
  by (cases x) (simp_all add: all_JobStatus_def)

lemma JobStatus_value_inj: "JobStatus_value a = JobStatus_value b \<longleftrightarrow> a = b"
  by (cases a; cases b) simp_all

lemma JobEventType_value_inj: "JobEventType_value a = JobEventType_value b \<longleftrightarrow> a = b"
  by (cases a; cases b) simp_all

lemma JobPriority_value_inj: "JobPriority_value a = JobPriority_value b \<longleftrightarrow> a = b"
  by (cases a; cases b) simp_all

lemma terminal_iff_no_transition:
  "is_terminal a \<longleftrightarrow> VALID_TRANSITIONS a = []"
  by (cases a) simp_all

lemma terminal_no_transition: "is_terminal a \<Longrightarrow> \<not> can_transition a b"
  by (simp add: can_transition_def terminal_iff_no_transition)

end
