(* ===== verification/Models.thy ===== *)
theory Models
  imports Enums Config
begin

text \<open>
  \<^verbatim>\<open>app/db/models.py\<close>: one record per table, the constraints of the schema, and the
  store. A table is the list of its rows in some physical order.

  The constraints are what an INSERT or an UPDATE can be refused for: the length of a
  \<^verbatim>\<open>String(n)\<close> column, the range of an \<^verbatim>\<open>Integer\<close> column, what JSONB and text
  columns cannot hold (NaN, the infinities, NUL characters), reported by the driver as
  \<^const>\<open>DataError\<close>; and CHECK constraints, primary keys, unique indexes and foreign keys,
  reported as \<^const>\<open>IntegrityError\<close>.
\<close>

section \<open>Rows\<close>

record job =
  j_id :: uuid
  j_user_id :: string
  j_type :: JobType
  j_status :: JobStatus
  j_priority :: JobPriority
  j_payload :: dict
  j_result :: "dict option"
  j_error_code :: "string option"
  j_error_message :: "string option"
  j_progress :: int
  j_attempts :: int
  j_max_attempts :: int
  j_idempotency_key :: "string option"
  j_next_attempt_at :: "datetime option"
  j_cancellation_requested_at :: "datetime option"
  j_cancel_reason :: "string option"
  j_locked_by :: "string option"
  j_lock_expires_at :: "datetime option"
  j_heartbeat_at :: "datetime option"
  j_last_dispatched_at :: "datetime option"
  j_dead_lettered_at :: "datetime option"
  j_created_at :: datetime
  j_queued_at :: "datetime option"
  j_started_at :: "datetime option"
  j_completed_at :: "datetime option"
  j_updated_at :: datetime

record job_attempt =
  a_id :: uuid
  a_job_id :: uuid
  a_attempt_number :: int
  a_worker_id :: string
  a_status :: JobStatus
  a_started_at :: datetime
  a_completed_at :: "datetime option"
  a_error_code :: "string option"
  a_error_message :: "string option"

record job_event =
  e_id :: uuid
  e_job_id :: uuid
  e_event_type :: JobEventType
  e_from_status :: "JobStatus option"
  e_to_status :: "JobStatus option"
  e_detail :: dict
  e_created_at :: datetime

record dispatch_outbox_row =
  o_id :: uuid
  o_job_id :: uuid
  o_status :: OutboxStatus
  o_attempts :: int
  o_created_at :: datetime
  o_published_at :: "datetime option"

record notification =
  n_id :: uuid
  n_job_id :: uuid
  n_user_id :: string
  n_channel :: NotificationChannel
  n_destination :: string
  n_event_type :: string
  n_payload :: dict
  n_status :: NotificationStatus
  n_attempts :: int
  n_next_attempt_at :: datetime
  n_dedupe_key :: string
  n_last_error :: "string option"
  n_created_at :: datetime
  n_sent_at :: "datetime option"

text \<open>
  The store: the five tables, and how many identifiers \<^verbatim>\<open>generate_uuid7\<close>
  (\<^verbatim>\<open>app/core/ids.py\<close>) has handed out in this process. The session's surroundings are
  parameters: the server's \<^verbatim>\<open>now()\<close> for this transaction, the identifiers the
  \<^verbatim>\<open>uuid_utils\<close> package will return, which rows other transactions hold locked
  (what \<^verbatim>\<open>FOR UPDATE SKIP LOCKED\<close> passes over), and whether SQLAlchemy writes the values
  of an UPDATE into the objects the session has already loaded (its
  \<^verbatim>\<open>synchronize_session\<close> option, by default \<^verbatim>\<open>'auto'\<close>, which does).
\<close>

record store =
  jobs :: "job list"
  job_attempts :: "job_attempt list"
  job_events :: "job_event list"
  dispatch_outbox :: "dispatch_outbox_row list"
  notification_outbox :: "notification list"
  uuid_calls :: nat

record session_env =
  server_now :: datetime
  uuid7 :: "nat \<Rightarrow> uuid"
  row_locked :: "uuid \<Rightarrow> bool"
  orm_synchronize :: bool

type_synonym 'a db_txn = "(store, exn, 'a) txn"

definition empty_store :: store where
  "empty_store = \<lparr>jobs = [], job_attempts = [], job_events = [], dispatch_outbox = [],
     notification_outbox = [], uuid_calls = 0\<rparr>"

definition generate_uuid7 :: "session_env \<Rightarrow> uuid db_txn" where
  "generate_uuid7 ev = (\<lambda>s. Inr (uuid7 ev (uuid_calls s), s\<lparr>uuid_calls := Suc (uuid_calls s)\<rparr>))"

section \<open>Column types and constraints\<close>

definition text_ok :: "string \<Rightarrow> bool" where
  "text_ok x \<longleftrightarrow> CHR 0x00 \<notin> set x"

definition varchar_ok :: "nat \<Rightarrow> string \<Rightarrow> bool" where
  "varchar_ok n x \<longleftrightarrow> length x \<le> n \<and> text_ok x"

definition int4_ok :: "int \<Rightarrow> bool" where
  "int4_ok n \<longleftrightarrow> - (2 ^ 31) \<le> n \<and> n < 2 ^ 31"

fun opt_ok :: "('a \<Rightarrow> bool) \<Rightarrow> 'a option \<Rightarrow> bool" where
  "opt_ok p None = True"
| "opt_ok p (Some x) = p x"

fun json_ok :: "json \<Rightarrow> bool" and json_list_ok :: "json list \<Rightarrow> bool" and
    dict_ok :: "dict \<Rightarrow> bool" where
  "json_ok JNull = True"
| "json_ok (JBool _) = True"
| "json_ok (JInt _) = True"
| "json_ok (JFloat x) = (case x of Finite _ \<Rightarrow> True | _ \<Rightarrow> False)"
| "json_ok (JStr x) = text_ok x"
| "json_ok (JList xs) = json_list_ok xs"
| "json_ok (JObj d) = dict_ok d"
| "json_list_ok [] = True"
| "json_list_ok (x # xs) = (json_ok x \<and> json_list_ok xs)"
| "dict_ok [] = True"
| "dict_ok ((k, v) # d) = (text_ok k \<and> json_ok v \<and> dict_ok d)"

definition job_types_ok :: "job \<Rightarrow> bool" where
  "job_types_ok j \<longleftrightarrow> varchar_ok 64 (j_user_id j) \<and> dict_ok (j_payload j) \<and>
     opt_ok dict_ok (j_result j) \<and> opt_ok (varchar_ok 64) (j_error_code j) \<and>
     opt_ok text_ok (j_error_message j) \<and> int4_ok (j_progress j) \<and> int4_ok (j_attempts j) \<and>
     int4_ok (j_max_attempts j) \<and> opt_ok (varchar_ok 128) (j_idempotency_key j) \<and>
     opt_ok text_ok (j_cancel_reason j) \<and> opt_ok (varchar_ok 64) (j_locked_by j)"

definition job_checks_ok :: "job \<Rightarrow> bool" where
  "job_checks_ok j \<longleftrightarrow> 0 \<le> j_progress j \<and> j_progress j \<le> 100 \<and> 1 \<le> j_max_attempts j"

definition job_row_check :: "job \<Rightarrow> exn option" where
  "job_row_check j =
     (if \<not> job_types_ok j then Some DataError
      else if \<not> job_checks_ok j then Some IntegrityError else None)"

text \<open>The partial unique index \<^verbatim>\<open>uq_jobs_user_idempotency_key\<close>.\<close>

definition same_idempotency_key :: "job \<Rightarrow> job \<Rightarrow> bool" where
  "same_idempotency_key a b \<longleftrightarrow> j_user_id a = j_user_id b \<and>
     j_idempotency_key a \<noteq> None \<and> j_idempotency_key a = j_idempotency_key b"

definition insert_job :: "job \<Rightarrow> unit db_txn" where
  "insert_job j = (\<lambda>s. case job_row_check j of Some e \<Rightarrow> Inl e | None \<Rightarrow>
     if \<exists>x \<in> set (jobs s). j_id x = j_id j \<or> same_idempotency_key x j then Inl IntegrityError
     else Inr ((), s\<lparr>jobs := jobs s @ [j]\<rparr>))"

definition job_exists :: "uuid \<Rightarrow> store \<Rightarrow> bool" where
  "job_exists jid s \<longleftrightarrow> (\<exists>j \<in> set (jobs s). j_id j = jid)"

definition attempt_types_ok :: "job_attempt \<Rightarrow> bool" where
  "attempt_types_ok a \<longleftrightarrow> int4_ok (a_attempt_number a) \<and> varchar_ok 64 (a_worker_id a) \<and>
     opt_ok (varchar_ok 64) (a_error_code a) \<and> opt_ok text_ok (a_error_message a)"

definition insert_attempt :: "job_attempt \<Rightarrow> unit db_txn" where
  "insert_attempt a = (\<lambda>s. if \<not> attempt_types_ok a then Inl DataError
     else if (\<exists>x \<in> set (job_attempts s). a_id x = a_id a \<or>
               a_job_id x = a_job_id a \<and> a_attempt_number x = a_attempt_number a) \<or>
             \<not> job_exists (a_job_id a) s then Inl IntegrityError
     else Inr ((), s\<lparr>job_attempts := job_attempts s @ [a]\<rparr>))"

definition insert_event :: "job_event \<Rightarrow> unit db_txn" where
  "insert_event e = (\<lambda>s. if \<not> dict_ok (e_detail e) then Inl DataError
     else if (\<exists>x \<in> set (job_events s). e_id x = e_id e) \<or> \<not> job_exists (e_job_id e) s
     then Inl IntegrityError
     else Inr ((), s\<lparr>job_events := job_events s @ [e]\<rparr>))"

definition insert_dispatch :: "dispatch_outbox_row \<Rightarrow> unit db_txn" where
  "insert_dispatch r = (\<lambda>s. if (\<exists>x \<in> set (dispatch_outbox s). o_id x = o_id r) \<or> \<not> job_exists (o_job_id r) s
     then Inl IntegrityError
     else Inr ((), s\<lparr>dispatch_outbox := dispatch_outbox s @ [r]\<rparr>))"

definition notification_types_ok :: "notification \<Rightarrow> bool" where
  "notification_types_ok n \<longleftrightarrow> varchar_ok 64 (n_user_id n) \<and> varchar_ok 255 (n_destination n) \<and>
     varchar_ok 40 (n_event_type n) \<and> dict_ok (n_payload n) \<and> int4_ok (n_attempts n) \<and>
     varchar_ok 160 (n_dedupe_key n) \<and> opt_ok text_ok (n_last_error n)"

text \<open>
  \<^verbatim>\<open>INSERT ... ON CONFLICT (dedupe_key) DO NOTHING RETURNING id\<close>: a row with the same
  key makes the statement a no-op; every other violation is an error.
\<close>

definition insert_notification_on_conflict :: "notification \<Rightarrow> bool db_txn" where
  "insert_notification_on_conflict n = (\<lambda>s. if \<not> notification_types_ok n then Inl DataError
     else if \<exists>x \<in> set (notification_outbox s). n_dedupe_key x = n_dedupe_key n then Inr (False, s)
     else if (\<exists>x \<in> set (notification_outbox s). n_id x = n_id n) \<or> \<not> job_exists (n_job_id n) s
     then Inl IntegrityError
     else Inr (True, s\<lparr>notification_outbox := notification_outbox s @ [n]\<rparr>))"

section \<open>UPDATE statements\<close>

text \<open>
  \<^verbatim>\<open>UPDATE jobs SET ... WHERE ...\<close> returns the row count. Every row it writes must pass
  the column types and CHECK constraints, otherwise the statement fails as a whole. None of the
  program's updates writes a key column, so no unique index can be violated.
\<close>

definition update_jobs :: "(job \<Rightarrow> bool) \<Rightarrow> (job \<Rightarrow> job) \<Rightarrow> nat db_txn" where
  "update_jobs p f = (\<lambda>s.
     case find (\<lambda>j. p j \<and> job_row_check (f j) \<noteq> None) (jobs s) of
       Some j \<Rightarrow> Inl (the (job_row_check (f j)))
     | None \<Rightarrow> Inr (length (filter p (jobs s)), s\<lparr>jobs := upd_where p f (jobs s)\<rparr>))"

definition update_attempts :: "(job_attempt \<Rightarrow> bool) \<Rightarrow> (job_attempt \<Rightarrow> job_attempt) \<Rightarrow> unit db_txn" where
  "update_attempts p f = (\<lambda>s.
     if \<exists>a \<in> set (job_attempts s). p a \<and> \<not> attempt_types_ok (f a) then Inl DataError
     else Inr ((), s\<lparr>job_attempts := upd_where p f (job_attempts s)\<rparr>))"

definition update_dispatch ::
  "(dispatch_outbox_row \<Rightarrow> bool) \<Rightarrow> (dispatch_outbox_row \<Rightarrow> dispatch_outbox_row) \<Rightarrow> unit db_txn" where
  "update_dispatch p f = (\<lambda>s.
     if \<exists>r \<in> set (dispatch_outbox s). p r \<and> \<not> int4_ok (o_attempts (f r)) then Inl DataError
     else Inr ((), s\<lparr>dispatch_outbox := upd_where p f (dispatch_outbox s)\<rparr>))"

definition update_notifications ::
  "(notification \<Rightarrow> bool) \<Rightarrow> (notification \<Rightarrow> notification) \<Rightarrow> unit db_txn" where
  "update_notifications p f = (\<lambda>s.
     if \<exists>n \<in> set (notification_outbox s). p n \<and> \<not> notification_types_ok (f n) then Inl DataError
     else Inr ((), s\<lparr>notification_outbox := upd_where p f (notification_outbox s)\<rparr>))"

lemma generate_uuid7_apply [txn_simps]:
  "generate_uuid7 ev s = Inr (uuid7 ev (uuid_calls s), s\<lparr>uuid_calls := Suc (uuid_calls s)\<rparr>)"
  by (simp add: generate_uuid7_def)

lemma update_jobs_Inr [txn_simps]:
  "update_jobs p f s = Inr r \<longleftrightarrow>
     (\<forall>j \<in> set (jobs s). p j \<longrightarrow> job_row_check (f j) = None) \<and>
     r = (length (filter p (jobs s)), s\<lparr>jobs := upd_where p f (jobs s)\<rparr>)"
  by (auto simp: update_jobs_def find_None_iff find_Some_iff split: option.splits)

lemma insert_job_Inr [txn_simps]:
  "insert_job j s = Inr r \<longleftrightarrow> job_row_check j = None \<and>
     (\<forall>x \<in> set (jobs s). j_id x \<noteq> j_id j \<and> \<not> same_idempotency_key x j) \<and>
     r = ((), s\<lparr>jobs := jobs s @ [j]\<rparr>)"
  by (auto simp: insert_job_def split: option.splits if_splits)

lemma insert_attempt_Inr [txn_simps]:
  "insert_attempt a s = Inr r \<longleftrightarrow> attempt_types_ok a \<and> job_exists (a_job_id a) s \<and>
     (\<forall>x \<in> set (job_attempts s). a_id x \<noteq> a_id a \<and>
        \<not> (a_job_id x = a_job_id a \<and> a_attempt_number x = a_attempt_number a)) \<and>
     r = ((), s\<lparr>job_attempts := job_attempts s @ [a]\<rparr>)"
  by (auto simp: insert_attempt_def split: if_splits)

lemma insert_event_Inr [txn_simps]:
  "insert_event e s = Inr r \<longleftrightarrow> dict_ok (e_detail e) \<and> job_exists (e_job_id e) s \<and>
     (\<forall>x \<in> set (job_events s). e_id x \<noteq> e_id e) \<and>
     r = ((), s\<lparr>job_events := job_events s @ [e]\<rparr>)"
  by (auto simp: insert_event_def split: if_splits)

lemma insert_dispatch_Inr [txn_simps]:
  "insert_dispatch d s = Inr r \<longleftrightarrow> job_exists (o_job_id d) s \<and>
     (\<forall>x \<in> set (dispatch_outbox s). o_id x \<noteq> o_id d) \<and>
     r = ((), s\<lparr>dispatch_outbox := dispatch_outbox s @ [d]\<rparr>)"
  by (auto simp: insert_dispatch_def split: if_splits)

lemma insert_notification_Inr [txn_simps]:
  "insert_notification_on_conflict n s = Inr r \<longleftrightarrow> notification_types_ok n \<and>
     (if \<exists>x \<in> set (notification_outbox s). n_dedupe_key x = n_dedupe_key n then r = (False, s)
      else job_exists (n_job_id n) s \<and> (\<forall>x \<in> set (notification_outbox s). n_id x \<noteq> n_id n) \<and>
        r = (True, s\<lparr>notification_outbox := notification_outbox s @ [n]\<rparr>))"
  by (auto simp: insert_notification_on_conflict_def split: if_splits)

lemma update_attempts_Inr [txn_simps]:
  "update_attempts p f s = Inr r \<longleftrightarrow> (\<forall>a \<in> set (job_attempts s). p a \<longrightarrow> attempt_types_ok (f a)) \<and>
     r = ((), s\<lparr>job_attempts := upd_where p f (job_attempts s)\<rparr>)"
  by (auto simp: update_attempts_def split: if_splits)

lemma update_dispatch_Inr [txn_simps]:
  "update_dispatch p f s = Inr r \<longleftrightarrow> (\<forall>a \<in> set (dispatch_outbox s). p a \<longrightarrow> int4_ok (o_attempts (f a))) \<and>
     r = ((), s\<lparr>dispatch_outbox := upd_where p f (dispatch_outbox s)\<rparr>)"
  by (auto simp: update_dispatch_def split: if_splits)

lemma update_notifications_Inr [txn_simps]:
  "update_notifications p f s = Inr r \<longleftrightarrow>
     (\<forall>a \<in> set (notification_outbox s). p a \<longrightarrow> notification_types_ok (f a)) \<and>
     r = ((), s\<lparr>notification_outbox := upd_where p f (notification_outbox s)\<rparr>)"
  by (auto simp: update_notifications_def split: if_splits)

end
