(* ===== verification/PyText.thy ===== *)
theory PyText
  imports PyFloat
begin

text \<open>
  The text and truth of Python values, as the program uses them: \<^verbatim>\<open>bool(x)\<close>,
  \<^verbatim>\<open>str(x)\<close> and \<^verbatim>\<open>repr(x)\<close> of a JSON value, \<^verbatim>\<open>json.dumps(x)\<close>, and the
  constructors \<^verbatim>\<open>int(x)\<close> and \<^verbatim>\<open>float(x)\<close> with their failures.
\<close>

fun truthy :: "json \<Rightarrow> bool" where
  "truthy JNull = False"
| "truthy (JBool b) = b"
| "truthy (JInt n) = (n \<noteq> 0)"
| "truthy (JFloat x) = (x \<noteq> Finite 0)"
| "truthy (JStr x) = (x \<noteq> [])"
| "truthy (JList xs) = (xs \<noteq> [])"
| "truthy (JObj d) = (d \<noteq> [])"

section \<open>str and repr\<close>

definition hex2 :: "char \<Rightarrow> string" where
  "hex2 c = hex_digits 2 (of_char c)"

definition py_printable :: "char \<Rightarrow> bool" where
  "py_printable c = (let n = (of_char c :: nat) in
     32 \<le> n \<and> n < 127 \<or> 161 \<le> n \<and> n \<noteq> 173)"

definition repr_char :: "char \<Rightarrow> char \<Rightarrow> string" where
  "repr_char quote c =
     (if c = quote \<or> c = CHR 0x5C then [CHR 0x5C, c]
      else if c = CHR 0x0A then [CHR 0x5C, CHR ''n'']
      else if c = CHR 0x0D then [CHR 0x5C, CHR ''r'']
      else if c = CHR 0x09 then [CHR 0x5C, CHR ''t'']
      else if py_printable c then [c]
      else [CHR 0x5C, CHR ''x''] @ hex2 c)"

definition repr_str :: "string \<Rightarrow> string" where
  "repr_str x = (let quote = (if CHR 0x27 \<in> set x \<and> CHR 0x22 \<notin> set x then CHR 0x22 else CHR 0x27) in
     quote # concat (map (repr_char quote) x) @ [quote])"

fun join :: "string \<Rightarrow> string list \<Rightarrow> string" where
  "join sep [] = []"
| "join sep [x] = x"
| "join sep (x # y # xs) = x @ sep @ join sep (y # xs)"

fun py_repr :: "json \<Rightarrow> string" and py_repr_list :: "json list \<Rightarrow> string list" and
    py_repr_items :: "dict \<Rightarrow> string list" where
  "py_repr JNull = ''None''"
| "py_repr (JBool b) = (if b then ''True'' else ''False'')"
| "py_repr (JInt n) = int_str n"
| "py_repr (JFloat x) = float_repr x"
| "py_repr (JStr x) = repr_str x"
| "py_repr (JList xs) = ''['' @ join '', '' (py_repr_list xs) @ '']''"
| "py_repr (JObj d) = ''{'' @ join '', '' (py_repr_items d) @ ''}''"
| "py_repr_list [] = []"
| "py_repr_list (x # xs) = py_repr x # py_repr_list xs"
| "py_repr_items [] = []"
| "py_repr_items ((k, v) # d) = (repr_str k @ '': '' @ py_repr v) # py_repr_items d"

definition py_str :: "json \<Rightarrow> string" where
  "py_str x = (case x of JStr t \<Rightarrow> t | _ \<Rightarrow> py_repr x)"

lemma py_str_JStr [simp]: "py_str (JStr t) = t"
  by (simp add: py_str_def)

section \<open>json.dumps\<close>

definition json_char :: "char \<Rightarrow> string" where
  "json_char c =
     (if c = CHR 0x22 \<or> c = CHR 0x5C then [CHR 0x5C, c]
      else if c = CHR 0x0A then [CHR 0x5C, CHR ''n'']
      else if c = CHR 0x0D then [CHR 0x5C, CHR ''r'']
      else if c = CHR 0x09 then [CHR 0x5C, CHR ''t'']
      else if c = CHR 0x0C then [CHR 0x5C, CHR ''f'']
      else if c = CHR 0x08 then [CHR 0x5C, CHR ''b'']
      else if 32 \<le> (of_char c :: nat) \<and> (of_char c :: nat) < 127 then [c]
      else [CHR 0x5C, CHR ''u'', CHR ''0'', CHR ''0''] @ hex2 c)"

definition json_str :: "string \<Rightarrow> string" where
  "json_str x = CHR 0x22 # concat (map json_char x) @ [CHR 0x22]"

fun json_float :: "pyfloat \<Rightarrow> string" where
  "json_float PosInf = ''Infinity''"
| "json_float NegInf = ''-Infinity''"
| "json_float NaN = ''NaN''"
| "json_float x = float_repr x"

fun json_dumps :: "json \<Rightarrow> string" and json_dumps_list :: "json list \<Rightarrow> string list" and
    json_dumps_items :: "dict \<Rightarrow> string list" where
  "json_dumps JNull = ''null''"
| "json_dumps (JBool b) = (if b then ''true'' else ''false'')"
| "json_dumps (JInt n) = int_str n"
| "json_dumps (JFloat x) = json_float x"
| "json_dumps (JStr x) = json_str x"
| "json_dumps (JList xs) = ''['' @ join '', '' (json_dumps_list xs) @ '']''"
| "json_dumps (JObj d) = ''{'' @ join '', '' (json_dumps_items d) @ ''}''"
| "json_dumps_list [] = []"
| "json_dumps_list (x # xs) = json_dumps x # json_dumps_list xs"
| "json_dumps_items [] = []"
| "json_dumps_items ((k, v) # d) = (json_str k @ '': '' @ json_dumps v) # json_dumps_items d"

section \<open>int(x) and float(x)\<close>

definition is_digit :: "char \<Rightarrow> bool" where
  "is_digit c \<longleftrightarrow> c \<in> set ''0123456789''"

definition is_space :: "char \<Rightarrow> bool" where
  "is_space c = (let n = (of_char c :: nat) in
     9 \<le> n \<and> n \<le> 13 \<or> 28 \<le> n \<and> n \<le> 32 \<or> n = 133 \<or> n = 160)"

definition py_strip :: "string \<Rightarrow> string" where
  "py_strip x = rev (dropWhile is_space (rev (dropWhile is_space x)))"

definition digit_val :: "char \<Rightarrow> nat" where
  "digit_val c = of_char c - 48"

definition nat_of_digits :: "string \<Rightarrow> nat" where
  "nat_of_digits ds = foldl (\<lambda>n c. n * 10 + digit_val c) 0 ds"

text \<open>Underscores may stand between two digits and nowhere else; they are dropped.\<close>

fun drop_underscores :: "bool \<Rightarrow> string \<Rightarrow> string option" where
  "drop_underscores p [] = Some []"
| "drop_underscores p (c # cs) =
     (if c = CHR ''_''
      then (if p \<and> cs \<noteq> [] \<and> is_digit (hd cs) then drop_underscores False cs else None)
      else map_option (\<lambda>r. c # r) (drop_underscores (is_digit c) cs))"

definition split_sign :: "string \<Rightarrow> bool \<times> string" where
  "split_sign x = (case x of [] \<Rightarrow> (False, [])
     | c # cs \<Rightarrow> if c = CHR ''-'' then (True, cs) else if c = CHR ''+'' then (False, cs) else (False, x))"

text \<open>\<^verbatim>\<open>int(s)\<close> refuses more than 4300 digits.\<close>

definition int_of_str :: "string \<Rightarrow> exn + int" where
  "int_of_str x = (let (neg, body) = split_sign (py_strip x) in
     case drop_underscores False body of None \<Rightarrow> Inl (ValueError ''invalid literal for int()'')
     | Some ds \<Rightarrow> if ds = [] \<or> \<not> list_all is_digit ds \<or> length ds > 4300
         then Inl (ValueError ''invalid literal for int()'')
         else Inr (if neg then - int (nat_of_digits ds) else int (nat_of_digits ds)))"

definition to_lower :: "char \<Rightarrow> char" where
  "to_lower c = (if 65 \<le> (of_char c :: nat) \<and> (of_char c :: nat) \<le> 90
     then char_of (of_char c + 32 :: nat) else c)"

definition decimal_exp :: "string \<Rightarrow> int option" where
  "decimal_exp x = (case x of [] \<Rightarrow> Some 0
     | c # cs \<Rightarrow> if to_lower c \<noteq> CHR ''e'' then None
         else let (neg, ds) = split_sign cs in
           if ds = [] \<or> \<not> list_all is_digit ds then None
           else Some (if neg then - int (nat_of_digits ds) else int (nat_of_digits ds)))"

definition decimal_value :: "string \<Rightarrow> rat option" where
  "decimal_value x = (let ip = takeWhile is_digit x; r = dropWhile is_digit x;
       dot = (r \<noteq> [] \<and> hd r = CHR ''.'');
       fp = (if dot then takeWhile is_digit (tl r) else []);
       r' = (if dot then dropWhile is_digit (tl r) else r)
     in if ip = [] \<and> fp = [] then None
        else map_option (\<lambda>e. of_nat (nat_of_digits (ip @ fp)) * 10 powi (e - int (length fp))) (decimal_exp r'))"

definition float_of_str :: "string \<Rightarrow> exn + pyfloat" where
  "float_of_str x = (case drop_underscores False (py_strip x) of
       None \<Rightarrow> Inl (ValueError ''could not convert string to float'')
     | Some t \<Rightarrow> let (neg, body) = split_sign t; low = map to_lower body in
         if low = ''inf'' \<or> low = ''infinity'' then Inr (signed_inf neg)
         else if low = ''nan'' then Inr NaN
         else case decimal_value body of
             None \<Rightarrow> Inl (ValueError ''could not convert string to float'')
           | Some v \<Rightarrow> Inr (round_double (if neg then - v else v)))"

fun py_int :: "json \<Rightarrow> exn + int" where
  "py_int (JBool b) = Inr (if b then 1 else 0)"
| "py_int (JInt n) = Inr n"
| "py_int (JFloat x) = int_of_float x"
| "py_int (JStr x) = int_of_str x"
| "py_int _ = Inl TypeError"

fun py_float :: "json \<Rightarrow> exn + pyfloat" where
  "py_float (JBool b) = Inr (Finite (if b then 1 else 0))"
| "py_float (JInt n) = float_of_int n"
| "py_float (JFloat x) = Inr x"
| "py_float (JStr x) = float_of_str x"
| "py_float _ = Inl TypeError"

end
