(* ===== verification/Catalog.thy ===== *)
theory Catalog
  imports Models PyText
begin

text \<open>
  \<^verbatim>\<open>app/domain/job_catalog.py\<close>: the payload normalizers and the handlers of the five job
  types. A handler runs against an execution context whose callbacks
  (\<^verbatim>\<open>check_cancelled\<close>, \<^verbatim>\<open>report_progress\<close>, \<^verbatim>\<open>sleep\<close>) act on a state of any
  type: the execution service instantiates it with the store.
\<close>

record 's execution_context =
  ctx_job_id :: string
  ctx_attempt :: int
  ctx_settings :: settings
  ctx_check_cancelled :: "('s, exn, unit) io"
  ctx_report_progress :: "int \<Rightarrow> ('s, exn, unit) io"
  ctx_sleep :: "pyfloat \<Rightarrow> ('s, exn, unit) io"

section \<open>Coercion\<close>

text \<open>Only \<^verbatim>\<open>TypeError\<close> and \<^verbatim>\<open>ValueError\<close> are caught.\<close>

definition coerce_int :: "dict \<Rightarrow> string \<Rightarrow> int \<Rightarrow> int \<Rightarrow> exn + int" where
  "coerce_int payload key dflt minimum =
     (let raw = (case map_of payload key of None \<Rightarrow> JInt dflt | Some v \<Rightarrow> v) in
      case py_int raw of
        Inl e \<Rightarrow> if e = TypeError \<or> is_ValueError e then Inl (ValueError (key @ '' must be an integer''))
                 else Inl e
      | Inr value \<Rightarrow> if value < minimum then Inl (ValueError (key @ '' must be at least '' @ int_str minimum))
                   else Inr value)"

definition coerce_float :: "dict \<Rightarrow> string \<Rightarrow> pyfloat \<Rightarrow> pyfloat \<Rightarrow> exn + pyfloat" where
  "coerce_float payload key dflt minimum =
     (let raw = (case map_of payload key of None \<Rightarrow> JFloat dflt | Some v \<Rightarrow> v) in
      case py_float raw of
        Inl e \<Rightarrow> if e = TypeError \<or> is_ValueError e then Inl (ValueError (key @ '' must be a number''))
                 else Inl e
      | Inr value \<Rightarrow> if flt value minimum then Inl (ValueError (key @ '' must be at least '' @ float_repr minimum))
                   else Inr value)"

section \<open>Normalizers\<close>

definition normalize_sleep :: "dict \<Rightarrow> settings \<Rightarrow> exn + dict" where
  "normalize_sleep payload cfg =
     (case coerce_float payload ''duration_seconds'' (job_sleep_default_seconds cfg) (Finite 0) of
        Inl e \<Rightarrow> Inl e
      | Inr d \<Rightarrow> (case coerce_int payload ''steps'' (handler_progress_steps cfg) 1 of
          Inl e \<Rightarrow> Inl e
        | Inr n \<Rightarrow> Inr [(''duration_seconds'', JFloat d), (''steps'', JInt n)]))"

definition normalize_report :: "dict \<Rightarrow> settings \<Rightarrow> exn + dict" where
  "normalize_report payload cfg =
     (case coerce_int payload ''pages'' (job_report_default_pages cfg) 1 of
        Inl e \<Rightarrow> Inl e | Inr n \<Rightarrow> Inr [(''pages'', JInt n)])"

definition normalize_flaky :: "dict \<Rightarrow> settings \<Rightarrow> exn + dict" where
  "normalize_flaky payload cfg =
     (case coerce_int payload ''fail_times'' 1 0 of
        Inl e \<Rightarrow> Inl e | Inr n \<Rightarrow> Inr [(''fail_times'', JInt n)])"

definition normalize_always_fail :: "dict \<Rightarrow> settings \<Rightarrow> exn + dict" where
  "normalize_always_fail payload cfg = Inr []"

definition normalize_llm_summary :: "dict \<Rightarrow> settings \<Rightarrow> exn + dict" where
  "normalize_llm_summary payload cfg =
     (let prompt = (case map_of payload ''prompt'' of None \<Rightarrow> [] | Some v \<Rightarrow> py_str v) in
      case coerce_int payload ''tokens'' (job_llm_default_tokens cfg) 1 of
        Inl e \<Rightarrow> Inl e
      | Inr n \<Rightarrow> Inr [(''prompt'', JStr prompt), (''tokens'', JInt n),
          (''simulate_rate_limit'', JBool (case map_of payload ''simulate_rate_limit'' of
              None \<Rightarrow> False | Some v \<Rightarrow> truthy v))])"

text \<open>The dictionary of normalizers has every job type as a key, so the
  \<^verbatim>\<open>UnknownJobTypeError\<close> branch of the lookup is not reached.\<close>

fun normalize_payload :: "JobType \<Rightarrow> dict \<Rightarrow> settings \<Rightarrow> exn + dict" where
  "normalize_payload SLEEP payload cfg = normalize_sleep payload cfg"
| "normalize_payload REPORT payload cfg = normalize_report payload cfg"
| "normalize_payload FLAKY payload cfg = normalize_flaky payload cfg"
| "normalize_payload ALWAYS_FAIL payload cfg = normalize_always_fail payload cfg"
| "normalize_payload LLM_SUMMARY payload cfg = normalize_llm_summary payload cfg"

section \<open>Handlers\<close>

text \<open>\<^verbatim>\<open>int((index + 1) / steps * 100)\<close>\<close>

definition step_progress :: "int \<Rightarrow> int \<Rightarrow> exn + int" where
  "step_progress index steps = (case int_true_div (index + 1) steps of Inl e \<Rightarrow> Inl e
     | Inr q \<Rightarrow> int_of_float (fmul q (Finite 100)))"

definition run_steps :: "int \<Rightarrow> pyfloat \<Rightarrow> 's execution_context \<Rightarrow> ('s, exn, unit) io" where
  "run_steps steps step_seconds ctx =
     io_for (\<lambda>index. io_bind (ctx_check_cancelled ctx) (\<lambda>_.
             io_bind (ctx_sleep ctx step_seconds) (\<lambda>_.
             io_bind (io_lift (step_progress index steps)) (\<lambda>p.
             ctx_report_progress ctx p)))) [0..steps - 1]"

definition dict_get :: "dict \<Rightarrow> string \<Rightarrow> exn + json" where
  "dict_get d key = (case map_of d key of None \<Rightarrow> Inl (KeyError key) | Some v \<Rightarrow> Inr v)"

definition handle_sleep :: "dict \<Rightarrow> 's execution_context \<Rightarrow> ('s, exn, dict) io" where
  "handle_sleep payload ctx =
     io_bind (io_lift (dict_get payload ''duration_seconds'')) (\<lambda>raw.
     io_bind (io_lift (py_float raw)) (\<lambda>duration.
     io_bind (io_lift (dict_get payload ''steps'')) (\<lambda>raw_steps.
     io_bind (io_lift (py_int raw_steps)) (\<lambda>steps.
     io_bind (io_lift (float_of_int steps)) (\<lambda>fsteps.
     io_bind (io_lift (fdiv duration fsteps)) (\<lambda>step_seconds.
     io_bind (run_steps steps step_seconds ctx) (\<lambda>_.
     io_return [(''slept_seconds'', JFloat duration), (''steps'', JInt steps)])))))))"

definition handle_report :: "dict \<Rightarrow> 's execution_context \<Rightarrow> ('s, exn, dict) io" where
  "handle_report payload ctx =
     io_bind (io_lift (dict_get payload ''pages'')) (\<lambda>raw.
     io_bind (io_lift (py_int raw)) (\<lambda>pages.
     io_bind (run_steps pages (handler_step_seconds (ctx_settings ctx)) ctx) (\<lambda>_.
     io_return [(''report_ref'', JStr (''report://'' @ ctx_job_id ctx)), (''pages'', JInt pages)])))"

definition handle_flaky :: "dict \<Rightarrow> 's execution_context \<Rightarrow> ('s, exn, dict) io" where
  "handle_flaky payload ctx =
     io_bind (io_lift (dict_get payload ''fail_times'')) (\<lambda>raw.
     io_bind (io_lift (py_int raw)) (\<lambda>fail_times.
     io_bind (ctx_check_cancelled ctx) (\<lambda>_.
     if ctx_attempt ctx \<le> fail_times
     then io_raise (RetryableError ''TRANSIENT_FAILURE''
            (''flaky job failing on attempt '' @ int_str (ctx_attempt ctx)))
     else io_return [(''succeeded_on_attempt'', JInt (ctx_attempt ctx))])))"

definition handle_always_fail :: "dict \<Rightarrow> 's execution_context \<Rightarrow> ('s, exn, dict) io" where
  "handle_always_fail payload ctx =
     io_raise (NonRetryableError ''INVALID_INPUT'' ''job type always_fail never succeeds by design'')"

definition handle_llm_summary :: "dict \<Rightarrow> 's execution_context \<Rightarrow> ('s, exn, dict) io" where
  "handle_llm_summary payload ctx =
     io_bind (io_lift (dict_get payload ''tokens'')) (\<lambda>raw.
     io_bind (io_lift (py_int raw)) (\<lambda>tokens.
     io_bind (io_lift (dict_get payload ''simulate_rate_limit'')) (\<lambda>sim.
     if truthy sim \<and> ctx_attempt ctx = 1
     then io_raise (RetryableError ''PROVIDER_RATE_LIMIT''
            ''language model provider rate limit, retry with backoff'')
     else
     io_bind (run_steps (handler_progress_steps (ctx_settings ctx))
        (handler_step_seconds (ctx_settings ctx)) ctx) (\<lambda>_.
     io_bind (io_lift (dict_get payload ''prompt'')) (\<lambda>prompt.
     io_bind (io_lift (if truthy prompt
        then (case prompt of
            JStr t \<Rightarrow> Inr (''summary of '' @ int_str (int (length t)) @ '' character prompt'')
          | JList t \<Rightarrow> Inr (''summary of '' @ int_str (int (length t)) @ '' character prompt'')
          | JObj t \<Rightarrow> Inr (''summary of '' @ int_str (int (length t)) @ '' character prompt'')
          | _ \<Rightarrow> Inl TypeError)
        else Inr ''summary of empty prompt'')) (\<lambda>summary.
     io_return [(''summary'', JStr summary), (''tokens_used'', JInt tokens)]))))))"

fun get_handler :: "JobType \<Rightarrow> dict \<Rightarrow> 's execution_context \<Rightarrow> ('s, exn, dict) io" where
  "get_handler SLEEP = handle_sleep"
| "get_handler REPORT = handle_report"
| "get_handler FLAKY = handle_flaky"
| "get_handler ALWAYS_FAIL = handle_always_fail"
| "get_handler LLM_SUMMARY = handle_llm_summary"

end
