(* ===== verification/CatalogFacts.thy ===== *)
theory CatalogFacts
  imports Catalog PyFloatFacts
begin

text \<open>
  The catalog's functional properties: what a handler reports as progress, what the normalizers
  let through, and that a normalized payload is one its handler can work with.
\<close>

section \<open>Progress\<close>

lemma round_double_bounded:
  assumes "0 \<le> x" and "x \<le> of_int n" and "n < 2 ^ 53"
  shows "round_double x = Finite (fl x)" "0 \<le> fl x" "fl x \<le> of_int n"
proof -
  have n: "0 \<le> n" using assms(1,2) by (metis of_int_0_le_iff order_trans)
  show "0 \<le> fl x" using assms(1) by (rule fl_nonneg)
  show le: "fl x \<le> of_int n" using fl_mono [OF assms(2)] fl_int [of n] n assms(3) by simp
  have "(of_int n :: rat) < of_int (2 ^ 1024)"
    using assms(3) by (subst of_int_less_iff) simp
  then show "round_double x = Finite (fl x)"
    using le \<open>0 \<le> fl x\<close> by (simp add: round_double_def Let_def)
qed

definition progress_at :: "int \<Rightarrow> int \<Rightarrow> int" where
  "progress_at i n = \<lfloor>fl (fl (of_int (i + 1) / of_int n) * 100)\<rfloor>"

lemma step_fraction:
  assumes "0 \<le> i" and "i < n"
  shows "0 \<le> (of_int (i + 1) / of_int n :: rat)" "(of_int (i + 1) / of_int n :: rat) \<le> of_int 1"
  using assms by (simp_all add: divide_le_eq)

lemma step_progress_value:
  assumes "0 \<le> i" and "i < n"
  shows "step_progress i n = Inr (progress_at i n)" "0 \<le> progress_at i n" "progress_at i n \<le> 100"
proof -
  let ?q = "of_int (i + 1) / of_int n :: rat"
  note q = round_double_bounded [OF step_fraction [OF assms], simplified]
  have "0 \<le> fl ?q * 100" "fl ?q * 100 \<le> of_int 100" using q by simp_all
  note p = round_double_bounded [OF this, simplified]
  show "step_progress i n = Inr (progress_at i n)"
    using assms q p by (simp add: step_progress_def int_true_div_def progress_at_def rat_trunc_def)
  show "0 \<le> progress_at i n" using p(2) by (simp add: progress_at_def)
  have "\<lfloor>fl (fl ?q * 100)\<rfloor> \<le> \<lfloor>of_int 100 :: rat\<rfloor>" using p(3) by (intro floor_mono) simp
  then show "progress_at i n \<le> 100" by (simp add: progress_at_def)
qed

lemma progress_at_mono:
  assumes "0 \<le> i" and "i \<le> k" and "k < n"
  shows "progress_at i n \<le> progress_at k n"
  unfolding progress_at_def using assms
  by (intro floor_mono fl_mono mult_right_mono divide_right_mono) auto

lemma progress_at_last:
  assumes "1 \<le> n"
  shows "progress_at (n - 1) n = 100"
proof -
  have "fl 1 = 1" "fl 100 = 100" using fl_int [of 1] fl_int [of 100] by simp_all
  with assms show ?thesis by (simp add: progress_at_def)
qed

text \<open>A context that never cancels and whose reports are kept in order.\<close>

definition recording :: "int list execution_context \<Rightarrow> bool" where
  "recording ctx \<longleftrightarrow> ctx_check_cancelled ctx = io_return () \<and> ctx_sleep ctx = (\<lambda>_. io_return ()) \<and>
     ctx_report_progress ctx = (\<lambda>p s. (Inr (), s @ [p]))"

lemma run_steps_recorded:
  assumes "recording ctx"
  shows "run_steps n secs ctx s = (Inr (), s @ map (\<lambda>i. progress_at i n) [0..n - 1])"
proof -
  have "io_for (\<lambda>i. io_bind (ctx_check_cancelled ctx) (\<lambda>_. io_bind (ctx_sleep ctx secs) (\<lambda>_.
          io_bind (io_lift (step_progress i n)) (\<lambda>p. ctx_report_progress ctx p)))) xs s =
        (Inr (), s @ map (\<lambda>i. progress_at i n) xs)" if "set xs \<subseteq> {0..<n}" for xs
    using that assms
    by (induction xs arbitrary: s) (simp_all add: recording_def txn_simps step_progress_value)
  moreover have "set [0..n - 1] \<subseteq> {0..<n}" by auto
  ultimately show ?thesis unfolding run_steps_def by blast
qed

text \<open>
  C8. A handler that runs its steps to the end reports once per step, never less than before,
  always within the 0 to 100 the database accepts, and 100 at the last step, for any number of
  steps, rounding included.
\<close>

theorem run_steps_progress:
  assumes "recording ctx" and "1 \<le> n"
  shows "\<exists>ps. run_steps n secs ctx s = (Inr (), s @ ps) \<and> length ps = nat n \<and> sorted ps \<and>
    last ps = 100 \<and> (\<forall>p \<in> set ps. 0 \<le> p \<and> p \<le> 100)"
proof -
  define ps where "ps = map (\<lambda>i. progress_at i n) [0..n - 1]"
  have "sorted ps"
    by (auto simp: ps_def sorted_iff_nth_mono intro!: progress_at_mono)
  moreover have "ps \<noteq> []" "[0..n - 1] \<noteq> []" using assms(2) by (simp_all add: ps_def)
  moreover have "last [0..n - 1] = n - 1" using assms(2) by (simp add: upto_rec2 [of 0 "n - 1"])
  ultimately show ?thesis
    using run_steps_recorded [OF assms(1), of n secs s] assms(2) progress_at_last step_progress_value
    by (intro exI [of _ ps]) (auto simp: ps_def last_map)
qed

definition recorder :: "settings \<Rightarrow> int \<Rightarrow> int list execution_context" where
  "recorder cfg attempt = \<lparr>ctx_job_id = ''j'', ctx_attempt = attempt, ctx_settings = cfg,
     ctx_check_cancelled = io_return (), ctx_report_progress = (\<lambda>p s. (Inr (), s @ [p])),
     ctx_sleep = (\<lambda>_. io_return ())\<rparr>"

lemma recording_recorder: "recording (recorder cfg n)"
  by (simp add: recording_def recorder_def)

theorem run_steps_progress_witness:
  "\<exists>ps. run_steps 3 (Finite 1) (recorder default_settings 1) [] = (Inr (), [] @ ps) \<and> length ps = nat 3 \<and>
     sorted ps \<and> last ps = 100 \<and> (\<forall>p \<in> set ps. 0 \<le> p \<and> p \<le> 100)"
  by (rule run_steps_progress) (simp_all add: recording_recorder)

section \<open>The integers that fit a float\<close>

lemma ulp_exponent_top:
  assumes "2 powi 1023 \<le> x" and "x < 2 powi 1024"
  shows "ulp_exponent x = 971"
proof -
  have x: "0 < x" using assms(1) by (rule less_le_trans [rotated]) simp
  have "1023 \<le> binary_exponent x"
    using binary_exponent_mono [OF _ assms(1)] by (simp add: binary_exponent_power del: power_int_numeral)
  moreover have "binary_exponent x < 1024"
  proof (rule ccontr)
    assume "\<not> binary_exponent x < 1024"
    then have "(2::rat) powi 1024 \<le> 2 powi binary_exponent x" by (intro power_int_increasing) simp_all
    with binary_exponent_bounds(1) [OF x] assms(2) show False by linarith
  qed
  ultimately show ?thesis using x by (simp add: ulp_exponent_def)
qed

definition float_limit :: int where
  "float_limit = 2 ^ 1024 - 2 ^ 970"

lemma float_limit_scaled: "(of_int float_limit :: rat) = (2 ^ 53 - 1 / 2) * 2 powi 971"
proof -
  have "(2::rat) ^ (54 + 970) = 2 ^ 54 * 2 ^ 970" "(2::rat) ^ (1 + 970) = 2 * 2 ^ 970"
    by (simp_all only: power_add power_one_right)
  then have pow: "(2::rat) ^ 1024 = 2 ^ 54 * 2 ^ 970" "(2::rat) ^ 971 = 2 * 2 ^ 970" by (simp_all del: power_numeral)
  have "(of_int float_limit :: rat) = 2 ^ 1024 - 2 ^ 970" by (simp only: float_limit_def of_int_diff of_int_power of_int_numeral)
  also have "\<dots> = (2 ^ 53 - 1 / 2) * 2 ^ 971" unfolding pow by (simp add: algebra_simps)
  also have "(2::rat) ^ 971 = 2 powi 971" by (simp only: power_int_numeral)
  finally show ?thesis .
qed

text \<open>Below the limit the integer rounds to the largest float at most, from it on to infinity.\<close>

lemma top_powers: "(2::rat) powi 1024 = 2 ^ 53 * 2 powi 971" "(2::rat) powi 1023 = 2 ^ 52 * 2 powi 971"
proof -
  have "(2::rat) ^ (53 + 971) = 2 ^ 53 * 2 ^ 971" "(2::rat) ^ (52 + 971) = 2 ^ 52 * 2 ^ 971"
    by (rule power_add)+
  then show "(2::rat) powi 1024 = 2 ^ 53 * 2 powi 971" "(2::rat) powi 1023 = 2 ^ 52 * 2 powi 971"
    by (simp_all only: power_int_numeral arith_simps)
qed

lemma fl_top:
  assumes "2 ^ 53 - 1 \<le> v" and "v < 2 ^ 53"
  shows "fl (v * 2 powi 971) = (if v < 2 ^ 53 - 1 / 2 then 2 ^ 53 - 1 else 2 ^ 53) * 2 powi 971"
proof -
  have p: "(0::rat) < 2 powi 971" by simp
  have "2 powi 1023 \<le> v * 2 powi 971" "v * 2 powi 971 < 2 powi 1024"
    unfolding top_powers using assms p by (auto intro!: mult_right_mono mult_strict_right_mono)
  then have u: "ulp_exponent (v * 2 powi 971) = 971" by (rule ulp_exponent_top)
  have "\<lfloor>v\<rfloor> = 2 ^ 53 - 1" by (rule floor_unique) (use assms in simp_all)
  then have "round_half_even v = (if v < 2 ^ 53 - 1 / 2 then 2 ^ 53 - 1 else 2 ^ 53)"
    using assms by (simp add: round_half_even_def Let_def)
  moreover have "v * 2 powi 971 / 2 powi 971 = v" "v * 2 powi 971 \<noteq> 0" using p assms(1) by auto
  ultimately show ?thesis by (simp add: fl_def u del: power_int_numeral)
qed

lemma float_of_int_limit:
  assumes "1 \<le> n"
  shows "float_of_int n = Inl OverflowError \<longleftrightarrow> float_limit \<le> n"
    and "n < float_limit \<Longrightarrow> \<exists>x. float_of_int n = Inr (Finite x) \<and> 1 \<le> x"
proof -
  have one: "1 \<le> fl (of_int n)" using fl_mono [of "of_int 1" "of_int n"] fl_int [of 1] assms by simp
  have big: "fl (of_int float_limit) = 2 powi 1024"
    using fl_top [of "2 ^ 53 - 1 / 2"] by (simp only: float_limit_scaled top_powers) simp
  have top: "(2::rat) powi 1024 = 2 ^ 1024" by (simp only: power_int_numeral)
  have up: "\<not> \<bar>fl (of_int n)\<bar> < 2 ^ 1024" if "float_limit \<le> n"
    using fl_mono [of "of_int float_limit" "of_int n"] that unfolding big top by simp
  have low: "\<bar>fl (of_int n)\<bar> < 2 ^ 1024" if n: "n < float_limit"
  proof -
    let ?p = "(2::rat) powi 971"
    let ?v = "of_int n / ?p"
    have p: "0 < ?p" by simp
    then have v: "of_int n = ?v * ?p" by simp
    have "of_int n < (2 ^ 53 - 1 / 2) * ?p" using n unfolding float_limit_scaled [symmetric] of_int_less_iff .
    then have lt: "?v < 2 ^ 53 - 1 / 2" using p by (simp only: pos_divide_less_eq)
    have "fl (of_int n) \<le> (2 ^ 53 - 1) * ?p"
    proof (cases "2 ^ 53 - 1 \<le> ?v")
      case True
      have "?v < 2 ^ 53" using lt by linarith
      from fl_top [OF True this] lt show ?thesis by (simp only: v [symmetric] if_True)
    next
      case False
      then have "?v * ?p \<le> (2 ^ 53 - 1) * ?p" using p by (intro mult_right_mono) simp_all
      then have "fl (of_int n) \<le> fl ((2 ^ 53 - 1) * ?p)" unfolding v [symmetric] by (rule fl_mono)
      also have "\<dots> = (2 ^ 53 - 1) * ?p" using fl_top [of "2 ^ 53 - 1"] by simp
      finally show ?thesis .
    qed
    also have "\<dots> < 2 ^ 1024" unfolding top [symmetric] top_powers using p by (intro mult_strict_right_mono) simp_all
    finally show ?thesis using one by simp
  qed
  show "float_of_int n = Inl OverflowError \<longleftrightarrow> float_limit \<le> n"
    using up low assms by (cases "float_limit \<le> n") (simp_all add: float_of_int_def round_double_def Let_def del: power_numeral)
  show "\<exists>x. float_of_int n = Inr (Finite x) \<and> 1 \<le> x" if "n < float_limit"
    using low [OF that] one by (simp add: float_of_int_def round_double_def Let_def del: power_numeral)
qed

section \<open>Normalized payloads\<close>

lemma coerce_int_Inr:
  "coerce_int pl key d lo = Inr n \<Longrightarrow> lo \<le> n"
  by (auto simp: coerce_int_def Let_def split: sum.splits if_splits)

lemma fdiv_nonzero: "x \<noteq> 0 \<Longrightarrow> \<exists>q. fdiv d (Finite x) = Inr q"
  by (cases d) simp_all

text \<open>The outcomes a handler plans for: a result, or one of the two errors it raises itself.\<close>

fun planned :: "exn + dict \<Rightarrow> bool" where
  "planned (Inr _) = True"
| "planned (Inl (RetryableError _ _)) = True"
| "planned (Inl (NonRetryableError _ _)) = True"
| "planned (Inl _) = False"

definition same_but_webhook :: "dict \<Rightarrow> dict \<Rightarrow> bool" where
  "same_but_webhook d e \<longleftrightarrow> (\<forall>k. k \<noteq> ''notify_webhook'' \<longrightarrow> map_of e k = map_of d k)"

lemma same_but_webhook_get:
  "same_but_webhook d e \<Longrightarrow> map_of d k = Some v \<Longrightarrow> k \<noteq> ''notify_webhook'' \<Longrightarrow> dict_get e k = Inr v"
  by (simp add: same_but_webhook_def dict_get_def)

lemma sleep_planned:
  assumes "normalize_sleep pl cfg = Inr d" and "same_but_webhook d e" and "recording ctx"
  obtains n where "map_of d ''steps'' = Some (JInt n)"
    "if float_limit \<le> n then fst (handle_sleep e ctx s) = Inl OverflowError else planned (fst (handle_sleep e ctx s))"
proof -
  from assms(1) obtain x n where d: "d = [(''duration_seconds'', JFloat x), (''steps'', JInt n)]" "1 \<le> n"
    by (auto simp: normalize_sleep_def dest: coerce_int_Inr split: sum.splits)
  then have get: "dict_get e ''duration_seconds'' = Inr (JFloat x)" "dict_get e ''steps'' = Inr (JInt n)"
    by (auto intro: same_but_webhook_get [OF assms(2)])
  note limit = float_of_int_limit [OF d(2)]
  have "if float_limit \<le> n then fst (handle_sleep e ctx s) = Inl OverflowError else planned (fst (handle_sleep e ctx s))"
  proof (cases "float_limit \<le> n")
    case True
    then have "float_of_int n = Inl OverflowError" using limit(1) by simp
    with True show ?thesis unfolding handle_sleep_def by (simp add: get txn_simps)
  next
    case False
    then obtain y where y: "float_of_int n = Inr (Finite y)" "1 \<le> y" using limit(2) by auto
    then obtain q where "fdiv x (Finite y) = Inr q" using fdiv_nonzero [of y x] by fastforce
    with False show ?thesis
      unfolding handle_sleep_def by (simp add: get y(1) txn_simps run_steps_recorded [OF assms(3)])
  qed
  with d(1) show thesis by (intro that [of n]) simp_all
qed

lemma report_planned:
  assumes "normalize_report pl cfg = Inr d" and "same_but_webhook d e" and "recording ctx"
  shows "planned (fst (handle_report e ctx s))"
proof -
  from assms(1) obtain n where "d = [(''pages'', JInt n)]"
    by (auto simp: normalize_report_def split: sum.splits)
  then have "dict_get e ''pages'' = Inr (JInt n)" by (auto intro: same_but_webhook_get [OF assms(2)])
  then show ?thesis unfolding handle_report_def
    by (simp add: txn_simps run_steps_recorded [OF assms(3)])
qed

lemma flaky_planned:
  assumes "normalize_flaky pl cfg = Inr d" and "same_but_webhook d e" and "recording ctx"
  shows "planned (fst (handle_flaky e ctx s))"
proof -
  from assms(1) obtain n where "d = [(''fail_times'', JInt n)]"
    by (auto simp: normalize_flaky_def split: sum.splits)
  then have "dict_get e ''fail_times'' = Inr (JInt n)" by (auto intro: same_but_webhook_get [OF assms(2)])
  moreover have "ctx_check_cancelled ctx = io_return ()" using assms(3) by (simp add: recording_def)
  ultimately show ?thesis unfolding handle_flaky_def by (simp add: txn_simps)
qed

lemma llm_summary_planned:
  assumes "normalize_llm_summary pl cfg = Inr d" and "same_but_webhook d e" and "recording ctx"
  shows "planned (fst (handle_llm_summary e ctx s))"
proof -
  from assms(1) obtain x n b where
    "d = [(''prompt'', JStr x), (''tokens'', JInt n), (''simulate_rate_limit'', JBool b)]"
    by (auto simp: normalize_llm_summary_def Let_def split: sum.splits)
  then have "dict_get e ''prompt'' = Inr (JStr x)" "dict_get e ''tokens'' = Inr (JInt n)"
      "dict_get e ''simulate_rate_limit'' = Inr (JBool b)"
    by (auto intro: same_but_webhook_get [OF assms(2)])
  then show ?thesis unfolding handle_llm_summary_def
    by (simp add: txn_simps run_steps_recorded [OF assms(3)])
qed

text \<open>
  C9. A payload the normalizer let through is one its handler can work with, but for one bound that
  the normalizer does not check. Whatever the client sent, with or without a webhook added, the
  handler of the type ends with a result or with one of the errors it raises on purpose, never with a
  missing key, a type error or a conversion error; except for a sleep job whose number of steps does
  not fit a float: its handler raises \<^const>\<open>OverflowError\<close>, from exactly this number on.
\<close>

theorem handlers_accept_normalized:
  assumes "normalize_payload ty pl cfg = Inr d" and "same_but_webhook d e" and "recording ctx"
  shows "if ty = SLEEP \<and> (\<exists>n. map_of d ''steps'' = Some (JInt n) \<and> 2 ^ 1024 - 2 ^ 970 \<le> n)
    then fst (get_handler ty e ctx s) = Inl OverflowError else planned (fst (get_handler ty e ctx s))"
proof (cases ty)
  case SLEEP
  with assms(1) have "normalize_sleep pl cfg = Inr d" by simp
  then obtain n where "map_of d ''steps'' = Some (JInt n)"
    "if float_limit \<le> n then fst (handle_sleep e ctx s) = Inl OverflowError else planned (fst (handle_sleep e ctx s))"
    using assms(2,3) by (rule sleep_planned)
  with SLEEP show ?thesis unfolding float_limit_def by (simp del: power_numeral)
qed (use assms report_planned flaky_planned llm_summary_planned in
     \<open>simp_all add: handle_always_fail_def txn_simps del: power_numeral\<close>)

theorem handlers_accept_normalized_witness:
  "planned (fst (get_handler REPORT [(''pages'', JInt 3), (''notify_webhook'', JStr ''http://x'')]
     (recorder default_settings 1) []))"
proof -
  have "normalize_payload REPORT [(''pages'', JStr ''3'')] default_settings = Inr [(''pages'', JInt 3)]"
    by code_simp
  then have "if REPORT = SLEEP \<and> (\<exists>n. map_of [(''pages'', JInt 3)] ''steps'' = Some (JInt n) \<and> 2 ^ 1024 - 2 ^ 970 \<le> n)
    then fst (get_handler REPORT [(''pages'', JInt 3), (''notify_webhook'', JStr ''http://x'')] (recorder default_settings 1) []) =
      Inl OverflowError
    else planned (fst (get_handler REPORT [(''pages'', JInt 3), (''notify_webhook'', JStr ''http://x'')] (recorder default_settings 1) []))"
    by (rule handlers_accept_normalized) (simp_all add: same_but_webhook_def recording_recorder)
  then show ?thesis by simp
qed

end
