(* ===== verification/Backoff.thy ===== *)
theory Backoff
  imports Config PyFloat
begin

text \<open>
  \<^verbatim>\<open>app/domain/backoff.py\<close>. \<open>rnd\<close> is what \<^verbatim>\<open>random.random()\<close> returns, a float
  in \<open>[0, 1)\<close>; \<^verbatim>\<open>random.uniform(a, b)\<close> is \<open>a + (b - a) * rnd\<close>. The power of two
  is an unbounded integer that multiplication converts to a float first, which raises
  \<^const>\<open>OverflowError\<close> once it is too large.
\<close>

definition uniform :: "pyfloat \<Rightarrow> pyfloat \<Rightarrow> pyfloat \<Rightarrow> pyfloat" where
  "uniform a b rnd = fadd a (fmul (fsub b a) rnd)"

definition compute_backoff_seconds :: "int \<Rightarrow> settings \<Rightarrow> pyfloat \<Rightarrow> exn + pyfloat" where
  "compute_backoff_seconds attempt_count cfg rnd =
     (case float_of_int (2 ^ nat (max 0 (attempt_count - 1))) of Inl e \<Rightarrow> Inl e
      | Inr factor \<Rightarrow>
        let geometric = fmul (retry_base_seconds cfg) factor;
            capped = fmin geometric (retry_max_seconds cfg);
            jitter = fmul capped (retry_jitter_ratio cfg)
        in Inr (fmax (Finite 0) (fadd capped (uniform (fneg jitter) jitter rnd))))"

end
