(* ===== verification/BackoffFacts.thy ===== *)
theory BackoffFacts
  imports Backoff PyFloatFacts
begin

text \<open>
  The retry delay: its range for every attempt count and every draw of the jitter, what it is
  without jitter, and the attempt count from which it cannot be computed.
\<close>

lemma round_double_below:
  assumes "0 \<le> x" and "x \<le> b" and "fl b = b" and "b \<le> 2 powi 1023"
  shows "round_double x = Finite (fl x)" "0 \<le> fl x" "fl x \<le> b"
proof -
  have "\<bar>fl x\<bar> < 2 ^ 1024" using assms by (intro fl_bounded) simp
  then show "round_double x = Finite (fl x)" by (simp add: round_double_def Let_def)
  show "0 \<le> fl x" "fl x \<le> b" using fl_nonneg fl_mono [OF assms(2)] assms(1,3) by simp_all
qed

lemma capped_delay:
  assumes "0 \<le> b" and "0 \<le> m" and "fl m = m"
  shows "\<exists>c. fmin (fmul (Finite b) (Finite (2 powi k))) (Finite m) = Finite c \<and> 0 \<le> c \<and> c \<le> m \<and> fl c = c"
proof (cases "b = 0")
  case True
  with assms show ?thesis by (simp add: fmin_def round_double_def Let_def)
next
  case False
  then have "0 < b * 2 powi k" using assms(1) by (simp add: zero_less_mult_iff)
  with assms show ?thesis by (auto simp: fmin_def round_double_def Let_def fl_nonneg)
qed

text \<open>The jitter is symmetric: adding it keeps the delay between the cap less and plus the jitter.\<close>

lemma jittered_delay:
  assumes c: "0 \<le> c" "fl c = c" "c \<le> 2 powi 1000" and j: "0 \<le> j" "j \<le> c" "fl j = j" and r: "0 \<le> r" "r \<le> 1"
  shows "\<exists>d. fadd (Finite c) (uniform (fneg (Finite j)) (Finite j) (Finite r)) = Finite d \<and>
    fl (c - j) \<le> d \<and> d \<le> fl (c + j)"
proof -
  have big: "(2::rat) powi 1000 * 4 \<le> 2 powi 1023"
    using power_int_increasing [of 1002 1023 "2::rat"] by (simp add: power_int_add)
  have dbl: "fl (2 * j) = 2 * j" using j(3) by (rule fl_double)
  have width: "round_double (2 * j) = Finite (2 * j)"
    using round_double_below(1) [of "2 * j" "2 * j"] dbl j c big by simp
  have scaled: "round_double (2 * j * r) = Finite (fl (2 * j * r))" "0 \<le> fl (2 * j * r)" "fl (2 * j * r) \<le> 2 * j"
    using round_double_below [of "2 * j * r" "2 * j"] dbl j r c big by (simp_all add: mult_left_le)
  define v where "v = fl (- j + fl (2 * j * r))"
  have v: "- j \<le> v" "v \<le> j"
    using fl_mono [of "- j" "- j + fl (2 * j * r)"] fl_mono [of "- j + fl (2 * j * r)" j] scaled j(3)
    by (simp_all add: v_def)
  have "\<bar>v\<bar> < 2 ^ 1024" "\<bar>fl (c + v)\<bar> < 2 ^ 1024"
  proof -
    show "\<bar>fl (c + v)\<bar> < 2 ^ 1024" using v c j big by (intro fl_bounded) linarith
    show "\<bar>v\<bar> < 2 ^ 1024" using powi_less_max [of 1023] v c j big by linarith
  qed
  then have "uniform (fneg (Finite j)) (Finite j) (Finite r) = Finite v"
      "fadd (Finite c) (Finite v) = Finite (fl (c + v))"
    using width scaled(1) by (simp_all add: uniform_def fsub_def round_double_def Let_def v_def)
  moreover have "fl (c - j) \<le> fl (c + v)" "fl (c + v) \<le> fl (c + j)" using v by (auto intro: fl_mono)
  ultimately show ?thesis by auto
qed

definition backoff_limits :: "settings \<Rightarrow> rat \<Rightarrow> rat \<Rightarrow> bool" where
  "backoff_limits cfg m q \<longleftrightarrow> (\<exists>b \<ge> 0. retry_base_seconds cfg = Finite b) \<and>
     retry_max_seconds cfg = Finite m \<and> 0 \<le> m \<and> m \<le> 2 powi 1000 \<and> fl m = m \<and>
     retry_jitter_ratio cfg = Finite q \<and> 0 \<le> q \<and> q \<le> 1"

lemma float_of_power:
  "float_of_int (2 ^ k) = (if k \<le> 1023 then Inr (Finite (2 powi int k)) else Inl OverflowError)"
  using round_double_power [of "int k"] by (simp add: float_of_int_def)

lemma backoff_in_limits:
  assumes "backoff_limits cfg m q" and "n \<le> 1024" and "0 \<le> r" and "r \<le> 1"
  shows "\<exists>d. compute_backoff_seconds n cfg (Finite r) = Inr (Finite d) \<and> 0 \<le> d \<and> d \<le> fl (m + fl (m * q))"
proof -
  define k where "k = nat (max 0 (n - 1))"
  have k: "float_of_int (2 ^ k) = Inr (Finite (2 powi int k))" using assms(2) by (simp add: float_of_power k_def)
  from assms(1) obtain b where b: "0 \<le> b" "retry_base_seconds cfg = Finite b"
    and m: "retry_max_seconds cfg = Finite m" "0 \<le> m" "m \<le> 2 powi 1000" "fl m = m"
    and q: "retry_jitter_ratio cfg = Finite q" "0 \<le> q" "q \<le> 1"
    by (auto simp: backoff_limits_def)
  obtain c where c: "fmin (fmul (Finite b) (Finite (2 powi int k))) (Finite m) = Finite c" "0 \<le> c" "c \<le> m" "fl c = c"
    using capped_delay [OF b(1) m(2,4)] by blast
  have "(2::rat) powi 1000 \<le> 2 powi 1023" by (intro power_int_increasing) auto
  then have lim: "c \<le> 2 powi 1000" "c \<le> 2 powi 1023" using c(3) m(3) by auto
  note j = round_double_below [of "c * q" c, OF _ _ c(4) lim(2)]
  have j': "fmul (Finite c) (Finite q) = Finite (fl (c * q))" "0 \<le> fl (c * q)" "fl (c * q) \<le> c"
    using j c(2) q by (simp_all add: mult_left_le)
  obtain d where d: "fadd (Finite c) (uniform (fneg (Finite (fl (c * q)))) (Finite (fl (c * q))) (Finite r)) = Finite d"
      "fl (c - fl (c * q)) \<le> d" "d \<le> fl (c + fl (c * q))"
    using jittered_delay [OF c(2,4) lim(1) j'(2,3) _ assms(3,4)] by auto
  have "0 \<le> d" using d(2) fl_nonneg [of "c - fl (c * q)"] j'(3) by simp
  moreover have "fl (c + fl (c * q)) \<le> fl (m + fl (m * q))"
    using c(3) q(2) by (intro fl_mono add_mono mult_right_mono) auto
  ultimately show ?thesis using d(1,3)
    by (simp add: compute_backoff_seconds_def k_def [symmetric] k b m(1) q(1) c(1) [unfolded power_int_of_nat] j'(1) Let_def fmax_def
        del: fmul.simps fadd.simps fneg.simps)
qed

text \<open>
  C10. The delay before a retry is a finite number of seconds, never negative, and never above the
  configured maximum plus its jitter, for every attempt up to the 1024th and every draw of the
  random generator; rounding errors included.
\<close>

theorem backoff_bounded:
  assumes "backoff_limits cfg m q" and "n \<le> 1024" and "0 \<le> r" and "r \<le> 1"
  shows "\<exists>d. compute_backoff_seconds n cfg (Finite r) = Inr (Finite d) \<and> 0 \<le> d \<and> d \<le> fl (m + fl (m * q))"
  using assms by (rule backoff_in_limits)

lemma default_backoff_limits: "backoff_limits default_settings 1800 (1/4)"
proof -
  have "fl 1800 = 1800" using fl_int [of 1800] by simp
  moreover have "(1800::rat) \<le> 2 powi 1000"
    using power_int_increasing [of 11 1000 "2::rat"] by simp
  ultimately show ?thesis by (simp add: backoff_limits_def default_settings_def del: power_int_numeral)
qed

theorem backoff_bounded_witness:
  "\<exists>d. compute_backoff_seconds 7 default_settings (Finite (1/2)) = Inr (Finite d) \<and> 0 \<le> d \<and>
     d \<le> fl (1800 + fl (1800 * (1/4)))"
  by (rule backoff_bounded [OF default_backoff_limits]) simp_all

text \<open>
  C11. From the 1025th attempt on the delay cannot be computed: the power of two no longer fits a
  float and the multiplication raises \<^const>\<open>OverflowError\<close>, whatever the settings.
\<close>

theorem backoff_overflow: "compute_backoff_seconds n cfg rnd = Inl OverflowError \<longleftrightarrow> 1025 \<le> n"
proof -
  define k where "k = nat (max 0 (n - 1))"
  have "k \<le> 1023 \<longleftrightarrow> \<not> 1025 \<le> n" by (auto simp: k_def)
  then show ?thesis
    unfolding compute_backoff_seconds_def k_def [symmetric] float_of_power by (simp add: Let_def)
qed

end
