(* ===== verification/DateTime.thy ===== *)
theory DateTime
  imports PyFloat
begin

text \<open>
  \<^verbatim>\<open>datetime.isoformat()\<close> of an instant in UTC. An instant counts microseconds from
  1970-01-01T00:00:00+00:00; the date is that of the proleptic Gregorian calendar, which
  Python's \<^verbatim>\<open>datetime\<close> uses. And the sum of an instant and a duration, which Python
  refuses when the year leaves 1 to 9999.
\<close>

definition us_per_day :: int where
  "us_per_day = 86400 * microseconds"

text \<open>Year, month and day of a day number, by the 400-year era that starts on a 1st of March.\<close>

definition civil_of_days :: "int \<Rightarrow> int \<times> int \<times> int" where
  "civil_of_days days = (let z = days + 719468; era = z div 146097; doe = z mod 146097;
       yoe = (doe - doe div 1460 + doe div 36524 - doe div 146096) div 365;
       doy = doe - (365 * yoe + yoe div 4 - yoe div 100);
       mp = (5 * doy + 2) div 153;
       d = doy - (153 * mp + 2) div 5 + 1;
       m = (if mp < 10 then mp + 3 else mp - 9)
     in (yoe + era * 400 + (if m \<le> 2 then 1 else 0), m, d))"

fun dec_digits :: "nat \<Rightarrow> nat \<Rightarrow> string" where
  "dec_digits 0 v = []"
| "dec_digits (Suc k) v = dec_digits k (v div 10) @ [digit_char (v mod 10)]"

definition isoformat :: "datetime \<Rightarrow> string" where
  "isoformat t = (let (y, m, d) = civil_of_days (t div us_per_day); us = t mod us_per_day;
       sec = us div microseconds; frac = us mod microseconds
     in dec_digits 4 (nat y) @ ''-'' @ dec_digits 2 (nat m) @ ''-'' @ dec_digits 2 (nat d) @ ''T'' @
        dec_digits 2 (nat (sec div 3600)) @ '':'' @ dec_digits 2 (nat (sec mod 3600 div 60)) @ '':'' @
        dec_digits 2 (nat (sec mod 60)) @
        (if frac = 0 then [] else ''.'' @ dec_digits 6 (nat frac)) @ ''+00:00'')"

text \<open>\<^verbatim>\<open>datetime.min\<close> and \<^verbatim>\<open>datetime.max\<close> in UTC. The sum raises
  \<^verbatim>\<open>OverflowError\<close> outside them, as does a duration that \<^verbatim>\<open>timedelta\<close> cannot
  hold: a duration of more than 999999999 days takes any instant out of the range.\<close>

definition datetime_min :: datetime where
  "datetime_min = - 62135596800 * microseconds"

definition datetime_max :: datetime where
  "datetime_max = 253402300800 * microseconds - 1"

definition datetime_add :: "datetime \<Rightarrow> int \<Rightarrow> exn + datetime" where
  "datetime_add t delta = (if datetime_min \<le> t + delta \<and> t + delta \<le> datetime_max
     then Inr (t + delta) else Inl OverflowError)"

lemma datetime_add_Inr: "datetime_add t delta = Inr u \<longleftrightarrow>
    u = t + delta \<and> datetime_min \<le> u \<and> u \<le> datetime_max"
  by (auto simp: datetime_add_def)

end
