(* ===== verification/Codec.thy ===== *)
theory Codec
  imports DateTime PyText
begin

text \<open>
  The library functions behind the pagination cursor and the worker's message ids:
  \<^verbatim>\<open>base64.urlsafe_b64encode\<close> and \<^verbatim>\<open>urlsafe_b64decode\<close> (with the decoder's lenient
  treatment of characters outside the alphabet and of padding), \<^verbatim>\<open>uuid.UUID(text)\<close> and
  \<^verbatim>\<open>datetime.fromisoformat\<close>. Bytes and text are lists of characters; text that is not
  ASCII is not modelled.
\<close>

section \<open>Base64\<close>

definition b64_alphabet :: string where
  "b64_alphabet = ''ABCDEFGHIJKLMNOPQRSTUVWXYZabcdefghijklmnopqrstuvwxyz0123456789-_''"

definition b64_char :: "nat \<Rightarrow> char" where
  "b64_char n = b64_alphabet ! n"

text \<open>The value of a character; the decoder also accepts the standard alphabet's \<^verbatim>\<open>+\<close> and
  \<^verbatim>\<open>/\<close>, to which it translates the URL-safe characters.\<close>

definition b64_value :: "char \<Rightarrow> nat option" where
  "b64_value c = (if c = CHR ''+'' then Some 62 else if c = CHR ''/'' then Some 63
     else map_of (zip b64_alphabet [0..<64]) c)"

definition byte :: "char \<Rightarrow> nat" where
  "byte c = of_char c"

fun b64_encode :: "string \<Rightarrow> string" where
  "b64_encode [] = []"
| "b64_encode [a] = [b64_char (byte a div 4), b64_char (byte a mod 4 * 16), CHR ''='', CHR ''='']"
| "b64_encode [a, b] = [b64_char (byte a div 4), b64_char (byte a mod 4 * 16 + byte b div 16),
     b64_char (byte b mod 16 * 4), CHR ''='']"
| "b64_encode (a # b # c # rest) =
     [b64_char (byte a div 4), b64_char (byte a mod 4 * 16 + byte b div 16),
      b64_char (byte b mod 16 * 4 + byte c div 64), b64_char (byte c mod 64)] @ b64_encode rest"

text \<open>
  \<^verbatim>\<open>binascii.a2b_base64\<close>, not strict: \<open>quad\<close> is the position in the group of four,
  \<open>left\<close> the bits not yet written, \<open>pads\<close> the padding seen in a row.
\<close>

fun b64_decode_loop :: "nat \<Rightarrow> nat \<Rightarrow> nat \<Rightarrow> string \<Rightarrow> exn + string" where
  "b64_decode_loop quad left pads [] =
     (if quad = 0 then Inr [] else Inl (ValueError ''Incorrect padding''))"
| "b64_decode_loop quad left pads (c # cs) =
     (if c = CHR ''='' then
        (if quad \<ge> 2 \<and> quad + pads + 1 \<ge> 4 then Inr []
         else b64_decode_loop quad left (if quad \<ge> 2 then pads + 1 else pads) cs)
      else case b64_value c of
        None \<Rightarrow> b64_decode_loop quad left pads cs
      | Some v \<Rightarrow>
          if quad = 0 then b64_decode_loop 1 v 0 cs
          else
            let (out, left') = (if quad = 1 then (left * 4 + v div 16, v mod 16)
                  else if quad = 2 then (left * 16 + v div 4, v mod 4) else (left * 64 + v, 0))
            in map_sum id (\<lambda>r. char_of out # r) (b64_decode_loop ((quad + 1) mod 4) left' 0 cs))"

definition b64_decode :: "string \<Rightarrow> exn + string" where
  "b64_decode s = b64_decode_loop 0 0 0 s"

section \<open>uuid.UUID\<close>

fun hex_value :: "char \<Rightarrow> nat option" where
  "hex_value c = map_of (zip ''0123456789abcdef'' [0..<16] @ zip ''ABCDEF'' [10..<16]) c"

definition nat_of_hex :: "string \<Rightarrow> nat" where
  "nat_of_hex ds = foldl (\<lambda>n c. n * 16 + the (hex_value c)) 0 ds"

definition is_hex :: "char \<Rightarrow> bool" where
  "is_hex c \<longleftrightarrow> hex_value c \<noteq> None"

text \<open>\<^verbatim>\<open>s.replace(old, '')\<close>, leftmost occurrences first.\<close>

function remove_all :: "string \<Rightarrow> string \<Rightarrow> string" where
  "remove_all old [] = []"
| "remove_all old (c # cs) =
     (if old \<noteq> [] \<and> take (length old) (c # cs) = old then remove_all old (drop (length old) (c # cs))
      else c # remove_all old cs)"
  by pat_completeness auto
termination
  by (relation "measure (\<lambda>(old, s). length s)") (auto simp: length_greater_0_conv)

definition strip_chars :: "char list \<Rightarrow> string \<Rightarrow> string" where
  "strip_chars cs s = rev (dropWhile (\<lambda>c. c \<in> set cs) (rev (dropWhile (\<lambda>c. c \<in> set cs) s)))"

fun drop_hex_underscores :: "bool \<Rightarrow> string \<Rightarrow> string option" where
  "drop_hex_underscores p [] = Some []"
| "drop_hex_underscores p (c # cs) =
     (if c = CHR ''_''
      then (if p \<and> cs \<noteq> [] \<and> is_hex (hd cs) then drop_hex_underscores False cs else None)
      else map_option (\<lambda>r. c # r) (drop_hex_underscores (is_hex c) cs))"

text \<open>\<^verbatim>\<open>int(s, 16)\<close>: surrounding space, a sign, the prefix \<^verbatim>\<open>0x\<close> (after which an
  underscore may follow) and underscores between digits are accepted.\<close>

definition int_base16 :: "string \<Rightarrow> int option" where
  "int_base16 s = (let (neg, body) = split_sign (py_strip s);
       digits = (if take 2 body = ''0x'' \<or> take 2 body = ''0X''
                 then drop_hex_underscores True (drop 2 body) else drop_hex_underscores False body)
     in case digits of None \<Rightarrow> None
        | Some ds \<Rightarrow> if ds = [] \<or> \<not> list_all is_hex ds then None
                     else Some (if neg then - int (nat_of_hex ds) else int (nat_of_hex ds)))"

definition uuid_parse :: "string \<Rightarrow> exn + uuid" where
  "uuid_parse text =
     (let h = remove_all ''-'' (strip_chars ''{}'' (remove_all ''uuid:'' (remove_all ''urn:'' text))) in
      if length h \<noteq> 32 then Inl (ValueError ''badly formed hexadecimal UUID string'')
      else case int_base16 h of
        None \<Rightarrow> Inl (ValueError ''invalid literal for int() with base 16'')
      | Some n \<Rightarrow> if 0 \<le> n \<and> n < 2 ^ 128 then Inr (word_of_int n)
                  else Inl (ValueError ''int is out of range (need a 128-bit value)''))"

section \<open>datetime.fromisoformat\<close>

text \<open>
  The parser reads a NUL-terminated buffer: a position at or behind the end holds NUL. It accepts
  calendar and ISO week dates, with and without separators, any separator character between date
  and time, and a fraction of any number of digits. A text without an offset gives a naive
  \<^verbatim>\<open>datetime\<close>, which the database driver takes to be in the local time zone of the
  process; the model takes that zone to be UTC. This is the parser of Python 3.12, which the image and
  the continuous integration of the repository run; the one of 3.10, which the package metadata still
  admits, refuses some of the cursors the program has not issued.
\<close>

definition nul :: char where
  "nul = CHR 0x00"

definition char_at :: "string \<Rightarrow> nat \<Rightarrow> char" where
  "char_at s i = (if i < length s then s ! i else nul)"

definition digits_at :: "string \<Rightarrow> nat \<Rightarrow> nat \<Rightarrow> int option" where
  "digits_at s p n = (let ds = map (char_at s) [p..<p + n] in
     if list_all is_digit ds then Some (int (nat_of_digits ds)) else None)"

definition is_leap :: "int \<Rightarrow> bool" where
  "is_leap y \<longleftrightarrow> y mod 4 = 0 \<and> (y mod 100 \<noteq> 0 \<or> y mod 400 = 0)"

definition days_in_month :: "int \<Rightarrow> int \<Rightarrow> int" where
  "days_in_month y m = (if m = 2 then (if is_leap y then 29 else 28)
     else if m = 4 \<or> m = 6 \<or> m = 9 \<or> m = 11 then 30 else 31)"

definition days_of_civil :: "int \<Rightarrow> int \<Rightarrow> int \<Rightarrow> int" where
  "days_of_civil y m d = (let y' = (if m \<le> 2 then y - 1 else y); mp = (if m > 2 then m - 3 else m + 9)
     in 365 * y' + y' div 4 - y' div 100 + y' div 400 + (153 * mp + 2) div 5 + d - 1 - 719468)"

definition date_days :: "int \<Rightarrow> int \<Rightarrow> int \<Rightarrow> int option" where
  "date_days y m d = (if 1 \<le> y \<and> y \<le> 9999 \<and> 1 \<le> m \<and> m \<le> 12 \<and> 1 \<le> d \<and> d \<le> days_in_month y m
     then Some (days_of_civil y m d) else None)"

definition weekday :: "int \<Rightarrow> int" where
  "weekday days = (days + 3) mod 7"

definition iso_week_days :: "int \<Rightarrow> int \<Rightarrow> int \<Rightarrow> int option" where
  "iso_week_days y w d = (let first = days_of_civil y 1 1; wd = weekday first;
       monday = first - wd + (if wd > 3 then 7 else 0); days = monday + (w - 1) * 7 + d - 1
     in if 1 \<le> y \<and> y \<le> 9999 \<and> 1 \<le> w \<and> (w \<le> 52 \<or> w = 53 \<and> (wd = 3 \<or> wd = 2 \<and> is_leap y)) \<and>
           1 \<le> d \<and> d \<le> 7 \<and> days_of_civil 1 1 1 \<le> days \<and> days \<le> days_of_civil 9999 12 31
        then Some days else None)"

definition find_separator :: "string \<Rightarrow> nat option" where
  "find_separator s = (let n = length s in
     if n < 7 then None
     else if n = 7 then Some 7
     else if char_at s 4 = CHR ''-'' then
       (if char_at s 5 = CHR ''W'' then
          (if n > 8 \<and> char_at s 8 = CHR ''-'' then
             (if n = 9 then None else if n > 10 \<and> is_digit (char_at s 10) then Some 8 else Some 10)
           else Some 8)
        else Some 10)
     else if char_at s 4 = CHR ''W'' then
       (let pos = 7 + length (takeWhile is_digit (drop 7 s)) in
        if pos < 9 then Some pos else if even pos then Some 7 else Some 8)
     else Some 8)"

definition parse_date :: "string \<Rightarrow> nat \<Rightarrow> int option" where
  "parse_date s len = (case digits_at s 0 4 of None \<Rightarrow> None | Some y \<Rightarrow>
     let sep = (char_at s 4 = CHR ''-''); p = (if sep then 5 else 4) in
     if char_at s p = CHR ''W'' then
       (case digits_at s (p + 1) 2 of None \<Rightarrow> None | Some w \<Rightarrow>
        if p + 3 < len then
          (if sep \<and> char_at s (p + 3) \<noteq> CHR ''-'' then None
           else case digits_at s (if sep then p + 4 else p + 3) 1 of None \<Rightarrow> None
             | Some d \<Rightarrow> iso_week_days y w d)
        else iso_week_days y w 1)
     else (case digits_at s p 2 of None \<Rightarrow> None | Some m \<Rightarrow>
       if sep \<and> char_at s (p + 2) \<noteq> CHR ''-'' then None
       else case digits_at s (if sep then p + 3 else p + 2) 2 of None \<Rightarrow> None
         | Some d \<Rightarrow> date_days y m d))"

text \<open>The fraction of a second, in microseconds; digits after the sixth are dropped. The second
  result says whether text is left behind it.\<close>

definition parse_fraction :: "string \<Rightarrow> nat \<Rightarrow> nat \<Rightarrow> (int \<times> bool) option" where
  "parse_fraction s p p_end = (let k = min 6 (p_end - p) in
     case digits_at s p k of None \<Rightarrow> None
     | Some v \<Rightarrow> let q = p + k + length (takeWhile is_digit (drop (p + k) s)) in
         Some (v * 10 ^ (6 - k), char_at s q \<noteq> nul))"

fun parse_hms :: "nat \<Rightarrow> bool \<Rightarrow> string \<Rightarrow> nat \<Rightarrow> nat \<Rightarrow> (int list \<times> int \<times> bool) option" where
  "parse_hms 0 sep s p p_end =
     map_option (\<lambda>(us, more). ([], us, more)) (parse_fraction s p p_end)"
| "parse_hms (Suc k) sep s p p_end =
     (case digits_at s p 2 of None \<Rightarrow> None
      | Some v \<Rightarrow>
        let c = char_at s (p + 2); sep = (if k = 2 then c = CHR '':'' else sep) in
        if p + 3 \<ge> p_end then Some ([v], 0, c \<noteq> nul)
        else if sep \<and> c = CHR '':'' then
          map_option (\<lambda>(vs, us, more). (v # vs, us, more)) (parse_hms k sep s (p + 3) p_end)
        else if c = CHR ''.'' \<or> c = CHR '','' then
          map_option (\<lambda>(us, more). ([v], us, more)) (parse_fraction s (p + 3) p_end)
        else if \<not> sep then
          map_option (\<lambda>(vs, us, more). (v # vs, us, more)) (parse_hms k sep s (p + 2) p_end)
        else None)"

definition hms_value :: "int list \<Rightarrow> int \<times> int \<times> int" where
  "hms_value vs = (case vs of [] \<Rightarrow> (0, 0, 0) | [h] \<Rightarrow> (h, 0, 0) | [h, m] \<Rightarrow> (h, m, 0) | h # m # x # _ \<Rightarrow> (h, m, x))"

definition time_of_day :: "int list \<Rightarrow> int \<Rightarrow> int option" where
  "time_of_day vs us = (case hms_value vs of (h, m, x) \<Rightarrow>
     if h \<le> 23 \<and> m \<le> 59 \<and> x \<le> 59 then Some ((h * 3600 + m * 60 + x) * microseconds + us) else None)"

text \<open>Microseconds since midnight, less the offset.\<close>

definition parse_time :: "string \<Rightarrow> nat \<Rightarrow> int option" where
  "parse_time s p = (let n = length s;
       tz = p + length (takeWhile (\<lambda>c. c \<noteq> CHR ''+'' \<and> c \<noteq> CHR ''-'' \<and> c \<noteq> CHR ''Z'') (drop p s))
     in case parse_hms 3 True s p tz of None \<Rightarrow> None
        | Some (vs, us, more) \<Rightarrow>
          if tz = n then (if more then None else time_of_day vs us)
          else if char_at s tz = CHR ''Z'' then (if char_at s (tz + 1) \<noteq> nul then None else time_of_day vs us)
          else (case parse_hms 3 True s (tz + 1) n of None \<Rightarrow> None
            | Some (ws, wus, more') \<Rightarrow>
              (case hms_value ws of (h, m, x) \<Rightarrow>
                let off = (h * 3600 + m * 60 + x) * microseconds + wus in
                if more' \<or> off \<ge> 86400 * microseconds then None
                else map_option (\<lambda>t. if char_at s tz = CHR ''-'' then t + off else t - off) (time_of_day vs us))))"

definition fromisoformat :: "string \<Rightarrow> exn + datetime" where
  "fromisoformat s =
     (case find_separator s of None \<Rightarrow> Inl (ValueError ''Invalid isoformat string'')
      | Some sep \<Rightarrow>
        (case parse_date s sep of None \<Rightarrow> Inl (ValueError ''Invalid isoformat string'')
         | Some days \<Rightarrow>
           if length s > sep then
             (case parse_time s (sep + 1) of None \<Rightarrow> Inl (ValueError ''Invalid isoformat string'')
              | Some t \<Rightarrow> Inr (days * us_per_day + t))
           else Inr (days * us_per_day)))"

end
