(* ===== verification/CodecFacts.thy ===== *)
theory CodecFacts
  imports Codec
begin

text \<open>Round trips of the encodings of \<open>Codec\<close>.\<close>

section \<open>Base64\<close>

lemma b64_alphabet_ok:
  "length b64_alphabet = 64" "distinct b64_alphabet"
  "CHR ''='' \<notin> set b64_alphabet" "CHR ''+'' \<notin> set b64_alphabet" "CHR ''/'' \<notin> set b64_alphabet"
  by (simp_all add: b64_alphabet_def)

lemma b64_char_value: "n < 64 \<Longrightarrow> b64_value (b64_char n) = Some n" "n < 64 \<Longrightarrow> b64_char n \<noteq> CHR ''=''"
proof -
  assume n: "n < 64"
  then have mem: "b64_alphabet ! n \<in> set b64_alphabet" by (simp add: b64_alphabet_ok)
  have "map_of (zip b64_alphabet [0..<64]) (b64_alphabet ! n) = Some ([0..<64] ! n)"
    using n by (intro map_of_zip_nth) (simp_all add: b64_alphabet_ok)
  then show "b64_value (b64_char n) = Some n" "b64_char n \<noteq> CHR ''=''"
    using n mem b64_alphabet_ok unfolding b64_value_def b64_char_def
    by (metis (no_types, lifting) add_0 diff_zero nth_upt)+
qed

lemma byte_less: "byte c < 256"
  by (simp add: byte_def)

lemma char_of_byte [simp]: "char_of (byte c) = c"
  by (simp add: byte_def)

declare b64_decode_loop.simps [simp del]

text \<open>One character of the alphabet, at each position of a group, and the two paddings.\<close>

lemma b64_decode_char:
  assumes "n < 64"
  shows "b64_decode_loop 0 l p (b64_char n # cs) = b64_decode_loop (Suc 0) n 0 cs"
    "b64_decode_loop (Suc 0) l p (b64_char n # cs) =
       map_sum id (\<lambda>r. char_of (l * 4 + n div 16) # r) (b64_decode_loop (Suc (Suc 0)) (n mod 16) 0 cs)"
    "b64_decode_loop (Suc (Suc 0)) l p (b64_char n # cs) =
       map_sum id (\<lambda>r. char_of (l * 16 + n div 4) # r) (b64_decode_loop 3 (n mod 4) 0 cs)"
    "b64_decode_loop 3 l p (b64_char n # cs) =
       map_sum id (\<lambda>r. char_of (l * 64 + n) # r) (b64_decode_loop 0 0 0 cs)"
  by (subst b64_decode_loop.simps(2), simp add: b64_char_value [OF assms])+

lemma b64_decode_pad:
  "b64_decode_loop (Suc (Suc 0)) l 0 ''=='' = Inr []" "b64_decode_loop 3 l 0 ''='' = Inr []"
  "b64_decode_loop 0 l p [] = Inr []"
  by (simp_all add: b64_decode_loop.simps)

lemma split_low: "k < (n::nat) \<Longrightarrow> (x * n + k) div n = x" "k < (n::nat) \<Longrightarrow> (x * n + k) mod n = k"
  by simp_all

lemma byte_group:
  "byte a div 4 < 64" "byte a mod 4 * 16 + byte b div 16 < 64" "byte a mod 4 * 16 + 0 < 64"
  "byte b mod 16 * 4 + byte c div 64 < 64" "byte b mod 16 * 4 + 0 < 64" "byte c mod 64 < 64"
  "byte b div 16 < 16" "byte c div 64 < 4"
proof -
  have "byte a mod 4 < 4" "byte b mod 16 < 16" by simp_all
  then show "byte a mod 4 * 16 + byte b div 16 < 64" "byte a mod 4 * 16 + 0 < 64"
      "byte b mod 16 * 4 + byte c div 64 < 64" "byte b mod 16 * 4 + 0 < 64"
    using byte_less [of b] byte_less [of c] by linarith+
qed (use byte_less [of a] byte_less [of b] byte_less [of c] in \<open>simp_all add: less_mult_imp_div_less\<close>)

lemmas b64_regroup = b64_decode_char [OF byte_group(1)] b64_decode_char [OF byte_group(2)]
  b64_decode_char [OF byte_group(3), simplified] b64_decode_char [OF byte_group(4)]
  b64_decode_char [OF byte_group(5), simplified] b64_decode_char [OF byte_group(6)]
  split_low [OF byte_group(7)] split_low [OF byte_group(8)] mod_less [OF byte_group(7)]
  mod_less [OF byte_group(8)] b64_decode_pad

lemma b64_roundtrip_loop: "b64_decode_loop 0 l p (b64_encode s) = Inr s"
proof (induction s arbitrary: l p rule: b64_encode.induct)
  case 1
  then show ?case by (simp add: b64_decode_pad)
next
  case (2 a)
  show ?case by (simp add: b64_regroup)
next
  case (3 a b)
  show ?case by (simp add: b64_regroup)
next
  case (4 a b c rest)
  then show ?case by (simp add: b64_regroup)
qed

lemma b64_roundtrip: "b64_decode (b64_encode s) = Inr s"
  by (simp add: b64_decode_def b64_roundtrip_loop)

section \<open>UUIDs\<close>

lemma remove_all_absent: "old \<noteq> [] \<Longrightarrow> hd old \<notin> set s \<Longrightarrow> remove_all old s = s"
  by (induction old s rule: remove_all.induct) (auto simp: neq_Nil_conv)

lemma remove_all_char: "remove_all [x] s = filter (\<lambda>c. c \<noteq> x) s"
  by (induction "[x]" s rule: remove_all.induct) auto

lemma dropWhile_none: "(\<And>c. c \<in> set s \<Longrightarrow> \<not> p c) \<Longrightarrow> dropWhile p s = s"
  by (cases s) auto

lemma strip_chars_absent: "set s \<inter> set cs = {} \<Longrightarrow> strip_chars cs s = s"
  unfolding strip_chars_def by (subst (2) dropWhile_none, blast, subst dropWhile_none, auto)

lemma hex_chars: "\<forall>c \<in> set ''0123456789abcdef''. is_hex c \<and> \<not> is_space c \<and>
    c \<notin> {CHR ''-'', CHR ''+'', CHR ''_'', CHR ''x'', CHR ''X'', CHR ''u'', CHR ''{'', CHR ''}''}"
  by code_simp

lemma hex_digit_value: "\<forall>n \<in> set [0..<16]. hex_value (hex_digit n) = Some n"
  by code_simp

lemma nat_of_hex_append: "nat_of_hex (xs @ [c]) = nat_of_hex xs * 16 + the (hex_value c)"
  by (simp add: nat_of_hex_def del: hex_value.simps)

lemma nat_of_hex_digits: "v < 16 ^ k \<Longrightarrow> nat_of_hex (hex_digits k v) = v"
proof (induction k arbitrary: v)
  case 0
  then show ?case by (simp add: nat_of_hex_def)
next
  case (Suc k)
  have "v div 16 < 16 ^ k" using Suc.prems by (simp add: less_mult_imp_div_less mult.commute)
  moreover have "hex_value (hex_digit (v mod 16)) = Some (v mod 16)" using hex_digit_value by simp
  ultimately show ?case by (simp add: nat_of_hex_append Suc.IH del: hex_value.simps)
qed

lemma drop_hex_underscores_none: "CHR ''_'' \<notin> set s \<Longrightarrow> drop_hex_underscores p s = Some s"
  by (induction s arbitrary: p) auto

lemma int_base16_digits:
  assumes "set s \<subseteq> set ''0123456789abcdef''" and "s \<noteq> []"
  shows "int_base16 s = Some (int (nat_of_hex s))"
proof -
  have chars: "is_hex c" "\<not> is_space c" "c \<noteq> CHR ''-''" "c \<noteq> CHR ''+''" "c \<noteq> CHR ''_''" "c \<noteq> CHR ''x''" "c \<noteq> CHR ''X''"
    if "c \<in> set s" for c
    using hex_chars that assms(1) by (meson insertCI subsetD)+
  have "py_strip s = s"
    unfolding py_strip_def using chars(2) by (subst (2) dropWhile_none, blast, subst dropWhile_none, auto)
  moreover have "split_sign s = (False, s)"
    using assms(2) chars(3,4) [of "hd s"] by (cases s) (auto simp: split_sign_def)
  moreover have "take 2 s \<noteq> ''0x''" "take 2 s \<noteq> ''0X''"
  proof -
    have "set (take 2 s) \<subseteq> set s" by (rule set_take_subset)
    then show "take 2 s \<noteq> ''0x''" "take 2 s \<noteq> ''0X''"
      using chars(6) [of "CHR ''x''"] chars(7) [of "CHR ''X''"] by auto
  qed
  moreover have "drop_hex_underscores False s = Some s" using chars(5) by (intro drop_hex_underscores_none) auto
  ultimately show ?thesis using chars(1) assms(2) by (simp add: int_base16_def list_all_iff)
qed

lemma uuid_str_chars: "set (uuid_str u) \<subseteq> insert (CHR ''-'') (set ''0123456789abcdef'')"
proof
  fix c assume c: "c \<in> set (uuid_str u)"
  show "c \<in> insert (CHR ''-'') (set ''0123456789abcdef'')"
  proof (cases "c = CHR ''-''")
    case False
    with c have "c \<in> set (filter (\<lambda>c. c \<noteq> CHR ''-'') (uuid_str u))" by simp
    then have "c \<in> set (uuid_hex u)" by (simp only: uuid_str_undash)
    then have "c \<in> set ''0123456789abcdef''" unfolding uuid_hex_def by (rule subsetD [OF set_hex_digits])
    then show ?thesis by (rule insertI2)
  qed simp
qed

lemma uuid_roundtrip: "uuid_parse (uuid_str u) = Inr u"
proof -
  have absent: "c \<notin> set (uuid_str u)" if "c \<in> {CHR ''u'', CHR ''{'', CHR ''}''}" for c
    using that uuid_str_chars [of u] by auto
  have "remove_all ''urn:'' (uuid_str u) = uuid_str u" "remove_all ''uuid:'' (uuid_str u) = uuid_str u"
    using absent by (simp_all add: remove_all_absent)
  moreover have "strip_chars ''{}'' (uuid_str u) = uuid_str u" using absent by (intro strip_chars_absent) auto
  moreover have "int_base16 (uuid_hex u) = Some (int (unat u))"
  proof -
    have "unat u < 16 ^ 32" using unsigned_less [where 'a = nat, of u] by simp
    moreover have "hex_digits 32 (unat u) \<noteq> []"
      using length_hex_digits [of 32 "unat u"] by (metis list.size(3) zero_neq_numeral)
    ultimately show ?thesis
      unfolding uuid_hex_def using int_base16_digits [OF set_hex_digits] nat_of_hex_digits by metis
  qed
  moreover have "int (unat u) < 2 ^ 128" using unsigned_less [where 'a = int, of u] by simp
  ultimately show ?thesis
    by (simp add: uuid_parse_def remove_all_char uuid_str_undash)
qed

end
