(* ===== verification/CalendarFacts.thy ===== *)
theory CalendarFacts
  imports Codec
begin

text \<open>
  The calendar: \<^const>\<open>days_of_civil\<close> undoes \<^const>\<open>civil_of_days\<close> for every day number, and the
  date it was computed from is one \<^const>\<open>date_days\<close> accepts.
\<close>

lemma int_div_eq: "a = b * q + r \<Longrightarrow> 0 \<le> r \<Longrightarrow> r < b \<Longrightarrow> a div b = (q::int)"
  by (simp add: div_add1_eq)

text \<open>A day of the 400-year era as centuries, four-year cycles and days.\<close>

lemma era_split:
  assumes "0 \<le> doe" and "doe < (146097::int)"
  obtains c q s where "doe = 36524 * c + 1461 * q + s" "0 \<le> c" "c \<le> 3" "0 \<le> q" "q \<le> 24"
    "0 \<le> s" "s \<le> 1460" "s = 1460 \<Longrightarrow> q = 24 \<Longrightarrow> c = 3"
proof -
  define c where "c = min 3 (doe div 36524)"
  define r where "r = doe - 36524 * c"
  have "0 \<le> doe div 36524" using assms by simp
  then have c: "0 \<le> c" "c \<le> 3" by (simp_all add: c_def)
  have r: "0 \<le> r" "r \<le> 36524" "r = 36524 \<Longrightarrow> c = 3"
  proof (atomize (full), cases "3 \<le> doe div 36524")
    case True
    then have "3 * 36524 \<le> doe" by linarith
    with True assms show "0 \<le> r \<and> r \<le> 36524 \<and> (r = 36524 \<longrightarrow> c = 3)" by (simp add: r_def c_def)
  next
    case False
    then have "r = doe mod 36524" by (simp add: r_def c_def minus_mult_div_eq_mod)
    then show "0 \<le> r \<and> r \<le> 36524 \<and> (r = 36524 \<longrightarrow> c = 3)"
      using pos_mod_bound [of 36524 doe] pos_mod_sign [of 36524 doe] by linarith
  qed
  have q: "0 \<le> r div 1461" "r div 1461 \<le> 24" "0 \<le> r mod 1461" "r mod 1461 \<le> 1460" using r by auto
  have "r = 1461 * (r div 1461) + r mod 1461" by simp
  then have "doe = 36524 * c + 1461 * (r div 1461) + r mod 1461" by (simp add: r_def)
  moreover have "c = 3" if "r mod 1461 = 1460" "r div 1461 = 24"
    using that r(3) \<open>r = 1461 * (r div 1461) + r mod 1461\<close> by simp
  ultimately show thesis using that [of c "r div 1461" "r mod 1461"] c q by blast
qed

definition year_of_era :: "int \<Rightarrow> int" where
  "year_of_era doe = (doe - doe div 1460 + doe div 36524 - doe div 146096) div 365"

definition day_of_year :: "int \<Rightarrow> int" where
  "day_of_year doe = doe - (365 * year_of_era doe + year_of_era doe div 4 - year_of_era doe div 100)"

lemma year_of_era_split:
  assumes doe: "doe = 36524 * c + 1461 * q + s" and c: "0 \<le> c" "c \<le> 3" and q: "0 \<le> q" "q \<le> 24"
    and s: "0 \<le> s" "s \<le> 1460" and last: "s = 1460 \<Longrightarrow> q = 24 \<Longrightarrow> c = (3::int)"
  shows "year_of_era doe = 100 * c + 4 * q + min 3 (s div 365)"
proof -
  define e where "e = (24 * c + q + s) div 1460"
  have e: "e = 0 \<or> e = 1" "e = 1 \<longleftrightarrow> 1460 \<le> 24 * c + q + s" using c q s by (auto simp: e_def)
  define w where "w = (24 * c + q + s) mod 1460"
  have rem: "0 \<le> w" "w < 1460" "24 * c + q + s = 1460 * e + w" by (simp_all add: e_def w_def)
  have cycles: "doe div 1460 = 25 * c + q + e"
    by (rule int_div_eq [where r = w]) (use rem doe in presburger)+
  have centuries: "doe div 36524 - doe div 146096 = c"
  proof (cases "doe = 146096")
    case True
    then have "3 \<le> c" using doe q s by linarith
    then have "c = 3" using c by simp
    with True show ?thesis by simp
  next
    case False
    have small: "0 \<le> 1461 * q + s" "1461 * q + s < 36524"
      using doe False c q s last by (cases "q = 24 \<and> s = 1460"; linarith)+
    have "doe div 36524 = c" by (rule int_div_eq [where r = "1461 * q + s"]) (use doe small in auto)
    moreover have "doe div 146096 = 0" using doe c small False by (intro div_pos_pos_trivial) linarith+
    ultimately show ?thesis by simp
  qed
  have "year_of_era doe = (36500 * c + 1460 * q + (s - e)) div 365"
    using cycles centuries doe by (simp add: year_of_era_def algebra_simps)
  also have "\<dots> = 100 * c + 4 * q + (s - e) div 365"
    using div_mult_self2 [of 365 "s - e" "100 * c + 4 * q"] by (simp add: algebra_simps)
  also have "(s - e) div 365 = min 3 (s div 365)"
  proof (cases "e = 0")
    case True
    then have "s < 1460" using e c q by linarith
    then have "s div 365 \<le> 3" by linarith
    then show ?thesis by (simp add: True min_def)
  next
    case False
    then have "1364 \<le> s" "e = 1" using e c q by linarith+
    then have "(s - 1) div 365 = 3" "3 \<le> s div 365" using s by linarith+
    then show ?thesis by (simp add: \<open>e = 1\<close>)
  qed
  finally show ?thesis .
qed

lemma era_facts:
  assumes "0 \<le> doe" and "doe < 146097"
  shows "0 \<le> year_of_era doe" "year_of_era doe \<le> 399" "0 \<le> day_of_year doe" "day_of_year doe \<le> 365"
    "day_of_year doe = 365 \<Longrightarrow> is_leap (year_of_era doe + 1)"
proof -
  obtain c q s where d: "doe = 36524 * c + 1461 * q + s" "0 \<le> c" "c \<le> 3" "0 \<le> q" "q \<le> 24"
      "0 \<le> s" "s \<le> 1460" "s = 1460 \<Longrightarrow> q = 24 \<Longrightarrow> c = 3"
    using era_split [OF assms] by blast
  define y where "y = min 3 (s div 365)"
  have y: "0 \<le> y" "y \<le> 3" using d(6) by (simp_all add: y_def)
  have yoe: "year_of_era doe = 100 * c + 4 * q + y"
    unfolding y_def by (rule year_of_era_split [OF d])
  have q4: "(100 * c + 4 * q + y) div 4 = 25 * c + q" by (rule int_div_eq [where r = y]) (use y in auto)
  have q100: "(100 * c + 4 * q + y) div 100 = c"
    by (rule int_div_eq [where r = "4 * q + y"]) (use y d in auto)
  have doy: "day_of_year doe = s - 365 * y"
    unfolding day_of_year_def yoe q4 q100 using d(1) by algebra
  have sy: "365 * y \<le> s" "s - 365 * y \<le> 365" "s - 365 * y = 365 \<Longrightarrow> y = 3 \<and> s = 1460"
  proof (atomize (full), cases "3 \<le> s div 365")
    case True
    then have "y = 3" "3 * 365 \<le> s" by (simp add: y_def, linarith)
    then show "365 * y \<le> s \<and> s - 365 * y \<le> 365 \<and> (s - 365 * y = 365 \<longrightarrow> y = 3 \<and> s = 1460)"
      using d(7) by simp
  next
    case False
    then have "s - 365 * y = s mod 365" by (simp add: y_def minus_mult_div_eq_mod)
    then show "365 * y \<le> s \<and> s - 365 * y \<le> 365 \<and> (s - 365 * y = 365 \<longrightarrow> y = 3 \<and> s = 1460)"
      using pos_mod_bound [of 365 s] pos_mod_sign [of 365 s] by linarith
  qed
  show "0 \<le> day_of_year doe" "day_of_year doe \<le> 365" using sy by (simp_all add: doy)
  show "0 \<le> year_of_era doe" "year_of_era doe \<le> 399" using yoe y d by linarith+
  show "is_leap (year_of_era doe + 1)" if "day_of_year doe = 365"
  proof -
    have "y = 3" "s = 1460" using that doy sy(3) by simp_all
    then have "year_of_era doe + 1 = 4 * (25 * c + q + 1)" using yoe by simp
    moreover have "(4 * (25 * c + q + 1)) mod 100 \<noteq> 0 \<or> (4 * (25 * c + q + 1)) mod 400 = 0"
    proof (cases "q = 24")
      case True
      then show ?thesis using d(8) \<open>s = 1460\<close> by simp
    next
      case False
      have "4 * (25 * c + q + 1) = 4 * (q + 1) + c * 100" by simp
      then have "(4 * (25 * c + q + 1)) mod 100 = 4 * (q + 1) mod 100" by (simp only: mod_mult_self1)
      also have "\<dots> = 4 * (q + 1)"
      proof (rule mod_pos_pos_trivial)
        have "q \<le> 23" using False d(5) by simp
        then show "4 * (q + 1) < 100" by simp
        show "0 \<le> 4 * (q + 1)" using d(4) by simp
      qed
      finally have "(4 * (25 * c + q + 1)) mod 100 = 4 * (q + 1)" .
      moreover have "4 * (q + 1) \<noteq> 0" using d(4) by simp
      ultimately show ?thesis by metis
    qed
    moreover have "(4 * (25 * c + q + 1)) mod 4 = 0" by (rule mod_mult_self1_is_0)
    ultimately show ?thesis unfolding is_leap_def by metis
  qed
qed

text \<open>The months of a year that starts on a 1st of March, 29 days in its last month.\<close>

definition month_days :: "int \<Rightarrow> int" where
  "month_days mp = (if mp = 11 then 29 else if mp \<in> {1, 3, 6, 8} then 30 else 31)"

definition month_of_day :: "int \<Rightarrow> int" where
  "month_of_day doy = (5 * doy + 2) div 153"

lemma month_table:
  "list_all (\<lambda>doy. let mp = month_of_day doy; d = doy - (153 * mp + 2) div 5 + 1
     in 0 \<le> mp \<and> mp \<le> 11 \<and> 1 \<le> d \<and> d \<le> month_days mp \<and> (mp = 11 \<and> d = 29 \<longrightarrow> doy = 365)) [0..365]"
  by code_simp

lemma month_facts:
  assumes "0 \<le> doy" and "doy \<le> 365"
  defines "mp \<equiv> month_of_day doy"
  defines "d \<equiv> doy - (153 * mp + 2) div 5 + 1"
  shows "0 \<le> mp" "mp \<le> 11" "1 \<le> d" "d \<le> month_days mp" "mp = 11 \<Longrightarrow> d = 29 \<Longrightarrow> doy = 365"
  using month_table assms(1,2) by (auto simp: list_all_iff Let_def mp_def d_def)

lemma is_leap_era: "is_leap (y + era * 400) = is_leap y"
proof -
  have "y + era * 400 = y + (era * 100) * 4" "y + era * 400 = y + (era * 4) * 100" by simp_all
  then have "(y + era * 400) mod 4 = y mod 4" "(y + era * 400) mod 100 = y mod 100"
    by (metis mod_mult_self1)+
  then show ?thesis by (simp add: is_leap_def)
qed

lemma days_of_era:
  assumes y: "0 \<le> y" "y \<le> (399::int)"
  shows "365 * (y + era * 400) + (y + era * 400) div 4 - (y + era * 400) div 100 + (y + era * 400) div 400 =
    365 * y + y div 4 - y div 100 + era * 146097"
proof -
  have "y + era * 400 = y + (era * 100) * 4" "y + era * 400 = y + (era * 4) * 100" by simp_all
  then have "(y + era * 400) div 4 = y div 4 + era * 100" "(y + era * 400) div 100 = y div 100 + era * 4"
    by (metis div_mult_self1 add.commute zero_neq_numeral)+
  moreover have "(y + era * 400) div 400 = era" using y by simp
  ultimately show ?thesis by simp
qed

lemma civil_of_days_eq:
  "civil_of_days n =
     (let era = (n + 719468) div 146097; doe = (n + 719468) mod 146097;
        doy = day_of_year doe; mp = month_of_day doy; m = (if mp < 10 then mp + 3 else mp - 9)
      in (year_of_era doe + era * 400 + (if m \<le> 2 then 1 else 0), m, doy - (153 * mp + 2) div 5 + 1))"
  unfolding civil_of_days_def day_of_year_def year_of_era_def month_of_day_def Let_def by (rule refl)

lemma civil_roundtrip:
  assumes "civil_of_days n = (y, m, d)"
  shows "days_of_civil y m d = n" "1 \<le> m" "m \<le> 12" "1 \<le> d" "d \<le> days_in_month y m"
proof -
  define era where "era = (n + 719468) div 146097"
  define doe where "doe = (n + 719468) mod 146097"
  define yoe where "yoe = year_of_era doe"
  define doy where "doy = day_of_year doe"
  define mp where "mp = month_of_day doy"
  have doe: "0 \<le> doe" "doe < 146097" "n + 719468 = era * 146097 + doe" by (simp_all add: doe_def era_def)
  note e = era_facts [OF doe(1,2), folded yoe_def doy_def]
  note mf = month_facts [OF e(3,4), folded mp_def]
  have civil: "m = (if mp < 10 then mp + 3 else mp - 9)" "d = doy - (153 * mp + 2) div 5 + 1"
      "y = yoe + era * 400 + (if (if mp < 10 then mp + 3 else mp - 9) \<le> 2 then 1 else 0)"
    using assms [unfolded civil_of_days_eq Let_def, folded era_def doe_def, folded yoe_def doy_def, folded mp_def]
    unfolding prod.inject by (auto simp only:)
  show m: "1 \<le> m" "m \<le> 12" using civil(1) mf(1,2) by (auto split: if_splits)
  show "1 \<le> d" using mf(3) civil(2) by simp
  have y': "(if m \<le> 2 then y - 1 else y) = yoe + era * 400" using civil(3) [folded civil(1)] by simp
  have mp': "(if m > 2 then m - 3 else m + 9) = mp" using civil(1) mf(1,2) by (auto split: if_splits)
  have "doy = doe - (365 * yoe + yoe div 4 - yoe div 100)"
    by (simp add: doy_def yoe_def day_of_year_def)
  then show "days_of_civil y m d = n"
    unfolding days_of_civil_def Let_def y' mp' using days_of_era [OF e(1,2), of era] civil(2) doe(3) by simp
  show "d \<le> days_in_month y m"
  proof (cases "mp = 11")
    case True
    then have "m = 2" "y = yoe + 1 + era * 400" using civil by simp_all
    moreover have "d \<le> 28" if "\<not> is_leap (yoe + 1)"
      using mf(4) mf(5) [OF True] e(5) that civil(2) by (fastforce simp: True month_days_def)
    ultimately show ?thesis
      using mf(4) civil(2) True by (auto simp: days_in_month_def is_leap_era month_days_def)
  next
    case False
    then show ?thesis using mf(1,2,4) civil(1,2) by (auto simp: days_in_month_def month_days_def split: if_splits)
  qed
qed

end
