(* ===== verification/JobRepository.thy ===== *)
theory JobRepository
  imports Models
begin

text \<open>
  \<^verbatim>\<open>app/repositories/job_repository.py\<close>: every statement on the \<^verbatim>\<open>jobs\<close> table,
  one definition per method, in the source's order. A conditional UPDATE is \<^const>\<open>update_jobs\<close>
  with the WHERE clause as predicate and the \<^verbatim>\<open>values\<close> as record update; the boolean the
  method returns is \<^verbatim>\<open>rowcount > 0\<close>. \<^verbatim>\<open>ORDER BY\<close> is a stable sort, so rows
  that tie come out in the physical order of the table, which SQL leaves open.
\<close>

definition CLAIMABLE :: "JobStatus list" where
  "CLAIMABLE = [QUEUED, RETRYING]"

definition FINALIZABLE :: "JobStatus list" where
  "FINALIZABLE = [RUNNING, CANCELLING]"

definition INACTIVE_CANCELLABLE :: "JobStatus list" where
  "INACTIVE_CANCELLABLE = [PENDING, QUEUED, RETRYING]"

definition EXPIRABLE :: "JobStatus list" where
  "EXPIRABLE = [PENDING, QUEUED]"

lemmas status_lists [guard_simps] =
  CLAIMABLE_def FINALIZABLE_def INACTIVE_CANCELLABLE_def EXPIRABLE_def TERMINAL_STATUSES_def

section \<open>Reads\<close>

definition job_add :: "job \<Rightarrow> unit db_txn" where
  "job_add job = insert_job job"

definition job_get :: "uuid \<Rightarrow> job option db_txn" where
  "job_get job_id = txn_gets (\<lambda>s. row_of j_id job_id (jobs s))"

definition scalar_one_or_none :: "'a list \<Rightarrow> exn + 'a option" where
  "scalar_one_or_none rows = (case rows of [] \<Rightarrow> Inr None | [x] \<Rightarrow> Inr (Some x) | _ \<Rightarrow> Inl MultipleResultsFound)"

definition get_for_user :: "uuid \<Rightarrow> string \<Rightarrow> job option db_txn" where
  "get_for_user job_id user_id =
     txn_bind (txn_gets (\<lambda>s. filter (\<lambda>j. j_id j = job_id \<and> j_user_id j = user_id) (jobs s)))
       (\<lambda>rows. txn_lift (scalar_one_or_none rows))"

definition lock_for_user :: "uuid \<Rightarrow> string \<Rightarrow> job option db_txn" where
  "lock_for_user job_id user_id =
     txn_bind (txn_gets (\<lambda>s. filter (\<lambda>j. j_id j = job_id \<and> j_user_id j = user_id) (jobs s)))
       (\<lambda>rows. txn_lift (scalar_one_or_none rows))"

definition get_by_idempotency_key :: "string \<Rightarrow> string \<Rightarrow> job option db_txn" where
  "get_by_idempotency_key user_id idempotency_key =
     txn_bind (txn_gets (\<lambda>s. filter (\<lambda>j. j_user_id j = user_id \<and>
                j_idempotency_key j = Some idempotency_key) (jobs s)))
       (\<lambda>rows. txn_lift (scalar_one_or_none rows))"

record cursor_position =
  c_created_at :: datetime
  c_job_id :: uuid

definition list_for_user ::
  "string \<Rightarrow> JobStatus option \<Rightarrow> JobType option \<Rightarrow> cursor_position option \<Rightarrow> nat \<Rightarrow> job list db_txn" where
  "list_for_user user_id status job_type cursor limit = txn_gets (\<lambda>s.
     let stmt = filter (\<lambda>j. j_user_id j = user_id) (jobs s);
         stmt = (case status of None \<Rightarrow> stmt | Some st \<Rightarrow> filter (\<lambda>j. j_status j = st) stmt);
         stmt = (case job_type of None \<Rightarrow> stmt | Some ty \<Rightarrow> filter (\<lambda>j. j_type j = ty) stmt);
         stmt = (case cursor of None \<Rightarrow> stmt | Some c \<Rightarrow>
                   filter (\<lambda>j. (j_created_at j, j_id j) < (c_created_at c, c_job_id c)) stmt)
     in take limit (rev (sort_key (\<lambda>j. (j_created_at j, j_id j)) stmt)))"

definition status_counts :: "string \<Rightarrow> (string \<times> int) list db_txn" where
  "status_counts user_id = txn_gets (\<lambda>s.
     let rows = filter (\<lambda>j. j_user_id j = user_id) (jobs s);
         count = (\<lambda>st. length (filter (\<lambda>j. j_status j = st) rows))
     in map (\<lambda>st. (JobStatus_value st, int (count st))) (filter (\<lambda>st. count st > 0) all_JobStatus))"

definition count_active_for_user :: "string \<Rightarrow> int db_txn" where
  "count_active_for_user user_id = txn_gets (\<lambda>s.
     int (length (filter (\<lambda>j. j_user_id j = user_id \<and> j_status j \<notin> set TERMINAL_STATUSES) (jobs s))))"

text \<open>The scheduler's scans take row locks and skip the rows others have locked.\<close>

definition find_due_retries :: "session_env \<Rightarrow> datetime \<Rightarrow> nat \<Rightarrow> job list db_txn" where
  "find_due_retries ev now limit = txn_gets (\<lambda>s.
     take limit (filter (\<lambda>j. \<not> row_locked ev (j_id j)) (sort_key j_next_attempt_at
       (filter (\<lambda>j. j_status j = RETRYING \<and> sql_le (j_next_attempt_at j) now) (jobs s)))))"

definition find_expired_leases :: "session_env \<Rightarrow> datetime \<Rightarrow> nat \<Rightarrow> job list db_txn" where
  "find_expired_leases ev now limit = txn_gets (\<lambda>s.
     take limit (filter (\<lambda>j. \<not> row_locked ev (j_id j)) (sort_key j_lock_expires_at
       (filter (\<lambda>j. j_status j = RUNNING \<and> sql_lt (j_lock_expires_at j) now) (jobs s)))))"

definition find_stuck_queued :: "session_env \<Rightarrow> datetime \<Rightarrow> nat \<Rightarrow> job list db_txn" where
  "find_stuck_queued ev cutoff limit = txn_gets (\<lambda>s.
     take limit (filter (\<lambda>j. \<not> row_locked ev (j_id j)) (sort_key j_last_dispatched_at
       (filter (\<lambda>j. j_status j = QUEUED \<and>
          (j_last_dispatched_at j = None \<or> sql_lt (j_last_dispatched_at j) cutoff)) (jobs s)))))"

definition find_expirable :: "session_env \<Rightarrow> datetime \<Rightarrow> nat \<Rightarrow> job list db_txn" where
  "find_expirable ev cutoff limit = txn_gets (\<lambda>s.
     take limit (filter (\<lambda>j. \<not> row_locked ev (j_id j)) (sort_key j_created_at
       (filter (\<lambda>j. j_status j \<in> set EXPIRABLE \<and> j_created_at j < cutoff) (jobs s)))))"

section \<open>Conditional updates\<close>

definition update_job_where :: "(job \<Rightarrow> bool) \<Rightarrow> (job \<Rightarrow> job) \<Rightarrow> bool db_txn" where
  "update_job_where p f = txn_bind (update_jobs p f) (\<lambda>n. txn_return (n > 0))"

definition mark_redispatched :: "uuid \<Rightarrow> datetime \<Rightarrow> unit db_txn" where
  "mark_redispatched job_id now =
     txn_bind (update_jobs (\<lambda>j. j_id j = job_id \<and> j_status j = QUEUED)
       (\<lambda>j. j\<lparr>j_last_dispatched_at := Some now, j_updated_at := now\<rparr>)) (\<lambda>_. txn_return ())"

text \<open>
  \<^verbatim>\<open>UPDATE ... RETURNING attempts\<close>: the attempt number of the claim, or nothing when the
  guard fails.
\<close>

definition claim_for_execution :: "uuid \<Rightarrow> string \<Rightarrow> int \<Rightarrow> datetime \<Rightarrow> int option db_txn" where
  "claim_for_execution job_id worker_id lease_seconds now =
     txn_bind (txn_gets (\<lambda>s. filter (\<lambda>j. j_id j = job_id \<and> j_status j \<in> set CLAIMABLE \<and>
        j_cancellation_requested_at j = None) (jobs s))) (\<lambda>rows.
     txn_bind (update_jobs (\<lambda>j. j_id j = job_id \<and> j_status j \<in> set CLAIMABLE \<and>
        j_cancellation_requested_at j = None)
       (\<lambda>j. j\<lparr>j_status := RUNNING,
              j_attempts := j_attempts j + 1,
              j_locked_by := Some worker_id,
              j_lock_expires_at := Some (now + timedelta_seconds lease_seconds),
              j_heartbeat_at := Some now,
              j_started_at := Some (coalesce (j_started_at j) now),
              j_next_attempt_at := None,
              j_updated_at := now\<rparr>)) (\<lambda>_.
     txn_return (case rows of [] \<Rightarrow> None | j # _ \<Rightarrow> Some (j_attempts j + 1))))"

definition heartbeat :: "uuid \<Rightarrow> string \<Rightarrow> int \<Rightarrow> datetime \<Rightarrow> bool db_txn" where
  "heartbeat job_id worker_id lease_seconds now =
     update_job_where (\<lambda>j. j_id j = job_id \<and> j_locked_by j = Some worker_id \<and> j_status j = RUNNING)
       (\<lambda>j. j\<lparr>j_heartbeat_at := Some now,
              j_lock_expires_at := Some (now + timedelta_seconds lease_seconds),
              j_updated_at := now\<rparr>)"

definition update_progress :: "uuid \<Rightarrow> string \<Rightarrow> int \<Rightarrow> int \<Rightarrow> datetime \<Rightarrow> bool db_txn" where
  "update_progress job_id worker_id progress lease_seconds now =
     update_job_where (\<lambda>j. j_id j = job_id \<and> j_locked_by j = Some worker_id \<and>
        j_status j \<in> set FINALIZABLE)
       (\<lambda>j. j\<lparr>j_progress := progress,
              j_heartbeat_at := Some now,
              j_lock_expires_at := Some (now + timedelta_seconds lease_seconds),
              j_updated_at := now\<rparr>)"

definition mark_succeeded :: "uuid \<Rightarrow> string \<Rightarrow> dict \<Rightarrow> datetime \<Rightarrow> bool db_txn" where
  "mark_succeeded job_id worker_id result now =
     update_job_where (\<lambda>j. j_id j = job_id \<and> j_locked_by j = Some worker_id \<and>
        j_status j \<in> set FINALIZABLE)
       (\<lambda>j. j\<lparr>j_status := SUCCEEDED,
              j_result := Some result,
              j_progress := 100,
              j_completed_at := Some now,
              j_locked_by := None,
              j_lock_expires_at := None,
              j_error_code := None,
              j_error_message := None,
              j_updated_at := now\<rparr>)"

definition job_mark_failed ::
  "uuid \<Rightarrow> string \<Rightarrow> string \<Rightarrow> string \<Rightarrow> datetime \<Rightarrow> bool \<Rightarrow> bool db_txn" where
  "job_mark_failed job_id worker_id error_code error_message now dead_lettered =
     update_job_where (\<lambda>j. j_id j = job_id \<and> j_locked_by j = Some worker_id \<and>
        j_status j \<in> set FINALIZABLE)
       (\<lambda>j. j\<lparr>j_status := FAILED,
              j_error_code := Some error_code,
              j_error_message := Some error_message,
              j_completed_at := Some now,
              j_locked_by := None,
              j_lock_expires_at := None,
              j_dead_lettered_at := (if dead_lettered then Some now else None),
              j_updated_at := now\<rparr>)"

definition job_schedule_retry ::
  "uuid \<Rightarrow> string \<Rightarrow> string \<Rightarrow> string \<Rightarrow> datetime \<Rightarrow> datetime \<Rightarrow> bool db_txn" where
  "job_schedule_retry job_id worker_id error_code error_message next_attempt_at now =
     update_job_where (\<lambda>j. j_id j = job_id \<and> j_locked_by j = Some worker_id \<and> j_status j = RUNNING)
       (\<lambda>j. j\<lparr>j_status := RETRYING,
              j_error_code := Some error_code,
              j_error_message := Some error_message,
              j_next_attempt_at := Some next_attempt_at,
              j_locked_by := None,
              j_lock_expires_at := None,
              j_updated_at := now\<rparr>)"

definition finalize_cancelled_by_worker :: "uuid \<Rightarrow> string \<Rightarrow> datetime \<Rightarrow> bool db_txn" where
  "finalize_cancelled_by_worker job_id worker_id now =
     update_job_where (\<lambda>j. j_id j = job_id \<and> j_locked_by j = Some worker_id \<and>
        j_status j \<in> set FINALIZABLE)
       (\<lambda>j. j\<lparr>j_status := CANCELLED,
              j_completed_at := Some now,
              j_locked_by := None,
              j_lock_expires_at := None,
              j_updated_at := now\<rparr>)"

definition cancel_inactive :: "uuid \<Rightarrow> string option \<Rightarrow> datetime \<Rightarrow> bool db_txn" where
  "cancel_inactive job_id reason now =
     update_job_where (\<lambda>j. j_id j = job_id \<and> j_status j \<in> set INACTIVE_CANCELLABLE)
       (\<lambda>j. j\<lparr>j_status := CANCELLED,
              j_cancellation_requested_at := Some now,
              j_cancel_reason := reason,
              j_completed_at := Some now,
              j_next_attempt_at := None,
              j_updated_at := now\<rparr>)"

definition request_running_cancellation :: "uuid \<Rightarrow> string option \<Rightarrow> datetime \<Rightarrow> bool db_txn" where
  "request_running_cancellation job_id reason now =
     update_job_where (\<lambda>j. j_id j = job_id \<and> j_status j = RUNNING)
       (\<lambda>j. j\<lparr>j_status := CANCELLING,
              j_cancellation_requested_at := Some now,
              j_cancel_reason := reason,
              j_updated_at := now\<rparr>)"

definition mark_queued :: "uuid \<Rightarrow> datetime \<Rightarrow> bool db_txn" where
  "mark_queued job_id now =
     update_job_where (\<lambda>j. j_id j = job_id \<and> j_status j = PENDING)
       (\<lambda>j. j\<lparr>j_status := QUEUED,
              j_queued_at := Some now,
              j_last_dispatched_at := Some now,
              j_updated_at := now\<rparr>)"

definition requeue_expired_lease :: "uuid \<Rightarrow> datetime \<Rightarrow> bool db_txn" where
  "requeue_expired_lease job_id now =
     update_job_where (\<lambda>j. j_id j = job_id \<and> j_status j = RUNNING)
       (\<lambda>j. j\<lparr>j_status := QUEUED,
              j_queued_at := Some now,
              j_last_dispatched_at := Some now,
              j_locked_by := None,
              j_lock_expires_at := None,
              j_updated_at := now\<rparr>)"

definition fail_expired_lease ::
  "uuid \<Rightarrow> string \<Rightarrow> string \<Rightarrow> datetime \<Rightarrow> bool \<Rightarrow> bool db_txn" where
  "fail_expired_lease job_id error_code error_message now dead_lettered =
     update_job_where (\<lambda>j. j_id j = job_id \<and> j_status j = RUNNING)
       (\<lambda>j. j\<lparr>j_status := FAILED,
              j_error_code := Some error_code,
              j_error_message := Some error_message,
              j_completed_at := Some now,
              j_locked_by := None,
              j_lock_expires_at := None,
              j_dead_lettered_at := (if dead_lettered then Some now else None),
              j_updated_at := now\<rparr>)"

definition move_retry_to_queued :: "uuid \<Rightarrow> datetime \<Rightarrow> bool db_txn" where
  "move_retry_to_queued job_id now =
     update_job_where (\<lambda>j. j_id j = job_id \<and> j_status j = RETRYING)
       (\<lambda>j. j\<lparr>j_status := QUEUED,
              j_queued_at := Some now,
              j_last_dispatched_at := Some now,
              j_next_attempt_at := None,
              j_updated_at := now\<rparr>)"

definition job_expire :: "uuid \<Rightarrow> datetime \<Rightarrow> bool db_txn" where
  "job_expire job_id now =
     update_job_where (\<lambda>j. j_id j = job_id \<and> j_status j \<in> set EXPIRABLE)
       (\<lambda>j. j\<lparr>j_status := EXPIRED,
              j_completed_at := Some now,
              j_updated_at := now\<rparr>)"

end
