(* ===== verification/Outboxes.thy ===== *)
theory Outboxes
  imports JobRepository PyText
begin

text \<open>
  The other repositories: \<^verbatim>\<open>job_attempt_repository.py\<close>,
  \<^verbatim>\<open>job_event_repository.py\<close>, \<^verbatim>\<open>dispatch_outbox_repository.py\<close> and
  \<^verbatim>\<open>notification_outbox_repository.py\<close>, and the function
  \<^verbatim>\<open>enqueue_terminal_notification\<close> of \<^verbatim>\<open>notification_service.py\<close>, which every
  service that ends a job calls in the transaction that ends it.

  Rows added with \<^verbatim>\<open>session.add\<close> are inserted at once; SQLAlchemy inserts them at the
  next flush of the same transaction, which makes no difference to what commits.
\<close>

section \<open>Attempts\<close>

definition attempt_start :: "session_env \<Rightarrow> uuid \<Rightarrow> int \<Rightarrow> string \<Rightarrow> datetime \<Rightarrow> uuid db_txn" where
  "attempt_start ev job_id attempt_number worker_id now =
     txn_bind (generate_uuid7 ev) (\<lambda>attempt_id.
     txn_bind (insert_attempt
       \<lparr>a_id = attempt_id, a_job_id = job_id, a_attempt_number = attempt_number,
        a_worker_id = worker_id, a_status = RUNNING, a_started_at = now, a_completed_at = None,
        a_error_code = None, a_error_message = None\<rparr>) (\<lambda>_.
     txn_return attempt_id))"

definition attempt_finish ::
  "uuid \<Rightarrow> JobStatus \<Rightarrow> datetime \<Rightarrow> string option \<Rightarrow> string option \<Rightarrow> unit db_txn" where
  "attempt_finish attempt_id status now error_code error_message =
     update_attempts (\<lambda>a. a_id a = attempt_id)
       (\<lambda>a. a\<lparr>a_status := status, a_completed_at := Some now,
              a_error_code := error_code, a_error_message := error_message\<rparr>)"

section \<open>Events\<close>

definition event_record ::
  "session_env \<Rightarrow> uuid \<Rightarrow> JobEventType \<Rightarrow> JobStatus option \<Rightarrow> JobStatus option \<Rightarrow> dict \<Rightarrow> unit db_txn" where
  "event_record ev job_id event_type from_status to_status detail =
     txn_bind (generate_uuid7 ev) (\<lambda>i.
     insert_event \<lparr>e_id = i, e_job_id = job_id, e_event_type = event_type,
       e_from_status = from_status, e_to_status = to_status, e_detail = detail,
       e_created_at = server_now ev\<rparr>)"

definition event_list_for_job :: "uuid \<Rightarrow> nat \<Rightarrow> job_event list db_txn" where
  "event_list_for_job job_id limit = txn_gets (\<lambda>s.
     take limit (rev (sort_key (\<lambda>e. (e_created_at e, e_id e))
       (filter (\<lambda>e. e_job_id e = job_id) (job_events s)))))"

section \<open>The dispatch outbox\<close>

definition dispatch_add :: "session_env \<Rightarrow> uuid \<Rightarrow> unit db_txn" where
  "dispatch_add ev job_id =
     txn_bind (generate_uuid7 ev) (\<lambda>i.
     insert_dispatch \<lparr>o_id = i, o_job_id = job_id, o_status = O_PENDING, o_attempts = 0,
       o_created_at = server_now ev, o_published_at = None\<rparr>)"

definition claim_pending :: "session_env \<Rightarrow> nat \<Rightarrow> dispatch_outbox_row list db_txn" where
  "claim_pending ev limit = txn_gets (\<lambda>s.
     take limit (filter (\<lambda>r. \<not> row_locked ev (o_id r)) (sort_key o_created_at
       (filter (\<lambda>r. o_status r = O_PENDING) (dispatch_outbox s)))))"

definition mark_published :: "uuid \<Rightarrow> datetime \<Rightarrow> unit db_txn" where
  "mark_published outbox_id now =
     update_dispatch (\<lambda>r. o_id r = outbox_id)
       (\<lambda>r. r\<lparr>o_status := O_PUBLISHED, o_published_at := Some now, o_attempts := o_attempts r + 1\<rparr>)"

definition count_pending :: "int db_txn" where
  "count_pending = txn_gets (\<lambda>s.
     int (length (filter (\<lambda>r. o_status r = O_PENDING) (dispatch_outbox s))))"

section \<open>The notification outbox\<close>

definition notification_enqueue ::
  "session_env \<Rightarrow> uuid \<Rightarrow> string \<Rightarrow> NotificationChannel \<Rightarrow> string \<Rightarrow> string \<Rightarrow> dict \<Rightarrow> string \<Rightarrow>
   datetime \<Rightarrow> bool db_txn" where
  "notification_enqueue ev job_id user_id channel destination event_type payload dedupe_key now =
     txn_bind (generate_uuid7 ev) (\<lambda>i.
     insert_notification_on_conflict
       \<lparr>n_id = i, n_job_id = job_id, n_user_id = user_id, n_channel = channel,
        n_destination = destination, n_event_type = event_type, n_payload = payload,
        n_status = N_PENDING, n_attempts = 0, n_next_attempt_at = now, n_dedupe_key = dedupe_key,
        n_last_error = None, n_created_at = server_now ev, n_sent_at = None\<rparr>)"

definition claim_due :: "session_env \<Rightarrow> datetime \<Rightarrow> nat \<Rightarrow> notification list db_txn" where
  "claim_due ev now limit = txn_gets (\<lambda>s.
     take limit (filter (\<lambda>n. \<not> row_locked ev (n_id n)) (sort_key n_next_attempt_at
       (filter (\<lambda>n. n_status n = N_PENDING \<and> n_next_attempt_at n \<le> now) (notification_outbox s)))))"

definition mark_sent :: "uuid \<Rightarrow> datetime \<Rightarrow> unit db_txn" where
  "mark_sent notification_id now =
     update_notifications (\<lambda>n. n_id n = notification_id)
       (\<lambda>n. n\<lparr>n_status := N_SENT, n_sent_at := Some now, n_attempts := n_attempts n + 1,
              n_last_error := None\<rparr>)"

definition reschedule :: "uuid \<Rightarrow> datetime \<Rightarrow> string \<Rightarrow> unit db_txn" where
  "reschedule notification_id next_attempt_at last_error =
     update_notifications (\<lambda>n. n_id n = notification_id)
       (\<lambda>n. n\<lparr>n_attempts := n_attempts n + 1, n_next_attempt_at := next_attempt_at,
              n_last_error := Some last_error\<rparr>)"

definition notification_mark_failed :: "uuid \<Rightarrow> string \<Rightarrow> unit db_txn" where
  "notification_mark_failed notification_id last_error =
     update_notifications (\<lambda>n. n_id n = notification_id)
       (\<lambda>n. n\<lparr>n_status := N_FAILED, n_attempts := n_attempts n + 1, n_last_error := Some last_error\<rparr>)"

section \<open>The notification that a job has ended\<close>

definition opt_json :: "('a \<Rightarrow> json) \<Rightarrow> 'a option \<Rightarrow> json" where
  "opt_json f x = (case x of None \<Rightarrow> JNull | Some y \<Rightarrow> f y)"

definition notification_target :: "job \<Rightarrow> NotificationChannel \<times> string" where
  "notification_target job = (case map_of (j_payload job) ''notify_webhook'' of
       Some webhook \<Rightarrow> if truthy webhook then (WEBHOOK, py_str webhook) else (LOG, j_user_id job)
     | None \<Rightarrow> (LOG, j_user_id job))"

definition dedupe_key_of :: "uuid \<Rightarrow> JobEventType \<Rightarrow> string" where
  "dedupe_key_of job_id event_type = uuid_str job_id @ '':'' @ JobEventType_value event_type"

definition notification_body ::
  "job \<Rightarrow> JobEventType \<Rightarrow> JobStatus \<Rightarrow> dict option \<Rightarrow> string option \<Rightarrow> string option \<Rightarrow> dict" where
  "notification_body job event_type status result error_code error_message =
     [(''job_id'', JStr (uuid_str (j_id job))),
      (''type'', JStr (JobType_value (j_type job))),
      (''status'', JStr (JobStatus_value status)),
      (''event'', JStr (JobEventType_value event_type)),
      (''result'', opt_json JObj result),
      (''error_code'', opt_json JStr error_code),
      (''error_message'', opt_json JStr error_message)]"

definition enqueue_terminal_notification ::
  "session_env \<Rightarrow> job \<Rightarrow> JobEventType \<Rightarrow> JobStatus \<Rightarrow> dict option \<Rightarrow> string option \<Rightarrow>
   string option \<Rightarrow> datetime \<Rightarrow> unit db_txn" where
  "enqueue_terminal_notification ev job event_type status result error_code error_message now =
     (let (channel, destination) = notification_target job in
      txn_bind (notification_enqueue ev (j_id job) (j_user_id job) channel destination
         (JobEventType_value event_type)
         (notification_body job event_type status result error_code error_message)
         (dedupe_key_of (j_id job) event_type) now) (\<lambda>_. txn_return ()))"

lemma dedupe_key_of_inj:
  "dedupe_key_of a x = uuid_str b @ '':'' @ y \<longleftrightarrow> a = b \<and> JobEventType_value x = y"
  by (simp add: dedupe_key_of_def uuid_str_prefix_inj)

end
