(* ===== verification/Pagination.thy ===== *)
theory Pagination
  imports Codec Outboxes
begin

text \<open>
  \<^verbatim>\<open>app/core/pagination.py\<close>, \<^verbatim>\<open>app/services/job_read_service.py\<close> and the response
  models of \<^verbatim>\<open>app/schemas\<close>: what a client can read. Nothing here changes the store.

  A cursor is the text \<^verbatim>\<open><created_at>|<job_id>\<close> in URL-safe base64. The cursor a client
  sends is arbitrary text, taken here as its UTF-8 bytes. The bytes it decodes to are normally
  ASCII; for those that are not, the answer of the library functions is the parameter
  \<open>wide\<close> (what \<^verbatim>\<open>bytes.decode\<close>, \<^verbatim>\<open>fromisoformat\<close> and \<^verbatim>\<open>UUID\<close> make of them,
  \<open>None\<close> when one of them raises).
\<close>

section \<open>Cursors\<close>

type_synonym wide_text = "string \<Rightarrow> cursor_position option"

definition encode_cursor :: "cursor_position \<Rightarrow> string" where
  "encode_cursor position =
     (let raw = isoformat (c_created_at position) @ ''|'' @ uuid_str (c_job_id position)
      in b64_encode raw)"

definition is_ascii :: "string \<Rightarrow> bool" where
  "is_ascii bytes \<longleftrightarrow> list_all (\<lambda>c. byte c < 128) bytes"

text \<open>\<^verbatim>\<open>raw.split('|', 1)\<close>, unpacked into two variables: an error when there is no bar.\<close>

definition split_bar :: "string \<Rightarrow> (string \<times> string) option" where
  "split_bar raw = (case dropWhile (\<lambda>c. c \<noteq> CHR ''|'') raw of [] \<Rightarrow> None
     | _ # rest \<Rightarrow> Some (takeWhile (\<lambda>c. c \<noteq> CHR ''|'') raw, rest))"

definition decode_cursor :: "wide_text \<Rightarrow> string \<Rightarrow> exn + cursor_position" where
  "decode_cursor wide cursor =
     (let invalid = Inl (InvalidCursorError ''invalid cursor'') in
      case b64_decode cursor of Inl _ \<Rightarrow> invalid
      | Inr raw \<Rightarrow>
        if \<not> is_ascii raw then (case wide raw of None \<Rightarrow> invalid | Some p \<Rightarrow> Inr p)
        else (case split_bar raw of None \<Rightarrow> invalid
          | Some (created_raw, id_raw) \<Rightarrow>
            (case fromisoformat created_raw of Inl _ \<Rightarrow> invalid
             | Inr created_at \<Rightarrow>
               (case uuid_parse id_raw of Inl _ \<Rightarrow> invalid
                | Inr job_id \<Rightarrow> Inr \<lparr>c_created_at = created_at, c_job_id = job_id\<rparr>))))"

section \<open>Response models\<close>

record job_summary =
  js_job_id :: uuid
  js_type :: JobType
  js_status :: JobStatus
  js_priority :: JobPriority
  js_progress :: int
  js_attempts :: int
  js_max_attempts :: int
  js_created_at :: datetime
  js_updated_at :: datetime

record job_read = job_summary +
  jr_payload :: dict
  jr_result :: "dict option"
  jr_error_code :: "string option"
  jr_error_message :: "string option"
  jr_cancellation_requested_at :: "datetime option"
  jr_cancel_reason :: "string option"
  jr_dead_lettered_at :: "datetime option"
  jr_queued_at :: "datetime option"
  jr_started_at :: "datetime option"
  jr_completed_at :: "datetime option"

record job_event_read =
  er_event_type :: string
  er_from_status :: "string option"
  er_to_status :: "string option"
  er_detail :: dict
  er_created_at :: datetime

record job_summary_counts =
  sc_counts :: "(string \<times> int) list"
  sc_total :: int

record 'a paginated_response =
  pg_items :: "'a list"
  pg_next_cursor :: "string option"
  pg_has_more :: bool

text \<open>\<^verbatim>\<open>model_validate\<close> of a row: the fields of the model, read from the row's attributes.\<close>

definition JobSummary_of :: "job \<Rightarrow> job_summary" where
  "JobSummary_of row = \<lparr>js_job_id = j_id row, js_type = j_type row, js_status = j_status row,
     js_priority = j_priority row, js_progress = j_progress row, js_attempts = j_attempts row,
     js_max_attempts = j_max_attempts row, js_created_at = j_created_at row, js_updated_at = j_updated_at row\<rparr>"

definition JobRead_of :: "job \<Rightarrow> job_read" where
  "JobRead_of row = \<lparr>js_job_id = j_id row, js_type = j_type row, js_status = j_status row,
     js_priority = j_priority row, js_progress = j_progress row, js_attempts = j_attempts row,
     js_max_attempts = j_max_attempts row, js_created_at = j_created_at row, js_updated_at = j_updated_at row,
     jr_payload = j_payload row, jr_result = j_result row, jr_error_code = j_error_code row,
     jr_error_message = j_error_message row, jr_cancellation_requested_at = j_cancellation_requested_at row,
     jr_cancel_reason = j_cancel_reason row, jr_dead_lettered_at = j_dead_lettered_at row,
     jr_queued_at = j_queued_at row, jr_started_at = j_started_at row, jr_completed_at = j_completed_at row\<rparr>"

definition JobEvent_of :: "job_event \<Rightarrow> job_event_read" where
  "JobEvent_of row = \<lparr>er_event_type = JobEventType_value (e_event_type row),
     er_from_status = map_option JobStatus_value (e_from_status row),
     er_to_status = map_option JobStatus_value (e_to_status row),
     er_detail = e_detail row, er_created_at = e_created_at row\<rparr>"

section \<open>The read service\<close>

definition read_get :: "uuid \<Rightarrow> string \<Rightarrow> job_read option db_txn" where
  "read_get job_id user_id =
     txn_bind (get_for_user job_id user_id) (\<lambda>job. txn_return (map_option JobRead_of job))"

text \<open>An empty cursor is treated like none at all (\<^verbatim>\<open>if cursor\<close>).\<close>

definition list_jobs ::
  "wide_text \<Rightarrow> string \<Rightarrow> JobStatus option \<Rightarrow> JobType option \<Rightarrow> string option \<Rightarrow> nat \<Rightarrow>
   job_summary paginated_response db_txn" where
  "list_jobs wide user_id status job_type cursor limit =
     txn_bind (txn_lift (case cursor of None \<Rightarrow> Inr None
        | Some c \<Rightarrow> if c = [] then Inr None else map_sum id Some (decode_cursor wide c))) (\<lambda>position.
     txn_bind (list_for_user user_id status job_type position (limit + 1)) (\<lambda>rows.
     (let has_more = length rows > limit;
          page = take limit rows;
          next_cursor = (if has_more \<and> page \<noteq> []
            then Some (encode_cursor \<lparr>c_created_at = j_created_at (last page), c_job_id = j_id (last page)\<rparr>)
            else None);
          items = map JobSummary_of page
      in txn_return \<lparr>pg_items = items, pg_next_cursor = next_cursor, pg_has_more = has_more\<rparr>)))"

definition read_summary :: "string \<Rightarrow> job_summary_counts db_txn" where
  "read_summary user_id =
     txn_bind (status_counts user_id) (\<lambda>counts.
     txn_return \<lparr>sc_counts = counts, sc_total = sum_list (map snd counts)\<rparr>)"

definition read_events :: "uuid \<Rightarrow> string \<Rightarrow> nat \<Rightarrow> job_event_read list option db_txn" where
  "read_events job_id user_id limit =
     txn_bind (get_for_user job_id user_id) (\<lambda>job. case job of
       None \<Rightarrow> txn_return None
     | Some _ \<Rightarrow> txn_bind (event_list_for_job job_id limit) (\<lambda>rows. txn_return (Some (map JobEvent_of rows))))"

end
