(* ===== verification/IsoFacts.thy ===== *)
theory IsoFacts
  imports CalendarFacts
begin

text \<open>
  \<^verbatim>\<open>datetime.fromisoformat\<close> undoes \<^verbatim>\<open>isoformat\<close>: the instant a cursor carries is the
  instant it was made from, to the microsecond.
\<close>

section \<open>Decimal digits\<close>

lemma digit_char_ok: "v < 10 \<Longrightarrow> is_digit (digit_char v) \<and> digit_val (digit_char v) = v"
proof -
  assume "v < 10"
  moreover have "\<forall>v \<in> set [0..<10]. is_digit (digit_char v) \<and> digit_val (digit_char v) = v" by code_simp
  ultimately show ?thesis by simp
qed

lemma length_dec_digits [simp]: "length (dec_digits k v) = k"
  by (induction k arbitrary: v) simp_all

lemma dec_digits_digits: "c \<in> set (dec_digits k v) \<Longrightarrow> is_digit c"
  by (induction k arbitrary: v) (auto simp: digit_char_ok)

lemma nat_of_dec_digits: "nat_of_digits (dec_digits k v) = v mod 10 ^ k"
proof (induction k arbitrary: v)
  case (Suc k)
  have "v mod 10 ^ Suc k = (v div 10 mod 10 ^ k) * 10 + v mod 10"
    by (metis mod_mult2_eq mult.commute power_Suc)
  then show ?case using Suc [of "v div 10"] by (simp add: nat_of_digits_def digit_char_ok)
qed (simp add: nat_of_digits_def)

lemma char_at_append: "p = length xs \<Longrightarrow> char_at (xs @ c # ys) p = c"
  by (simp add: char_at_def)

lemma char_at_map: "p = length xs \<Longrightarrow> n = length ds \<Longrightarrow> map (char_at (xs @ ds @ ys)) [p..<p + n] = ds"
  by (rule nth_equalityI) (simp_all add: char_at_def nth_append)

lemma digits_at_append:
  "p = length xs \<Longrightarrow> v < 10 ^ k \<Longrightarrow> digits_at (xs @ dec_digits k v @ ys) p k = Some (int v)"
  by (simp add: digits_at_def char_at_map nat_of_dec_digits dec_digits_digits list_all_iff)

lemma digits_at_digit: "digits_at s p (Suc k) = Some v \<Longrightarrow> is_digit (char_at s p)"
  by (auto simp: digits_at_def upt_conv_Cons simp del: upt_Suc split: if_splits)


section \<open>The shape of the text\<close>

definition iso_text :: "nat \<Rightarrow> nat \<Rightarrow> nat \<Rightarrow> nat \<Rightarrow> nat \<Rightarrow> nat \<Rightarrow> string \<Rightarrow> string" where
  "iso_text y m d h n x F = dec_digits 4 y @ ''-'' @ dec_digits 2 m @ ''-'' @ dec_digits 2 d @ ''T'' @
     dec_digits 2 h @ '':'' @ dec_digits 2 n @ '':'' @ dec_digits 2 x @ F @ ''+00:00''"

lemma iso_chars:
  "char_at (iso_text y m d h n x F) 4 = CHR ''-''"
  "char_at (iso_text y m d h n x F) 7 = CHR ''-''"
  "char_at (iso_text y m d h n x F) 13 = CHR '':''"
  "char_at (iso_text y m d h n x F) 16 = CHR '':''"
  "char_at (iso_text y m d h n x F) (19 + length F) = CHR ''+''"
  "char_at (iso_text y m d h n x F) (22 + length F) = CHR '':''"
  "char_at (iso_text y m d h n x F) (25 + length F) = nul"
  by (simp_all add: iso_text_def char_at_def nth_append)

lemma iso_digits:
  "y < 10 ^ 4 \<Longrightarrow> digits_at (iso_text y m d h n x F) 0 4 = Some (int y)"
  "m < 10 ^ 2 \<Longrightarrow> digits_at (iso_text y m d h n x F) 5 2 = Some (int m)"
  "d < 10 ^ 2 \<Longrightarrow> digits_at (iso_text y m d h n x F) 8 2 = Some (int d)"
  "h < 10 ^ 2 \<Longrightarrow> digits_at (iso_text y m d h n x F) 11 2 = Some (int h)"
  "n < 10 ^ 2 \<Longrightarrow> digits_at (iso_text y m d h n x F) 14 2 = Some (int n)"
  "x < 10 ^ 2 \<Longrightarrow> digits_at (iso_text y m d h n x F) 17 2 = Some (int x)"
  using digits_at_append [of 0 "[]" y 4] digits_at_append [of 5 "dec_digits 4 y @ ''-''" m 2]
    digits_at_append [of 8 "dec_digits 4 y @ ''-'' @ dec_digits 2 m @ ''-''" d 2]
    digits_at_append [of 11 "dec_digits 4 y @ ''-'' @ dec_digits 2 m @ ''-'' @ dec_digits 2 d @ ''T''" h 2]
    digits_at_append [of 14 "dec_digits 4 y @ ''-'' @ dec_digits 2 m @ ''-'' @ dec_digits 2 d @ ''T'' @
       dec_digits 2 h @ '':''" n 2]
    digits_at_append [of 17 "dec_digits 4 y @ ''-'' @ dec_digits 2 m @ ''-'' @ dec_digits 2 d @ ''T'' @
       dec_digits 2 h @ '':'' @ dec_digits 2 n @ '':''" x 2]
  by (simp_all add: iso_text_def)

lemma iso_offset:
  "digits_at (iso_text y m d h n x F) (20 + length F) 2 = Some 0"
  "digits_at (iso_text y m d h n x F) (23 + length F) 2 = Some 0"
  by (simp_all add: iso_text_def digits_at_def char_at_def nth_append upt_rec nat_of_digits_def is_digit_def digit_val_def)

lemma iso_text_length: "length (iso_text y m d h n x F) = 25 + length F"
  by (simp add: iso_text_def)

lemma iso_date:
  assumes "y < 10 ^ 4" "m < 10 ^ 2" "d < 10 ^ 2"
  shows "find_separator (iso_text y m d h n x F) = Some 10"
    "parse_date (iso_text y m d h n x F) 10 = date_days (int y) (int m) (int d)"
proof -
  let ?s = "iso_text y m d h n x F"
  have "is_digit (char_at ?s 5)"
    by (rule digits_at_digit [where k = 1]) (use iso_digits(2) [OF assms(2)] in \<open>simp add: numeral_2_eq_2\<close>)
  then have W: "char_at ?s 5 \<noteq> CHR ''W''" by (auto simp: is_digit_def)
  show "find_separator ?s = Some 10"
    using W by (simp add: find_separator_def iso_text_length iso_chars)
  show "parse_date ?s 10 = date_days (int y) (int m) (int d)"
    using W iso_digits(1) [OF assms(1)] iso_digits(2) [OF assms(2)] iso_digits(3) [OF assms(3)]
    by (simp add: parse_date_def iso_chars)
qed


definition plain :: "char \<Rightarrow> bool" where
  "plain c \<longleftrightarrow> c \<noteq> CHR ''+'' \<and> c \<noteq> CHR ''-'' \<and> c \<noteq> CHR ''Z''"

lemma plain_fun: "plain = (\<lambda>c. c \<noteq> CHR ''+'' \<and> c \<noteq> CHR ''-'' \<and> c \<noteq> CHR ''Z'')"
  by (rule ext) (simp add: plain_def)

lemma plain_digits: "c \<in> set (dec_digits k v) \<Longrightarrow> plain c"
  using dec_digits_digits [of c k v] by (auto simp: plain_def is_digit_def)

lemma iso_tz:
  assumes "\<forall>c \<in> set F. plain c"
  shows "length (takeWhile plain (drop 11 (iso_text y m d h n x F))) = 8 + length F"
proof -
  define A where "A = dec_digits 2 h @ '':'' @ dec_digits 2 n @ '':'' @ dec_digits 2 x @ F"
  have "drop 11 (iso_text y m d h n x F) = A @ ''+00:00''" by (simp add: iso_text_def A_def)
  moreover have "\<forall>c \<in> set A. plain c" using assms by (auto simp: A_def plain_digits) (simp_all add: plain_def)
  ultimately show ?thesis by (simp add: A_def plain_def takeWhile_append2)
qed

text \<open>The fraction: absent, or six digits.\<close>

definition fraction :: "nat \<Rightarrow> string" where
  "fraction f = (if f = 0 then [] else CHR ''.'' # dec_digits 6 f)"

lemma iso_fraction:
  assumes "0 < f" "f < 10 ^ 6"
  shows "digits_at (iso_text y m d h n x (fraction f)) 20 6 = Some (int f)"
    "char_at (iso_text y m d h n x (fraction f)) 19 = CHR ''.''"
  using assms digits_at_append [of 20 "dec_digits 4 y @ ''-'' @ dec_digits 2 m @ ''-'' @ dec_digits 2 d @ ''T'' @
       dec_digits 2 h @ '':'' @ dec_digits 2 n @ '':'' @ dec_digits 2 x @ ''.''" f 6 "''+00:00''"]
  by (simp_all add: iso_text_def fraction_def char_at_def nth_append)

lemma iso_hms:
  assumes "h < 10 ^ 2" "n < 10 ^ 2" "x < 10 ^ 2" "f < 10 ^ 6"
  shows "\<exists>more. parse_hms 3 True (iso_text y m d h n x (fraction f)) 11 (19 + length (fraction f)) =
    Some ([int h, int n, int x], int f, more)"
proof -
  let ?s = "iso_text y m d h n x (fraction f)"
  note digits = iso_digits(4) [OF assms(1)] iso_digits(5) [OF assms(2)] iso_digits(6) [OF assms(3)]
  have len: "length (fraction f) = (if f = 0 then 0 else 7)" by (simp add: fraction_def)
  have sec: "\<exists>more. parse_hms 1 True ?s 17 (19 + length (fraction f)) = Some ([int x], int f, more)"
  proof (cases "f = 0")
    case True
    then show ?thesis using digits(3) len by (simp add: Let_def)
  next
    case False
    then have "parse_fraction ?s 20 26 = Some (int f, char_at ?s (26 + length (takeWhile is_digit (drop 26 ?s))) \<noteq> nul)"
      using iso_fraction(1) [of f] assms(4) by (simp add: parse_fraction_def Let_def)
    with False show ?thesis using digits(3) iso_fraction(2) [of f] assms(4) len by (simp add: Let_def)
  qed
  then show ?thesis using digits(1,2) by (auto simp: numeral_3_eq_3 numeral_2_eq_2 Let_def iso_chars)
qed


lemma iso_offset_hms:
  "parse_hms 3 True (iso_text y m d h n x F) (20 + length F) (25 + length F) = Some ([0, 0], 0, False)"
  using iso_offset [of y m d h n x F] iso_chars(6,7) [of y m d h n x F]
  by (simp add: numeral_3_eq_3 Let_def ac_simps)

lemma iso_time:
  assumes "h < 24" "n < 60" "x < 60" "f < 10 ^ 6"
  shows "parse_time (iso_text y m d h n x (fraction f)) 11 =
    Some ((int h * 3600 + int n * 60 + int x) * microseconds + int f)"
proof -
  let ?s = "iso_text y m d h n x (fraction f)" and ?F = "length (fraction f)"
  have "\<forall>c \<in> set (fraction f). plain c" by (auto simp: fraction_def plain_digits) (simp add: plain_def)
  from iso_tz [OF this, of y m d h n x] have tz:
    "11 + length (takeWhile (\<lambda>c. c \<noteq> CHR ''+'' \<and> c \<noteq> CHR ''-'' \<and> c \<noteq> CHR ''Z'') (drop 11 ?s)) = 19 + ?F"
    unfolding plain_fun by simp
  from assms iso_hms [of h n x f y m d] obtain more
    where hms: "parse_hms 3 True ?s 11 (19 + ?F) = Some ([int h, int n, int x], int f, more)" by auto
  have off: "parse_hms 3 True ?s (19 + ?F + 1) (25 + ?F) = Some ([0, 0], 0, False)"
    using iso_offset_hms [of y m d h n x "fraction f"] by simp
  show ?thesis
    unfolding parse_time_def Let_def tz hms iso_text_length using off iso_chars(5) [of y m d h n x "fraction f"] assms
    by (simp add: hms_value_def time_of_day_def)
qed

lemma isoformat_text:
  assumes "civil_of_days (t div us_per_day) = (y, m, d)"
  defines "sec \<equiv> t mod us_per_day div microseconds"
  shows "isoformat t = iso_text (nat y) (nat m) (nat d) (nat (sec div 3600)) (nat (sec mod 3600 div 60))
    (nat (sec mod 60)) (fraction (nat (t mod us_per_day mod microseconds)))"
proof -
  have "nat (t mod us_per_day mod microseconds) = 0 \<longleftrightarrow> t mod us_per_day mod microseconds = 0"
    by (metis int_nat_eq nat_0 of_nat_0 pos_mod_sign zero_less_numeral)
  then show ?thesis
    by (simp add: isoformat_def assms(1) iso_text_def sec_def fraction_def Let_def)
qed

lemma clock_split:
  fixes us :: int
  assumes "0 \<le> us" "us < us_per_day"
  defines "sec \<equiv> us div microseconds"
  shows "0 \<le> sec div 3600" "sec div 3600 < 24" "0 \<le> sec mod 3600 div 60" "sec mod 3600 div 60 < 60"
    "(sec div 3600 * 3600 + sec mod 3600 div 60 * 60 + sec mod 60) * microseconds + us mod microseconds = us"
proof -
  have sec: "0 \<le> sec" "sec < 86400" using assms by (simp_all add: us_per_day_def)
  then show "0 \<le> sec div 3600" "sec div 3600 < 24" "0 \<le> sec mod 3600 div 60" "sec mod 3600 div 60 < 60" by auto
  have "sec mod 60 = sec mod 3600 mod 60" by (simp add: mod_mod_cancel)
  then have "sec div 3600 * 3600 + sec mod 3600 div 60 * 60 + sec mod 60 = sec" by simp
  then show "(sec div 3600 * 3600 + sec mod 3600 div 60 * 60 + sec mod 60) * microseconds + us mod microseconds = us"
    by (simp add: sec_def)
qed

text \<open>The years a \<^verbatim>\<open>datetime\<close> can have.\<close>

definition representable :: "datetime \<Rightarrow> bool" where
  "representable t \<longleftrightarrow> (case civil_of_days (t div us_per_day) of (y, m, d) \<Rightarrow> 1 \<le> y \<and> y \<le> 9999)"

lemma fromisoformat_isoformat:
  assumes "representable t"
  shows "fromisoformat (isoformat t) = Inr t"
proof -
  obtain y m d where civil: "civil_of_days (t div us_per_day) = (y, m, d)" by (metis prod_cases3)
  note date = civil_roundtrip [OF civil]
  have y: "1 \<le> y" "y \<le> 9999" using assms civil by (simp_all add: representable_def)
  have "d \<le> 31" using date(5) by (simp add: days_in_month_def split: if_splits)
  define us where "us = t mod us_per_day"
  define sec where "sec = us div microseconds"
  have us: "0 \<le> us" "us < us_per_day" by (simp_all add: us_def us_per_day_def)
  note clock = clock_split [OF us, folded sec_def]
  have frac: "0 \<le> us mod microseconds" "us mod microseconds < 10 ^ 6" by simp_all
  define h n x f where "h = nat (sec div 3600)" and "n = nat (sec mod 3600 div 60)" and "x = nat (sec mod 60)"
    and "f = nat (us mod microseconds)"
  note nats = h_def n_def x_def f_def
  have "0 \<le> sec mod 60" "sec mod 60 < 60" by simp_all
  then have ints: "int h = sec div 3600" "int n = sec mod 3600 div 60" "int x = sec mod 60" "int f = us mod microseconds"
    unfolding nats using clock(1,3) frac(1) by (simp_all only: nat_0_le)
  have "int h < 24" "int n < 60" "int x < 60" "int f < 10 ^ 6"
    unfolding ints by (rule clock(2) clock(4) frac(2) | simp)+
  then have small: "h < 24" "n < 60" "x < 60" "f < 10 ^ 6" by simp_all
  have shape: "isoformat t = iso_text (nat y) (nat m) (nat d) h n x (fraction f)"
    unfolding h_def n_def x_def f_def sec_def us_def by (rule isoformat_text [OF civil])
  have "date_days y m d = Some (t div us_per_day)" using y date by (simp add: date_days_def)
  then have pd: "parse_date (isoformat t) 10 = Some (t div us_per_day)" and sep: "find_separator (isoformat t) = Some 10"
    using iso_date [of "nat y" "nat m" "nat d" h n x "fraction f"] y date \<open>d \<le> 31\<close> by (simp_all add: shape)
  have "parse_time (isoformat t) 11 = Some us"
    using iso_time [OF small] clock(5) by (simp add: shape ints)
  moreover have "10 < length (isoformat t)" by (simp add: shape iso_text_length)
  ultimately show ?thesis using pd sep by (simp add: fromisoformat_def us_def)
qed

end
