(* ===== verification/Execution.thy ===== *)
theory Execution
  imports Outboxes DateTime
begin

text \<open>
  The database side of \<^verbatim>\<open>app/services/job_execution_service.py\<close>: each method that opens a
  transaction, as one transaction. \<open>worker_id\<close> is the identity of the worker process
  (\<^verbatim>\<open>self._worker_id\<close>); \<^verbatim>\<open>now\<close> is the clock reading the method takes.
\<close>

record job_snapshot =
  snap_type :: JobType
  snap_payload :: dict
  snap_max_attempts :: int

definition exec_claim ::
  "session_env \<Rightarrow> settings \<Rightarrow> string \<Rightarrow> uuid \<Rightarrow> datetime \<Rightarrow> (int \<times> uuid \<times> job_snapshot) option db_txn" where
  "exec_claim ev cfg worker_id job_id now =
     txn_bind (job_get job_id) (\<lambda>job. case job of None \<Rightarrow> txn_return None | Some job \<Rightarrow>
     txn_bind (claim_for_execution job_id worker_id (worker_lease_seconds cfg) now) (\<lambda>attempt_number.
     case attempt_number of None \<Rightarrow> txn_return None | Some attempt_number \<Rightarrow>
     txn_bind (attempt_start ev job_id attempt_number worker_id now) (\<lambda>attempt_id.
     txn_bind (event_record ev job_id EV_STARTED None (Some RUNNING)
        [(''attempt'', JInt attempt_number), (''worker_id'', JStr worker_id)]) (\<lambda>_.
     txn_return (Some (attempt_number, attempt_id,
        \<lparr>snap_type = j_type job, snap_payload = j_payload job,
         snap_max_attempts = j_max_attempts job\<rparr>))))))"

definition exec_heartbeat :: "settings \<Rightarrow> string \<Rightarrow> uuid \<Rightarrow> datetime \<Rightarrow> bool db_txn" where
  "exec_heartbeat cfg worker_id job_id now = heartbeat job_id worker_id (worker_lease_seconds cfg) now"

definition cancellation_requested :: "uuid \<Rightarrow> bool db_txn" where
  "cancellation_requested job_id =
     txn_bind (job_get job_id) (\<lambda>job. txn_return
       (case job of None \<Rightarrow> False | Some job \<Rightarrow> j_cancellation_requested_at job \<noteq> None))"

definition report_progress :: "settings \<Rightarrow> string \<Rightarrow> uuid \<Rightarrow> int \<Rightarrow> datetime \<Rightarrow> unit db_txn" where
  "report_progress cfg worker_id job_id progress now =
     txn_bind (update_progress job_id worker_id progress (worker_lease_seconds cfg) now)
       (\<lambda>_. txn_return ())"

definition mark_superseded :: "uuid \<Rightarrow> datetime \<Rightarrow> unit db_txn" where
  "mark_superseded attempt_id now =
     attempt_finish attempt_id FAILED now (Some ''SUPERSEDED'') (Some ''attempt superseded before finalize'')"

text \<open>\<^verbatim>\<open>if job is None or not await jobs.mark_x(...)\<close>: the update runs only for a job
  that exists.\<close>

definition finalize_succeeded ::
  "session_env \<Rightarrow> string \<Rightarrow> uuid \<Rightarrow> uuid \<Rightarrow> dict \<Rightarrow> datetime \<Rightarrow> unit db_txn" where
  "finalize_succeeded ev worker_id job_id attempt_id result now =
     txn_bind (job_get job_id) (\<lambda>job. case job of None \<Rightarrow> mark_superseded attempt_id now | Some job \<Rightarrow>
     txn_bind (mark_succeeded job_id worker_id result now) (\<lambda>won.
     if \<not> won then mark_superseded attempt_id now else
     txn_bind (attempt_finish attempt_id SUCCEEDED now None None) (\<lambda>_.
     txn_bind (event_record ev job_id EV_SUCCEEDED None (Some SUCCEEDED) []) (\<lambda>_.
     enqueue_terminal_notification ev job EV_SUCCEEDED SUCCEEDED (Some result) None None now))))"

definition finalize_failed ::
  "session_env \<Rightarrow> string \<Rightarrow> uuid \<Rightarrow> uuid \<Rightarrow> string \<Rightarrow> string \<Rightarrow> bool \<Rightarrow> datetime \<Rightarrow> bool db_txn" where
  "finalize_failed ev worker_id job_id attempt_id code message dead_lettered now =
     txn_bind (job_get job_id) (\<lambda>job. case job of
       None \<Rightarrow> txn_bind (mark_superseded attempt_id now) (\<lambda>_. txn_return False)
     | Some job \<Rightarrow>
     txn_bind (job_mark_failed job_id worker_id code message now dead_lettered) (\<lambda>won.
     if \<not> won then txn_bind (mark_superseded attempt_id now) (\<lambda>_. txn_return False) else
     txn_bind (attempt_finish attempt_id FAILED now (Some code) (Some message)) (\<lambda>_.
     txn_bind (event_record ev job_id EV_FAILED None (Some FAILED)
        [(''error_code'', JStr code), (''dead_lettered'', JBool dead_lettered)]) (\<lambda>_.
     txn_bind (enqueue_terminal_notification ev job EV_FAILED FAILED None (Some code) (Some message) now)
       (\<lambda>_. txn_return True)))))"

definition exec_schedule_retry ::
  "session_env \<Rightarrow> string \<Rightarrow> uuid \<Rightarrow> uuid \<Rightarrow> string \<Rightarrow> string \<Rightarrow> datetime \<Rightarrow> datetime \<Rightarrow> unit db_txn" where
  "exec_schedule_retry ev worker_id job_id attempt_id code message next_attempt_at now =
     txn_bind (job_schedule_retry job_id worker_id code message next_attempt_at now) (\<lambda>won.
     if \<not> won then mark_superseded attempt_id now else
     txn_bind (attempt_finish attempt_id FAILED now (Some code) (Some message)) (\<lambda>_.
     event_record ev job_id EV_RETRY_SCHEDULED (Some RUNNING) (Some RETRYING)
       [(''error_code'', JStr code), (''next_attempt_at'', JStr (isoformat next_attempt_at))]))"

definition finalize_cancelled :: "session_env \<Rightarrow> string \<Rightarrow> uuid \<Rightarrow> uuid \<Rightarrow> datetime \<Rightarrow> unit db_txn" where
  "finalize_cancelled ev worker_id job_id attempt_id now =
     txn_bind (job_get job_id) (\<lambda>job. case job of None \<Rightarrow> mark_superseded attempt_id now | Some job \<Rightarrow>
     txn_bind (finalize_cancelled_by_worker job_id worker_id now) (\<lambda>won.
     if \<not> won then mark_superseded attempt_id now else
     txn_bind (attempt_finish attempt_id CANCELLED now None None) (\<lambda>_.
     txn_bind (event_record ev job_id EV_CANCELLED None (Some CANCELLED) []) (\<lambda>_.
     enqueue_terminal_notification ev job EV_CANCELLED CANCELLED None None None now))))"

end
