(* ===== verification/Submission.thy ===== *)
theory Submission
  imports Outboxes Catalog
begin

text \<open>
  \<^verbatim>\<open>app/services/job_submission_service.py\<close> and
  \<^verbatim>\<open>app/services/job_cancellation_service.py\<close>, the two services that change state on
  behalf of an API request.

  \<^verbatim>\<open>submit\<close> is not one transaction: it looks the idempotency key up in one, creates the job
  in a second and, when the second fails on the unique index, looks again in a third. Other
  requests can commit in between, so the model takes what they do as a parameter: \<open>between1\<close>
  and \<open>between2\<close> map the store before each gap to the store after it.
\<close>

section \<open>Submission\<close>

record submit_request =
  rq_user_id :: string
  rq_job_type :: JobType
  rq_payload :: dict
  rq_priority :: JobPriority
  rq_max_attempts :: "int option"
  rq_idempotency_key :: "string option"

definition new_job ::
  "uuid \<Rightarrow> string \<Rightarrow> JobType \<Rightarrow> dict \<Rightarrow> JobPriority \<Rightarrow> int \<Rightarrow> string option \<Rightarrow> datetime \<Rightarrow> job" where
  "new_job i user_id job_type payload priority max_attempts idempotency_key now =
     \<lparr>j_id = i, j_user_id = user_id, j_type = job_type, j_status = PENDING, j_priority = priority,
      j_payload = payload, j_result = None, j_error_code = None, j_error_message = None,
      j_progress = 0, j_attempts = 0, j_max_attempts = max_attempts,
      j_idempotency_key = idempotency_key, j_next_attempt_at = None,
      j_cancellation_requested_at = None, j_cancel_reason = None, j_locked_by = None,
      j_lock_expires_at = None, j_heartbeat_at = None, j_last_dispatched_at = None,
      j_dead_lettered_at = None, j_created_at = now, j_queued_at = None, j_started_at = None,
      j_completed_at = None, j_updated_at = now\<rparr>"

definition submit_create ::
  "session_env \<Rightarrow> settings \<Rightarrow> string \<Rightarrow> JobType \<Rightarrow> dict \<Rightarrow> JobPriority \<Rightarrow> int \<Rightarrow> string option \<Rightarrow>
   datetime \<Rightarrow> job db_txn" where
  "submit_create ev cfg user_id job_type payload priority max_attempts idempotency_key now =
     txn_bind (count_active_for_user user_id) (\<lambda>active.
     if active \<ge> max_in_flight_jobs_per_user cfg
     then txn_raise (TooManyActiveJobsError (max_in_flight_jobs_per_user cfg))
     else
     txn_bind (generate_uuid7 ev) (\<lambda>i.
     (let job = new_job i user_id job_type payload priority max_attempts idempotency_key now in
     txn_bind (job_add job) (\<lambda>_.
     txn_bind (event_record ev (j_id job) EV_SUBMITTED None (Some PENDING)
        [(''type'', JStr (JobType_value job_type)), (''priority'', JStr (JobPriority_value priority))]) (\<lambda>_.
     txn_bind (dispatch_add ev (j_id job)) (\<lambda>_.
     txn_return job))))))"

definition find_existing :: "string \<Rightarrow> string \<Rightarrow> job option db_txn" where
  "find_existing user_id idempotency_key = get_by_idempotency_key user_id idempotency_key"

text \<open>What \<^verbatim>\<open>submit\<close> does before it touches the database.\<close>

definition submit_prepare :: "settings \<Rightarrow> submit_request \<Rightarrow> exn + dict \<times> int" where
  "submit_prepare cfg rq =
     (if int (length (json_dumps (JObj (rq_payload rq)))) > job_max_payload_bytes cfg
      then Inl (PayloadTooLargeError ''payload exceeds the maximum allowed size'')
      else case normalize_payload (rq_job_type rq) (rq_payload rq) cfg of
        Inl e \<Rightarrow> Inl e
      | Inr normalized \<Rightarrow> Inr
          ((case map_of (rq_payload rq) ''notify_webhook'' of None \<Rightarrow> normalized
            | Some w \<Rightarrow> dict_set normalized ''notify_webhook'' (JStr (py_str w))),
           (case rq_max_attempts rq of None \<Rightarrow> job_default_max_attempts cfg | Some n \<Rightarrow> n)))"

definition submit ::
  "session_env \<Rightarrow> settings \<Rightarrow> (store \<Rightarrow> store) \<Rightarrow> (store \<Rightarrow> store) \<Rightarrow> submit_request \<Rightarrow> datetime \<Rightarrow>
   store \<Rightarrow> (exn + job) \<times> store" where
  "submit ev cfg between1 between2 rq now s =
     (case submit_prepare cfg rq of Inl e \<Rightarrow> (Inl e, s)
      | Inr (payload, attempts_limit) \<Rightarrow>
        let look = (\<lambda>s. case rq_idempotency_key rq of None \<Rightarrow> Inr (None, s)
                    | Some k \<Rightarrow> find_existing (rq_user_id rq) k s) in
        (case look s of Inl e \<Rightarrow> (Inl e, s)
         | Inr (Some existing, _) \<Rightarrow> (Inr existing, s)
         | Inr (None, _) \<Rightarrow>
           let s1 = between1 s in
           (case submit_create ev cfg (rq_user_id rq) (rq_job_type rq) payload (rq_priority rq)
                   attempts_limit (rq_idempotency_key rq) now s1 of
              Inr (job, s2) \<Rightarrow> (Inr job, s2)
            | Inl e \<Rightarrow> if e \<noteq> IntegrityError then (Inl e, s1) else
                let s3 = between2 s1 in
                (case look s3 of Inl e' \<Rightarrow> (Inl e', s3)
                 | Inr (Some existing, _) \<Rightarrow> (Inr existing, s3)
                 | Inr (None, _) \<Rightarrow> (Inl IntegrityError, s3)))))"

section \<open>Cancellation\<close>

record cancel_outcome =
  found :: bool
  outcome_status :: "JobStatus option"
  conflict :: bool

definition reason_detail :: "string option \<Rightarrow> dict" where
  "reason_detail reason = [(''reason'', opt_json JStr reason)]"

definition cancel :: "session_env \<Rightarrow> uuid \<Rightarrow> string \<Rightarrow> string option \<Rightarrow> datetime \<Rightarrow> cancel_outcome db_txn" where
  "cancel ev job_id user_id reason now =
     txn_bind (lock_for_user job_id user_id) (\<lambda>job. case job of
       None \<Rightarrow> txn_return \<lparr>found = False, outcome_status = None, conflict = False\<rparr>
     | Some job \<Rightarrow>
       let status = j_status job in
       if status \<in> set TERMINAL_STATUSES
       then txn_return \<lparr>found = True, outcome_status = Some status, conflict = True\<rparr>
       else if status = CANCELLING
       then txn_return \<lparr>found = True, outcome_status = Some CANCELLING, conflict = False\<rparr>
       else if status = RUNNING
       then txn_bind (request_running_cancellation job_id reason now) (\<lambda>_.
            txn_bind (event_record ev job_id EV_CANCEL_REQUESTED (Some status) (Some CANCELLING)
               (reason_detail reason)) (\<lambda>_.
            txn_return \<lparr>found = True, outcome_status = Some CANCELLING, conflict = False\<rparr>))
       else txn_bind (cancel_inactive job_id reason now) (\<lambda>_.
            txn_bind (event_record ev job_id EV_CANCELLED (Some status) (Some CANCELLED)
               (reason_detail reason)) (\<lambda>_.
            txn_bind (enqueue_terminal_notification ev job EV_CANCELLED CANCELLED None None None now) (\<lambda>_.
            txn_return \<lparr>found = True, outcome_status = Some CANCELLED, conflict = False\<rparr>))))"

end
