(* ===== verification/Queue.thy ===== *)
theory Queue
  imports Enums PyValues
begin

text \<open>
  \<^verbatim>\<open>app/queue/redis_queue.py\<close>. The Redis client is a parameter: a record of the four
  commands the queue sends, over a server state of any type. A command may raise and still
  have changed the server, so it returns the outcome and the state.

  The locale \<open>redis_lists\<close> states what the queue relies on, in the words of Redis's command
  reference: \<^verbatim>\<open>LPUSH\<close> puts an element at the head of a list, \<^verbatim>\<open>BRPOP\<close> takes one
  from the tail of the first list, in the order the keys are given, that is not empty,
  \<^verbatim>\<open>LLEN\<close> is a list's length. It proves the queue's contract once: first in, first out
  within a priority, and no element of a lower priority while a higher one waits.
\<close>

record 'r redis =
  rc_lpush :: "string \<Rightarrow> string \<Rightarrow> ('r, exn, unit) io"
  rc_brpop :: "string list \<Rightarrow> int \<Rightarrow> ('r, exn, (string \<times> string) option) io"
  rc_llen :: "string \<Rightarrow> ('r, exn, nat) io"
  rc_ping :: "('r, exn, bool) io"

definition PRIORITY_ORDER :: "JobPriority list" where
  "PRIORITY_ORDER = [HIGH, NORMAL, LOW]"

definition queue_key :: "string \<Rightarrow> JobPriority \<Rightarrow> string" where
  "queue_key namespace priority = namespace @ '':queue:'' @ JobPriority_value priority"

definition priority_keys :: "string \<Rightarrow> string list" where
  "priority_keys namespace = map (queue_key namespace) PRIORITY_ORDER"

definition dead_letter_key :: "string \<Rightarrow> string" where
  "dead_letter_key namespace = namespace @ '':dead_letter''"

definition publish :: "'r redis \<Rightarrow> string \<Rightarrow> string \<Rightarrow> JobPriority \<Rightarrow> ('r, exn, unit) io" where
  "publish rc namespace job_id priority = rc_lpush rc (queue_key namespace priority) job_id"

text \<open>
  \<^verbatim>\<open>value.decode()\<close>: a message is bytes, each a character here, and has to be UTF-8. A
  decoded text keeps the bytes that encode it; the ids the program publishes are ASCII.
\<close>

definition utf8_follows :: "nat \<Rightarrow> nat option" where
  "utf8_follows b = (if b < 128 then Some 0 else if 194 \<le> b \<and> b \<le> 223 then Some 1
     else if 224 \<le> b \<and> b \<le> 239 then Some 2 else if 240 \<le> b \<and> b \<le> 244 then Some 3 else None)"

text \<open>The second byte excludes overlong forms, surrogates and code points above 10FFFF.\<close>

definition utf8_second :: "nat \<Rightarrow> nat \<Rightarrow> bool" where
  "utf8_second b c \<longleftrightarrow> (if b = 224 then 160 else if b = 240 then 144 else 128) \<le> c \<and>
     c \<le> (if b = 237 then 159 else if b = 244 then 143 else 191)"

function utf8_ok :: "nat list \<Rightarrow> bool" where
  "utf8_ok [] = True"
| "utf8_ok (b # bs) = (case utf8_follows b of None \<Rightarrow> False
     | Some n \<Rightarrow> n \<le> length bs \<and> (n = 0 \<or> utf8_second b (hd bs)) \<and>
         list_all (\<lambda>c. 128 \<le> c \<and> c \<le> 191) (take n bs) \<and> utf8_ok (drop n bs))"
  by pat_completeness auto

termination
  by (relation "measure length") auto

definition bytes_decode :: "string \<Rightarrow> exn + string" where
  "bytes_decode v = (if utf8_ok (map of_char v) then Inr v
     else Inl (ValueError ''codec cannot decode''))"

lemma bytes_decode_ascii [simp]:
  assumes "list_all (\<lambda>c. of_char c < (128 :: nat)) v"
  shows "bytes_decode v = Inr v"
proof -
  have "utf8_ok (map of_char v)"
    using assms by (induction v) (simp_all add: utf8_follows_def)
  then show ?thesis by (simp add: bytes_decode_def)
qed

definition consume :: "'r redis \<Rightarrow> string \<Rightarrow> int \<Rightarrow> ('r, exn, string option) io" where
  "consume rc namespace timeout_seconds =
     io_bind (rc_brpop rc (priority_keys namespace) timeout_seconds) (\<lambda>result.
       case result of None \<Rightarrow> io_return None | Some (key, v) \<Rightarrow>
         io_bind (io_lift (bytes_decode v)) (\<lambda>job_id. io_return (Some job_id)))"

definition dead_letter :: "'r redis \<Rightarrow> string \<Rightarrow> string \<Rightarrow> ('r, exn, unit) io" where
  "dead_letter rc namespace job_id = rc_lpush rc (dead_letter_key namespace) job_id"

fun depth_loop :: "'r redis \<Rightarrow> string list \<Rightarrow> int \<Rightarrow> ('r, exn, int) io" where
  "depth_loop rc [] acc = io_return acc"
| "depth_loop rc (key # keys) acc =
     io_bind (rc_llen rc key) (\<lambda>n. depth_loop rc keys (acc + int n))"

definition depth :: "'r redis \<Rightarrow> string \<Rightarrow> ('r, exn, int) io" where
  "depth rc namespace = depth_loop rc (priority_keys namespace) 0"

definition dead_letter_depth :: "'r redis \<Rightarrow> string \<Rightarrow> ('r, exn, int) io" where
  "dead_letter_depth rc namespace =
     io_bind (rc_llen rc (dead_letter_key namespace)) (\<lambda>n. io_return (int n))"

definition queue_ping :: "'r redis \<Rightarrow> ('r, exn, bool) io" where
  "queue_ping rc = rc_ping rc"

lemma queue_key_inj: "queue_key ns p = queue_key ns q \<longleftrightarrow> p = q"
  by (simp add: queue_key_def JobPriority_value_inj)

lemma queue_key_dead_letter: "queue_key ns p \<noteq> dead_letter_key ns"
  by (simp add: queue_key_def dead_letter_key_def)

section \<open>The contract\<close>

text \<open>The first key, in order, whose list is not empty.\<close>

definition first_nonempty :: "(string \<Rightarrow> string list) \<Rightarrow> string list \<Rightarrow> string option" where
  "first_nonempty contents keys = find (\<lambda>k. contents k \<noteq> []) keys"

locale redis_lists =
  fixes rc :: "'r redis" and contents :: "'r \<Rightarrow> string \<Rightarrow> string list"
  assumes lpush: "rc_lpush rc key v r = (Inr (), r') \<Longrightarrow> contents r' = (contents r)(key := v # contents r key)"
    and brpop_None: "rc_brpop rc keys timeout r = (Inr None, r') \<Longrightarrow>
          contents r' = contents r \<and> first_nonempty (contents r) keys = None"
    and brpop_Some: "rc_brpop rc keys timeout r = (Inr (Some (key, v)), r') \<Longrightarrow>
          first_nonempty (contents r) keys = Some key \<and> v = last (contents r key) \<and>
          contents r' = (contents r)(key := butlast (contents r key))"
    and llen: "rc_llen rc key r = (Inr n, r') \<Longrightarrow> contents r' = contents r \<and> n = length (contents r key)"
begin

text \<open>What waits in the queue, in the order it will be consumed: by priority, oldest first.\<close>

definition waiting :: "string \<Rightarrow> 'r \<Rightarrow> string list" where
  "waiting ns r = concat (map (\<lambda>p. rev (contents r (queue_key ns p))) PRIORITY_ORDER)"

lemma publish_lists:
  assumes "publish rc ns jid p r = (Inr (), r')"
  shows "contents r' = (contents r)(queue_key ns p := jid # contents r (queue_key ns p))"
  using assms lpush unfolding publish_def by blast

text \<open>A published id is consumed after all ids of its priority or above that waited before, and
  before all ids of a lower priority.\<close>

lemma publish_waiting:
  assumes "publish rc ns jid p r = (Inr (), r')"
  shows "\<exists>ahead behind. waiting ns r = ahead @ behind \<and> waiting ns r' = ahead @ jid # behind \<and>
           behind = concat (map (\<lambda>q. rev (contents r (queue_key ns q)))
                      (tl (dropWhile (\<lambda>q. q \<noteq> p) PRIORITY_ORDER)))"
  unfolding waiting_def
  by (cases p) (simp_all add: publish_lists [OF assms] PRIORITY_ORDER_def queue_key_inj)

lemma consume_waiting:
  assumes "consume rc ns timeout r = (Inr (Some jid), r')"
  shows "waiting ns r = jid # waiting ns r'"
proof -
  from assms obtain key where pop: "rc_brpop rc (priority_keys ns) timeout r = (Inr (Some (key, jid)), r')"
    by (auto simp: consume_def txn_simps bytes_decode_def split: prod.splits sum.splits option.splits if_splits)
  note facts = brpop_Some [OF pop]
  have ne: "xs \<noteq> [] \<Longrightarrow> rev xs = last xs # rev (butlast xs)" for xs :: "string list"
    by (metis append_butlast_last_id rev_eq_Cons_iff rev_rev_ident)
  show ?thesis using facts
    by (auto simp: waiting_def first_nonempty_def priority_keys_def PRIORITY_ORDER_def
        queue_key_inj ne split: if_splits)
qed

lemma consume_empty:
  assumes "consume rc ns timeout r = (Inr None, r')"
  shows "waiting ns r = [] \<and> waiting ns r' = []"
proof -
  from assms have pop: "rc_brpop rc (priority_keys ns) timeout r = (Inr None, r')"
    by (auto simp: consume_def txn_simps bytes_decode_def split: prod.splits sum.splits option.splits if_splits)
  from brpop_None [OF pop] show ?thesis
    by (auto simp: waiting_def first_nonempty_def priority_keys_def PRIORITY_ORDER_def split: if_splits)
qed

lemma depth_waiting:
  assumes "depth rc ns r = (Inr n, r')"
  shows "contents r' = contents r \<and> n = int (length (waiting ns r))"
proof -
  have loop: "contents r' = contents r \<and> n = t + int (sum_list (map (\<lambda>k. length (contents r k)) keys))"
    if "depth_loop rc keys t r = (Inr n, r')" for keys t r
    using that
  proof (induction keys arbitrary: t r)
    case Nil
    then show ?case by (simp add: txn_simps)
  next
    case (Cons k keys)
    from Cons.prems obtain m r1 where len: "rc_llen rc k r = (Inr m, r1)"
      and rest: "depth_loop rc keys (t + int m) r1 = (Inr n, r')"
      by (auto simp: txn_simps split: prod.splits sum.splits)
    show ?case using llen [OF len] Cons.IH [OF rest] by simp
  qed
  show ?thesis using loop [of "priority_keys ns" 0 r] assms
    by (simp add: depth_def waiting_def priority_keys_def PRIORITY_ORDER_def)
qed

text \<open>The dead-letter list is never consumed from.\<close>

lemma dead_letter_waiting:
  assumes "dead_letter rc ns jid r = (Inr (), r')"
  shows "waiting ns r' = waiting ns r \<and>
         contents r' (dead_letter_key ns) = jid # contents r (dead_letter_key ns)"
  using lpush [OF assms [unfolded dead_letter_def]]
  by (simp add: waiting_def PRIORITY_ORDER_def queue_key_dead_letter)

end

section \<open>An in-memory server\<close>

text \<open>
  A server that keeps its lists in a map and never fails: the state of the tests' fake Redis.
  It satisfies the contract, so the contract is consistent.
\<close>

definition mem_brpop :: "string list \<Rightarrow> int \<Rightarrow> (string \<Rightarrow> string list, exn, (string \<times> string) option) io" where
  "mem_brpop keys timeout = (\<lambda>r. case first_nonempty r keys of
       None \<Rightarrow> (Inr None, r)
     | Some k \<Rightarrow> (Inr (Some (k, last (r k))), r(k := butlast (r k))))"

definition mem_redis :: "(string \<Rightarrow> string list) redis" where
  "mem_redis = \<lparr>rc_lpush = (\<lambda>key v r. (Inr (), r(key := v # r key))),
     rc_brpop = mem_brpop, rc_llen = (\<lambda>key r. (Inr (length (r key)), r)),
     rc_ping = io_return True\<rparr>"

interpretation mem: redis_lists mem_redis "\<lambda>r. r"
  by unfold_locales (auto simp: mem_redis_def mem_brpop_def split: option.splits)

end
