(* ===== verification/Scheduler.thy ===== *)
theory Scheduler
  imports Outboxes Backoff Queue DateTime
begin

text \<open>
  The scheduler's services: \<^verbatim>\<open>dispatch_service.py\<close>, \<^verbatim>\<open>retry_service.py\<close>,
  \<^verbatim>\<open>lease_service.py\<close>, \<^verbatim>\<open>expiry_service.py\<close>,
  \<^verbatim>\<open>notification_service.py\<close>, and \<^verbatim>\<open>Scheduler.tick\<close> of
  \<^verbatim>\<open>app/workers/scheduler.py\<close>, which runs them in order.

  A service runs one transaction over a batch of rows, then publishes to Redis what the
  transaction decided. Each batch loop is \<^const>\<open>txn_fold\<close> over the rows the claim returned,
  with a definition for the loop's body. An exception in the transaction leaves the store
  untouched; one while publishing leaves the transaction committed.
\<close>

record ('r) world =
  w_store :: store
  w_redis :: 'r

definition run_txn :: "'a db_txn \<Rightarrow> ('r world, exn, 'a) io" where
  "run_txn m = (\<lambda>w. case m (w_store w) of Inl e \<Rightarrow> (Inl e, w)
     | Inr (x, s) \<Rightarrow> (Inr x, w\<lparr>w_store := s\<rparr>))"

definition run_redis :: "('r, exn, 'a) io \<Rightarrow> ('r world, exn, 'a) io" where
  "run_redis m = (\<lambda>w. case m (w_redis w) of (x, r) \<Rightarrow> (x, w\<lparr>w_redis := r\<rparr>))"

definition publish_all ::
  "'r redis \<Rightarrow> settings \<Rightarrow> (string \<times> JobPriority) list \<Rightarrow> ('r world, exn, unit) io" where
  "publish_all rc cfg messages =
     io_for (\<lambda>(job_id, priority). run_redis (publish rc (redis_queue_namespace cfg) job_id priority)) messages"

section \<open>Dispatch\<close>

definition dispatch_row ::
  "session_env \<Rightarrow> datetime \<Rightarrow> dispatch_outbox_row \<Rightarrow> (string \<times> JobPriority) list \<Rightarrow>
   (string \<times> JobPriority) list db_txn" where
  "dispatch_row ev now row published =
     txn_bind (job_get (o_job_id row)) (\<lambda>job.
     txn_bind (mark_published (o_id row) now) (\<lambda>_.
     case job of None \<Rightarrow> txn_return published
     | Some job \<Rightarrow>
       txn_bind (mark_queued (o_job_id row) now) (\<lambda>_.
       txn_bind (event_record ev (o_job_id row) EV_QUEUED (Some PENDING) (Some QUEUED) []) (\<lambda>_.
       txn_return (published @ [(uuid_str (o_job_id row), j_priority job)])))))"

definition dispatch_txn :: "session_env \<Rightarrow> datetime \<Rightarrow> nat \<Rightarrow> (string \<times> JobPriority) list db_txn" where
  "dispatch_txn ev now batch_size =
     txn_bind (claim_pending ev batch_size) (\<lambda>rows. txn_fold (dispatch_row ev now) rows [])"

definition dispatch_pending ::
  "'r redis \<Rightarrow> settings \<Rightarrow> session_env \<Rightarrow> datetime \<Rightarrow> nat \<Rightarrow> ('r world, exn, nat) io" where
  "dispatch_pending rc cfg ev now batch_size =
     io_bind (run_txn (dispatch_txn ev now batch_size)) (\<lambda>published.
     io_bind (publish_all rc cfg published) (\<lambda>_. io_return (length published)))"

text \<open>\<open>now_at\<close> is the clock reading taken for a row, one per iteration.\<close>

definition redeliver_row ::
  "(uuid \<Rightarrow> datetime) \<Rightarrow> job \<Rightarrow> (string \<times> JobPriority) list \<Rightarrow> (string \<times> JobPriority) list db_txn" where
  "redeliver_row now_at job republished =
     txn_bind (mark_redispatched (j_id job) (now_at (j_id job))) (\<lambda>_.
     txn_return (republished @ [(uuid_str (j_id job), j_priority job)]))"

definition redeliver_txn ::
  "session_env \<Rightarrow> datetime \<Rightarrow> (uuid \<Rightarrow> datetime) \<Rightarrow> nat \<Rightarrow> (string \<times> JobPriority) list db_txn" where
  "redeliver_txn ev cutoff now_at batch_size =
     txn_bind (find_stuck_queued ev cutoff batch_size) (\<lambda>rows. txn_fold (redeliver_row now_at) rows [])"

definition redeliver_stuck ::
  "'r redis \<Rightarrow> settings \<Rightarrow> session_env \<Rightarrow> datetime \<Rightarrow> (uuid \<Rightarrow> datetime) \<Rightarrow> nat \<Rightarrow> ('r world, exn, nat) io" where
  "redeliver_stuck rc cfg ev now now_at batch_size =
     io_bind (run_txn (redeliver_txn ev (now - timedelta_seconds (queue_stuck_seconds cfg)) now_at batch_size))
       (\<lambda>republished.
     io_bind (publish_all rc cfg republished) (\<lambda>_. io_return (length republished)))"

section \<open>Retries\<close>

definition promote_row ::
  "session_env \<Rightarrow> datetime \<Rightarrow> job \<Rightarrow> (string \<times> JobPriority) list \<Rightarrow> (string \<times> JobPriority) list db_txn" where
  "promote_row ev now job promoted =
     txn_bind (move_retry_to_queued (j_id job) now) (\<lambda>moved.
     if moved then
       txn_bind (event_record ev (j_id job) EV_QUEUED (Some RETRYING) (Some QUEUED)
          [(''attempt'', JInt (j_attempts job))]) (\<lambda>_.
       txn_return (promoted @ [(uuid_str (j_id job), j_priority job)]))
     else txn_return promoted)"

definition promote_txn :: "session_env \<Rightarrow> datetime \<Rightarrow> nat \<Rightarrow> (string \<times> JobPriority) list db_txn" where
  "promote_txn ev now batch_size =
     txn_bind (find_due_retries ev now batch_size) (\<lambda>rows. txn_fold (promote_row ev now) rows [])"

definition promote_due ::
  "'r redis \<Rightarrow> settings \<Rightarrow> session_env \<Rightarrow> datetime \<Rightarrow> nat \<Rightarrow> ('r world, exn, nat) io" where
  "promote_due rc cfg ev now batch_size =
     io_bind (run_txn (promote_txn ev now batch_size)) (\<lambda>promoted.
     io_bind (publish_all rc cfg promoted) (\<lambda>_. io_return (length promoted)))"

section \<open>Leases\<close>

definition LEASE_EXPIRED_CODE :: string where
  "LEASE_EXPIRED_CODE = ''LEASE_EXPIRED''"

definition LEASE_EXPIRED_MESSAGE :: string where
  "LEASE_EXPIRED_MESSAGE = ''worker lease expired and retries were exhausted''"

type_synonym reaped = "(string \<times> JobPriority) list \<times> string list"

definition reap_row :: "session_env \<Rightarrow> datetime \<Rightarrow> job \<Rightarrow> reaped \<Rightarrow> reaped db_txn" where
  "reap_row ev now job acc = (case acc of (requeued, dead_lettered) \<Rightarrow>
     if j_attempts job \<ge> j_max_attempts job then
       txn_bind (fail_expired_lease (j_id job) LEASE_EXPIRED_CODE LEASE_EXPIRED_MESSAGE now True) (\<lambda>moved.
       if moved then
         txn_bind (event_record ev (j_id job) EV_FAILED (Some RUNNING) (Some FAILED)
            [(''reason'', JStr ''lease_expired'')]) (\<lambda>_.
         txn_bind (enqueue_terminal_notification ev job EV_FAILED FAILED None (Some LEASE_EXPIRED_CODE)
            (Some LEASE_EXPIRED_MESSAGE) now) (\<lambda>_.
         txn_return (requeued, dead_lettered @ [uuid_str (j_id job)])))
       else txn_return acc)
     else
       txn_bind (requeue_expired_lease (j_id job) now) (\<lambda>moved.
       if moved then
         txn_bind (event_record ev (j_id job) EV_REQUEUED (Some RUNNING) (Some QUEUED)
            [(''reason'', JStr ''lease_expired'')]) (\<lambda>_.
         txn_return (requeued @ [(uuid_str (j_id job), j_priority job)], dead_lettered))
       else txn_return acc))"

definition reap_txn :: "session_env \<Rightarrow> datetime \<Rightarrow> nat \<Rightarrow> reaped db_txn" where
  "reap_txn ev now batch_size =
     txn_bind (find_expired_leases ev now batch_size) (\<lambda>rows. txn_fold (reap_row ev now) rows ([], []))"

definition reap_expired ::
  "'r redis \<Rightarrow> settings \<Rightarrow> session_env \<Rightarrow> datetime \<Rightarrow> nat \<Rightarrow> ('r world, exn, nat) io" where
  "reap_expired rc cfg ev now batch_size =
     io_bind (run_txn (reap_txn ev now batch_size)) (\<lambda>(requeued, dead_lettered).
     io_bind (io_for (\<lambda>job_id. run_redis (dead_letter rc (redis_queue_namespace cfg) job_id)) dead_lettered) (\<lambda>_.
     io_bind (publish_all rc cfg requeued) (\<lambda>_.
     io_return (length requeued + length dead_lettered))))"

section \<open>Expiry\<close>

definition EXPIRED_CODE :: string where
  "EXPIRED_CODE = ''EXPIRED''"

definition EXPIRED_MESSAGE :: string where
  "EXPIRED_MESSAGE = ''job expired before it started running''"

text \<open>
  The attributes of a loaded object, read after an UPDATE in the same session. The expiry loop
  is the only one that reads an attribute its own UPDATE has written.
\<close>

definition orm_view :: "session_env \<Rightarrow> job \<Rightarrow> job db_txn" where
  "orm_view ev job = txn_gets (\<lambda>s. if orm_synchronize ev
     then (case row_of j_id (j_id job) (jobs s) of Some j \<Rightarrow> j | None \<Rightarrow> job) else job)"

definition expire_row :: "session_env \<Rightarrow> datetime \<Rightarrow> job \<Rightarrow> nat \<Rightarrow> nat db_txn" where
  "expire_row ev now job expired =
     txn_bind (job_expire (j_id job) now) (\<lambda>moved.
     if moved then
       txn_bind (orm_view ev job) (\<lambda>job.
       txn_bind (event_record ev (j_id job) EV_EXPIRED (Some (j_status job)) (Some EXPIRED) []) (\<lambda>_.
       txn_bind (enqueue_terminal_notification ev job EV_EXPIRED EXPIRED None (Some EXPIRED_CODE)
          (Some EXPIRED_MESSAGE) now) (\<lambda>_.
       txn_return (expired + 1))))
     else txn_return expired)"

definition expire_txn :: "session_env \<Rightarrow> settings \<Rightarrow> datetime \<Rightarrow> nat \<Rightarrow> nat db_txn" where
  "expire_txn ev cfg now batch_size =
     txn_bind (find_expirable ev (now - timedelta_seconds (job_queue_max_age_seconds cfg)) batch_size)
       (\<lambda>rows. txn_fold (expire_row ev now) rows 0)"

definition expire_stale :: "settings \<Rightarrow> session_env \<Rightarrow> datetime \<Rightarrow> nat \<Rightarrow> ('r world, exn, nat) io" where
  "expire_stale cfg ev now batch_size = run_txn (expire_txn ev cfg now batch_size)"

section \<open>Notification delivery\<close>

text \<open>
  The outside of the delivery service: the HTTP client (the status code of the response to a
  POST, or the exception \<^verbatim>\<open>httpx\<close> raises), the hexadecimal HMAC-SHA256 of a body under
  the signing secret, a payload as the JSONB column gives it back (PostgreSQL chooses the order of
  the keys and the form of the numbers), and the clock and random readings taken for a row.

  A POST is an effect of its own: no rollback takes it back. A batch runs on the store and the list
  of the posts made so far, and an exception undoes its changes of the store only.
\<close>

record post =
  p_url :: string
  p_body :: string
  p_signature :: string
  p_timeout :: int

record delivery_env =
  d_post :: "post \<Rightarrow> exn + int"
  d_hmac :: "string \<Rightarrow> string \<Rightarrow> string"
  d_jsonb :: "dict \<Rightarrow> dict"
  d_now_at :: "uuid \<Rightarrow> datetime"
  d_random :: "uuid \<Rightarrow> pyfloat"

text \<open>\<^verbatim>\<open>raise_for_status\<close> accepts the 2xx codes only.\<close>

definition raise_for_status :: "int \<Rightarrow> exn + unit" where
  "raise_for_status code = (if 200 \<le> code \<and> code < 300 then Inr () else Inl (HTTPError (int_str code)))"

definition client_post :: "delivery_env \<Rightarrow> post \<Rightarrow> (post list, exn, int) io" where
  "client_post de request = (\<lambda>posts. (d_post de request, posts @ [request]))"

definition deliver_webhook :: "delivery_env \<Rightarrow> settings \<Rightarrow> notification \<Rightarrow> (post list, exn, unit) io" where
  "deliver_webhook de cfg n =
     (let body = json_dumps (JObj (d_jsonb de (n_payload n)));
          signature = d_hmac de (notification_signing_secret cfg) body
      in io_bind (client_post de \<lparr>p_url = n_destination n, p_body = body, p_signature = signature,
             p_timeout = notification_webhook_timeout_seconds cfg\<rparr>) (\<lambda>code.
         io_lift (raise_for_status code)))"

definition deliver :: "delivery_env \<Rightarrow> settings \<Rightarrow> notification \<Rightarrow> (post list, exn, unit) io" where
  "deliver de cfg n = (if n_channel n = WEBHOOK then deliver_webhook de cfg n else io_return ())"

definition on_failure :: "delivery_env \<Rightarrow> settings \<Rightarrow> notification \<Rightarrow> string \<Rightarrow> unit db_txn" where
  "on_failure de cfg n message =
     (let attempts = n_attempts n + 1 in
      if attempts \<ge> notification_max_attempts cfg then notification_mark_failed (n_id n) message
      else
      txn_bind (txn_lift (compute_backoff_seconds attempts cfg (d_random de (n_id n)))) (\<lambda>backoff.
      txn_bind (txn_lift (timedelta_float backoff)) (\<lambda>delta.
      txn_bind (txn_lift (datetime_add (d_now_at de (n_id n)) delta)) (\<lambda>due.
      reschedule (n_id n) due message))))"

definition in_session :: "'a db_txn \<Rightarrow> (store \<times> post list, exn, 'a) io" where
  "in_session m = (\<lambda>(s, posts). case m s of Inl e \<Rightarrow> (Inl e, (s, posts))
     | Inr (x, t) \<Rightarrow> (Inr x, (t, posts)))"

text \<open>Only \<^verbatim>\<open>httpx.HTTPError\<close> is caught; any other exception leaves the batch loop.\<close>

definition deliver_attempt ::
  "delivery_env \<Rightarrow> settings \<Rightarrow> notification \<Rightarrow> (store \<times> post list, exn, unit) io" where
  "deliver_attempt de cfg n = (\<lambda>(s, posts). case deliver de cfg n posts of
       (Inl (HTTPError message), posts) \<Rightarrow> in_session (on_failure de cfg n message) (s, posts)
     | (Inl e, posts) \<Rightarrow> (Inl e, (s, posts))
     | (Inr _, posts) \<Rightarrow> in_session (mark_sent (n_id n) (d_now_at de (n_id n))) (s, posts))"

text \<open>The transaction of \<^verbatim>\<open>dispatch_due\<close>, with the posts it has made; it rolls back when an
  exception leaves it. The transaction alone is \<open>deliver_txn\<close>.\<close>

definition deliver_run :: "delivery_env \<Rightarrow> settings \<Rightarrow> session_env \<Rightarrow> datetime \<Rightarrow> nat \<Rightarrow> store \<Rightarrow>
   (exn + nat \<times> store) \<times> post list" where
  "deliver_run de cfg ev now batch_size s =
     (case io_bind (in_session (claim_due ev now batch_size)) (\<lambda>due.
           io_bind (io_for (deliver_attempt de cfg) due) (\<lambda>_. io_return (length due))) (s, []) of
        (Inl e, (t, posts)) \<Rightarrow> (Inl e, posts)
      | (Inr k, (t, posts)) \<Rightarrow> (Inr (k, t), posts))"

definition deliver_txn :: "delivery_env \<Rightarrow> settings \<Rightarrow> session_env \<Rightarrow> datetime \<Rightarrow> nat \<Rightarrow> nat db_txn" where
  "deliver_txn de cfg ev now batch_size = (\<lambda>s. fst (deliver_run de cfg ev now batch_size s))"

definition dispatch_due ::
  "delivery_env \<Rightarrow> settings \<Rightarrow> session_env \<Rightarrow> datetime \<Rightarrow> nat \<Rightarrow> ('r world, exn, nat) io" where
  "dispatch_due de cfg ev now batch_size = run_txn (deliver_txn de cfg ev now batch_size)"

section \<open>The tick\<close>

text \<open>Each of the six services opens its own session (\<open>evs k\<close>) and reads its own clock
  (\<open>nows k\<close>).\<close>

definition tick ::
  "'r redis \<Rightarrow> settings \<Rightarrow> delivery_env \<Rightarrow> (nat \<Rightarrow> session_env) \<Rightarrow> (nat \<Rightarrow> datetime) \<Rightarrow>
   (uuid \<Rightarrow> datetime) \<Rightarrow> ('r world, exn, unit) io" where
  "tick rc cfg de evs nows now_at =
     io_bind (dispatch_pending rc cfg (evs 0) (nows 0) (scheduler_batch_size cfg)) (\<lambda>_.
     io_bind (promote_due rc cfg (evs 1) (nows 1) (scheduler_batch_size cfg)) (\<lambda>_.
     io_bind (reap_expired rc cfg (evs 2) (nows 2) (scheduler_batch_size cfg)) (\<lambda>_.
     io_bind (redeliver_stuck rc cfg (evs 3) (nows 3) now_at (scheduler_batch_size cfg)) (\<lambda>_.
     io_bind (expire_stale cfg (evs 4) (nows 4) (scheduler_batch_size cfg)) (\<lambda>_.
     io_bind (dispatch_due de cfg (evs 5) (nows 5) (scheduler_batch_size cfg)) (\<lambda>_.
     io_return ()))))))"

section \<open>Delivery as a transaction\<close>

text \<open>What relates the stores before and after each update of a row, and composes, relates the stores
  before and after a batch.\<close>

lemma in_session_cases:
  assumes "\<And>u x v. m u = Inr (x, v) \<Longrightarrow> R u v" and "\<And>u. R u u"
  shows "R u (fst (snd (in_session m (u, posts))))"
  using assms by (auto simp: in_session_def split: sum.split)

lemma deliver_attempt_rule:
  assumes "\<And>u. R u u" and "\<And>i now u x v. mark_sent i now u = Inr (x, v) \<Longrightarrow> R u v"
    and "\<And>n m u x v. on_failure de cfg n m u = Inr (x, v) \<Longrightarrow> R u v"
  shows "R u (fst (snd (deliver_attempt de cfg n (u, posts))))"
proof -
  obtain r posts' where d: "deliver de cfg n posts = (r, posts')" by fastforce
  note session = in_session_cases [where R = R, OF _ assms(1)]
  show ?thesis unfolding deliver_attempt_def d prod.case
    by (cases r) (auto simp: assms(1) intro!: session split: exn.split elim!: assms(2,3))
qed

lemma deliver_txn_rule:
  assumes run: "deliver_txn de cfg ev now b s = Inr (k, t)"
    and R: "\<And>u. R u u" "\<And>u v w. R u v \<Longrightarrow> R v w \<Longrightarrow> R u w"
    and steps: "\<And>i now u x v. mark_sent i now u = Inr (x, v) \<Longrightarrow> R u v"
      "\<And>n m u x v. on_failure de cfg n m u = Inr (x, v) \<Longrightarrow> R u v"
  shows "R s t"
proof -
  have loop: "R s (fst (snd (io_for (deliver_attempt de cfg) due (s, []))))" for due
  proof (rule io_for_invariant [where I = "\<lambda>p. R s (fst p)"])
    fix n and p :: "store \<times> post list" assume "R s (fst p)"
    moreover have "R (fst p) (fst (snd (deliver_attempt de cfg n p)))"
      using deliver_attempt_rule [of R de cfg "fst p" n "snd p"] R(1) steps by simp
    ultimately show "R s (fst (snd (deliver_attempt de cfg n p)))" by (rule R(2))
  qed (simp add: R(1))
  from run obtain due r u posts where "io_for (deliver_attempt de cfg) due (s, []) = (r, (u, posts))" and "u = t"
    by (auto simp: deliver_txn_def deliver_run_def in_session_def claim_due_def txn_simps split: prod.splits sum.splits)
  with loop [of due] show ?thesis by simp
qed

lemma preserves_deliver_txn:
  assumes "\<And>i now. preserves P (mark_sent i now)" and "\<And>n m. preserves P (on_failure de cfg n m)"
  shows "preserves P (deliver_txn de cfg ev now b)"
  unfolding preserves_def
proof (intro allI impI)
  fix s k t assume "P s" and "deliver_txn de cfg ev now b s = Inr (k, t)"
  from this(2) have "P s \<longrightarrow> P t"
    by (rule deliver_txn_rule) (use preservesD [OF assms(1)] preservesD [OF assms(2)] in blast)+
  with \<open>P s\<close> show "P t" by simp
qed

end
