(* ===== verification/Lifecycle.thy ===== *)
theory Lifecycle
  imports Execution Submission Scheduler
begin

text \<open>
  What the repositories' guarded updates promise about one job, as an abstract machine, and
  the proof that every transaction of the program implements it.

  A \<open>lifecycle\<close> keeps of a row its status, how often it was claimed, which worker holds it
  and whether a cancellation was asked for. \<open>lifecycle_step\<close> has one rule per kind of
  transition. \<open>evolves\<close> relates a row to what a transaction may make of it: the identity
  columns stay, the lifecycle takes steps of the machine, and a row in a terminal status stays
  as it is in every column. \<open>rows_evolve\<close> lifts it to the table, which only grows.

  The locale \<open>lifecycle_transaction\<close> is the contract a transaction has to meet; its lemmas
  are proved once and hold of every transaction that is an instance, which are all of them.
\<close>

section \<open>The abstract machine\<close>

record lifecycle =
  l_status :: JobStatus
  l_attempts :: int
  l_owner :: "string option"
  l_cancel :: bool

definition lifecycle_of :: "job \<Rightarrow> lifecycle" where
  "lifecycle_of j = \<lparr>l_status = j_status j, l_attempts = j_attempts j, l_owner = j_locked_by j,
     l_cancel = (j_cancellation_requested_at j \<noteq> None)\<rparr>"

inductive lifecycle_step :: "lifecycle \<Rightarrow> lifecycle \<Rightarrow> bool" where
  enqueue: "l_status l = PENDING \<Longrightarrow> lifecycle_step l (l\<lparr>l_status := QUEUED\<rparr>)"
| claim: "l_status l = QUEUED \<or> l_status l = RETRYING \<Longrightarrow> \<not> l_cancel l \<Longrightarrow>
    lifecycle_step l (l\<lparr>l_status := RUNNING, l_attempts := l_attempts l + 1, l_owner := Some w\<rparr>)"
| finish: "l_status l = RUNNING \<or> l_status l = CANCELLING \<Longrightarrow> l_owner l = Some w \<Longrightarrow>
    st = SUCCEEDED \<or> st = FAILED \<or> st = CANCELLED \<Longrightarrow>
    lifecycle_step l (l\<lparr>l_status := st, l_owner := None\<rparr>)"
| retry: "l_status l = RUNNING \<Longrightarrow> l_owner l = Some w \<Longrightarrow>
    lifecycle_step l (l\<lparr>l_status := RETRYING, l_owner := None\<rparr>)"
| promote: "l_status l = RETRYING \<Longrightarrow> lifecycle_step l (l\<lparr>l_status := QUEUED\<rparr>)"
| requeue: "l_status l = RUNNING \<Longrightarrow> lifecycle_step l (l\<lparr>l_status := QUEUED, l_owner := None\<rparr>)"
| lease_lost: "l_status l = RUNNING \<Longrightarrow> lifecycle_step l (l\<lparr>l_status := FAILED, l_owner := None\<rparr>)"
| cancel_idle: "l_status l = PENDING \<or> l_status l = QUEUED \<or> l_status l = RETRYING \<Longrightarrow>
    lifecycle_step l (l\<lparr>l_status := CANCELLED, l_cancel := True\<rparr>)"
| request_cancel: "l_status l = RUNNING \<Longrightarrow>
    lifecycle_step l (l\<lparr>l_status := CANCELLING, l_cancel := True\<rparr>)"
| expire: "l_status l = PENDING \<or> l_status l = QUEUED \<Longrightarrow> lifecycle_step l (l\<lparr>l_status := EXPIRED\<rparr>)"

inductive_cases lifecycle_stepE: "lifecycle_step l l'"

text \<open>
  The machine's edges are those of \<^const>\<open>VALID_TRANSITIONS\<close> and two more: a claim may take a
  job straight out of its backoff, and the worker's cancellation update accepts a running job.
\<close>

lemma lifecycle_step_edges:
  "lifecycle_step l l' \<Longrightarrow> can_transition (l_status l) (l_status l') \<or>
     l_status l = RETRYING \<and> l_status l' = RUNNING \<or>
     l_status l = RUNNING \<and> l_status l' = CANCELLED"
  by (erule lifecycle_stepE) (auto simp: can_transition_def)

lemma lifecycle_step_not_terminal: "lifecycle_step l l' \<Longrightarrow> \<not> is_terminal (l_status l)"
  by (erule lifecycle_stepE) auto

lemma lifecycle_step_attempts:
  "lifecycle_step l l' \<Longrightarrow> l_attempts l' = l_attempts l + (if l_status l' = RUNNING then 1 else 0)"
  by (erule lifecycle_stepE) auto

lemma lifecycle_step_cancel: "lifecycle_step l l' \<Longrightarrow> l_cancel l \<Longrightarrow> l_cancel l'"
  by (erule lifecycle_stepE) auto

lemma lifecycle_steps_attempts: "lifecycle_step\<^sup>*\<^sup>* l l' \<Longrightarrow> l_attempts l \<le> l_attempts l'"
  by (induction rule: rtranclp_induct) (auto dest: lifecycle_step_attempts)

lemma lifecycle_steps_cancel: "lifecycle_step\<^sup>*\<^sup>* l l' \<Longrightarrow> l_cancel l \<Longrightarrow> l_cancel l'"
  by (induction rule: rtranclp_induct) (auto dest: lifecycle_step_cancel)

section \<open>Rows and tables\<close>

definition same_identity :: "job \<Rightarrow> job \<Rightarrow> bool" where
  "same_identity a b \<longleftrightarrow> j_id a = j_id b \<and> j_user_id a = j_user_id b \<and> j_type a = j_type b \<and>
     j_priority a = j_priority b \<and> j_payload a = j_payload b \<and>
     j_max_attempts a = j_max_attempts b \<and> j_idempotency_key a = j_idempotency_key b \<and>
     j_created_at a = j_created_at b"

definition evolves :: "job \<Rightarrow> job \<Rightarrow> bool" where
  "evolves a b \<longleftrightarrow> same_identity a b \<and> lifecycle_step\<^sup>*\<^sup>* (lifecycle_of a) (lifecycle_of b) \<and>
     (is_terminal (j_status a) \<longrightarrow> b = a)"

definition rows_evolve :: "store \<Rightarrow> store \<Rightarrow> bool" where
  "rows_evolve s t \<longleftrightarrow> (\<exists>old new. jobs t = old @ new \<and> list_all2 evolves (jobs s) old)"

lemma evolves_refl [simp]: "evolves a a"
  by (simp add: evolves_def same_identity_def)

lemma evolves_trans: "evolves a b \<Longrightarrow> evolves b c \<Longrightarrow> evolves a c"
  unfolding evolves_def same_identity_def by (auto intro: rtranclp_trans)

lemma rows_evolve_append: "jobs t = jobs s @ new \<Longrightarrow> rows_evolve s t"
  unfolding rows_evolve_def by (intro exI [of _ "jobs s"] exI [of _ new]) (simp add: list_all2_refl)

lemma rows_evolve_same_jobs: "jobs t = jobs s \<Longrightarrow> rows_evolve s t"
  by (rule rows_evolve_append [of _ _ "[]"]) simp

lemma rows_evolve_refl [simp]: "rows_evolve s s"
  by (simp add: rows_evolve_same_jobs)

lemma rows_evolve_trans:
  assumes "rows_evolve s t" and "rows_evolve t u"
  shows "rows_evolve s u"
proof -
  from assms obtain a a' b b' where t: "jobs t = a @ a'" "list_all2 evolves (jobs s) a"
    and u: "jobs u = b @ b'" "list_all2 evolves (jobs t) b"
    unfolding rows_evolve_def by blast
  from t(1) u(2) obtain b1 b2 where b: "b = b1 @ b2" "list_all2 evolves a b1"
    by (auto simp: list_all2_append1)
  from t(2) b(2) have "list_all2 evolves (jobs s) b1"
    by (rule list_all2_trans [rotated 1]) (rule evolves_trans)
  with u(1) b(1) show ?thesis unfolding rows_evolve_def by auto
qed

lemma rows_evolve_row:
  assumes "rows_evolve s t" and "j \<in> set (jobs s)"
  shows "\<exists>j' \<in> set (jobs t). evolves j j'"
  using assms unfolding rows_evolve_def
  by (metis Un_iff in_set_conv_nth list_all2_conv_all_nth set_append)

section \<open>The contract of a transaction\<close>

locale lifecycle_transaction =
  fixes m :: "'a db_txn"
  assumes evolution: "m s = Inr (x, t) \<Longrightarrow> rows_evolve s t"
begin

lemma row_survives:
  assumes "m s = Inr (x, t)" and "j \<in> set (jobs s)"
  shows "\<exists>j' \<in> set (jobs t). evolves j j'"
  using evolution [OF assms(1)] assms(2) by (rule rows_evolve_row)

lemma terminal_frozen:
  assumes "m s = Inr (x, t)" and "j \<in> set (jobs s)" and "is_terminal (j_status j)"
  shows "j \<in> set (jobs t)"
  using row_survives [OF assms(1,2)] assms(3) by (auto simp: evolves_def)

lemma attempts_monotone:
  assumes "m s = Inr (x, t)" and "j \<in> set (jobs s)"
  shows "\<exists>j' \<in> set (jobs t). j_id j' = j_id j \<and> j_attempts j \<le> j_attempts j'"
  using row_survives [OF assms]
  by (auto simp: evolves_def same_identity_def lifecycle_of_def dest!: lifecycle_steps_attempts)

end

text \<open>The contract is closed under the combinators transactions are built with.\<close>

definition keeps_lifecycle :: "'a db_txn \<Rightarrow> bool" where
  "keeps_lifecycle m \<longleftrightarrow> (\<forall>s x t. m s = Inr (x, t) \<longrightarrow> rows_evolve s t)"

named_theorems lifecycle_intros "transactions that keep the lifecycle"

lemma keeps_return [lifecycle_intros]: "keeps_lifecycle (txn_return x)"
  by (simp add: keeps_lifecycle_def txn_simps)

lemma keeps_raise [lifecycle_intros]: "keeps_lifecycle (txn_raise e)"
  by (simp add: keeps_lifecycle_def txn_simps)

lemma keeps_gets [lifecycle_intros]: "keeps_lifecycle (txn_gets f)"
  by (simp add: keeps_lifecycle_def txn_simps)

lemma keeps_lift [lifecycle_intros]: "keeps_lifecycle (txn_lift r)"
  by (simp add: keeps_lifecycle_def txn_simps)

lemma keeps_bind [lifecycle_intros]:
  "keeps_lifecycle m \<Longrightarrow> (\<And>x. keeps_lifecycle (f x)) \<Longrightarrow> keeps_lifecycle (txn_bind m f)"
  unfolding keeps_lifecycle_def by (simp add: txn_simps) (blast intro: rows_evolve_trans)

lemma keeps_if [lifecycle_intros]:
  "keeps_lifecycle a \<Longrightarrow> keeps_lifecycle b \<Longrightarrow> keeps_lifecycle (if c then a else b)"
  by simp

lemma keeps_case_option [lifecycle_intros]:
  "keeps_lifecycle a \<Longrightarrow> (\<And>x. keeps_lifecycle (f x)) \<Longrightarrow>
     keeps_lifecycle (case c of None \<Rightarrow> a | Some x \<Rightarrow> f x)"
  by (cases c) simp_all

lemma keeps_case_prod [lifecycle_intros]:
  "(\<And>x y. keeps_lifecycle (f x y)) \<Longrightarrow> keeps_lifecycle (case p of (x, y) \<Rightarrow> f x y)"
  by (cases p) simp

lemma keeps_fold [lifecycle_intros]:
  "(\<And>x acc. keeps_lifecycle (f x acc)) \<Longrightarrow> keeps_lifecycle (txn_fold f xs acc)"
  by (induction xs arbitrary: acc) (auto intro: lifecycle_intros)

lemma keeps_update_jobs:
  assumes "\<And>j. p j \<Longrightarrow> \<not> is_terminal (j_status j) \<and> same_identity j (f j) \<and>
      lifecycle_step\<^sup>*\<^sup>* (lifecycle_of j) (lifecycle_of (f j))"
  shows "keeps_lifecycle (update_jobs p f)"
proof -
  have "list_all2 evolves xs (upd_where p f xs)" for xs
    using assms by (induction xs) (auto simp: evolves_def same_identity_def)
  then show ?thesis
    unfolding keeps_lifecycle_def rows_evolve_def by (auto simp: txn_simps intro: exI [of _ "[]"])
qed

lemma keeps_update_job_where:
  assumes "\<And>j. p j \<Longrightarrow> \<not> is_terminal (j_status j) \<and> same_identity j (f j) \<and>
      lifecycle_step\<^sup>*\<^sup>* (lifecycle_of j) (lifecycle_of (f j))"
  shows "keeps_lifecycle (update_job_where p f)"
  unfolding update_job_where_def by (intro lifecycle_intros keeps_update_jobs assms)

lemma keeps_other_tables [lifecycle_intros]:
  "keeps_lifecycle (generate_uuid7 ev)" "keeps_lifecycle (insert_attempt a)"
  "keeps_lifecycle (insert_event e)" "keeps_lifecycle (insert_dispatch d)"
  "keeps_lifecycle (insert_notification_on_conflict n)" "keeps_lifecycle (update_attempts pa fa)"
  "keeps_lifecycle (update_dispatch pd fd)" "keeps_lifecycle (update_notifications pn fn)"
  by (auto simp: keeps_lifecycle_def txn_simps rows_evolve_same_jobs split: if_splits)

lemma keeps_insert_job [lifecycle_intros]: "keeps_lifecycle (insert_job j)"
  by (auto simp: keeps_lifecycle_def txn_simps intro: rows_evolve_append)

section \<open>The repository refines the machine\<close>

lemmas row_of_update = lifecycle_of_def same_identity_def

lemma step_imp_steps: "lifecycle_step l l' \<Longrightarrow> lifecycle_step\<^sup>*\<^sup>* l l'"
  by blast

lemma keeps_heartbeat [lifecycle_intros]: "keeps_lifecycle (heartbeat jid w lease now)"
  unfolding heartbeat_def by (rule keeps_update_job_where) (auto simp: row_of_update)

lemma keeps_update_progress [lifecycle_intros]: "keeps_lifecycle (update_progress jid w p lease now)"
  unfolding update_progress_def
  by (rule keeps_update_job_where) (auto simp: row_of_update guard_simps)

lemma keeps_mark_redispatched [lifecycle_intros]: "keeps_lifecycle (mark_redispatched jid now)"
  unfolding mark_redispatched_def
  by (intro lifecycle_intros keeps_update_jobs) (auto simp: row_of_update)

lemma lifecycle_step_record:
  assumes "lifecycle_step l m" and "m = l'"
  shows "lifecycle_step\<^sup>*\<^sup>* l l'"
  using assms by blast

lemma keeps_claim [lifecycle_intros]: "keeps_lifecycle (claim_for_execution jid w lease now)"
  unfolding claim_for_execution_def
  by (intro lifecycle_intros keeps_update_jobs)
     (auto simp: row_of_update guard_simps intro!: lifecycle_step_record [OF lifecycle_step.claim [where w = w]])

lemma keeps_mark_succeeded [lifecycle_intros]: "keeps_lifecycle (mark_succeeded jid w res now)"
  unfolding mark_succeeded_def
  by (rule keeps_update_job_where)
     (auto simp: row_of_update guard_simps
        intro!: lifecycle_step_record [OF lifecycle_step.finish [where w = w and st = SUCCEEDED]])

lemma keeps_mark_failed [lifecycle_intros]: "keeps_lifecycle (job_mark_failed jid w c msg now dl)"
  unfolding job_mark_failed_def
  by (rule keeps_update_job_where)
     (auto simp: row_of_update guard_simps
        intro!: lifecycle_step_record [OF lifecycle_step.finish [where w = w and st = FAILED]])

lemma keeps_finalize_cancelled [lifecycle_intros]:
  "keeps_lifecycle (finalize_cancelled_by_worker jid w now)"
  unfolding finalize_cancelled_by_worker_def
  by (rule keeps_update_job_where)
     (auto simp: row_of_update guard_simps
        intro!: lifecycle_step_record [OF lifecycle_step.finish [where w = w and st = CANCELLED]])

lemma keeps_schedule_retry [lifecycle_intros]:
  "keeps_lifecycle (job_schedule_retry jid w c msg due now)"
  unfolding job_schedule_retry_def
  by (rule keeps_update_job_where)
     (auto simp: row_of_update intro!: lifecycle_step_record [OF lifecycle_step.retry [where w = w]])

lemma keeps_cancel_inactive [lifecycle_intros]: "keeps_lifecycle (cancel_inactive jid reason now)"
  unfolding cancel_inactive_def
  by (rule keeps_update_job_where)
     (auto simp: row_of_update guard_simps intro!: lifecycle_step_record [OF lifecycle_step.cancel_idle])

lemma keeps_request_cancellation [lifecycle_intros]:
  "keeps_lifecycle (request_running_cancellation jid reason now)"
  unfolding request_running_cancellation_def
  by (rule keeps_update_job_where)
     (auto simp: row_of_update intro!: lifecycle_step_record [OF lifecycle_step.request_cancel])

lemma keeps_mark_queued [lifecycle_intros]: "keeps_lifecycle (mark_queued jid now)"
  unfolding mark_queued_def
  by (rule keeps_update_job_where)
     (auto simp: row_of_update intro!: lifecycle_step_record [OF lifecycle_step.enqueue])

lemma keeps_requeue [lifecycle_intros]: "keeps_lifecycle (requeue_expired_lease jid now)"
  unfolding requeue_expired_lease_def
  by (rule keeps_update_job_where)
     (auto simp: row_of_update intro!: lifecycle_step_record [OF lifecycle_step.requeue])

lemma keeps_fail_expired_lease [lifecycle_intros]:
  "keeps_lifecycle (fail_expired_lease jid c msg now dl)"
  unfolding fail_expired_lease_def
  by (rule keeps_update_job_where)
     (auto simp: row_of_update intro!: lifecycle_step_record [OF lifecycle_step.lease_lost])

lemma keeps_move_retry [lifecycle_intros]: "keeps_lifecycle (move_retry_to_queued jid now)"
  unfolding move_retry_to_queued_def
  by (rule keeps_update_job_where)
     (auto simp: row_of_update intro!: lifecycle_step_record [OF lifecycle_step.promote])

lemma keeps_expire [lifecycle_intros]: "keeps_lifecycle (job_expire jid now)"
  unfolding job_expire_def
  by (rule keeps_update_job_where)
     (auto simp: row_of_update guard_simps intro!: lifecycle_step_record [OF lifecycle_step.expire])

section \<open>Every transaction of the program meets the contract\<close>

lemma keeps_outboxes [lifecycle_intros]:
  "keeps_lifecycle (attempt_start ev jid n w now)" "keeps_lifecycle (attempt_finish aid st now c msg)"
  "keeps_lifecycle (event_record ev jid ty from to detail)" "keeps_lifecycle (dispatch_add ev jid)"
  "keeps_lifecycle (mark_published oid now)" "keeps_lifecycle (mark_sent nid now)"
  "keeps_lifecycle (reschedule nid due err)" "keeps_lifecycle (notification_mark_failed nid err)"
  "keeps_lifecycle (enqueue_terminal_notification ev job ety st res c msg now)"
  unfolding attempt_start_def attempt_finish_def event_record_def dispatch_add_def mark_published_def
    mark_sent_def reschedule_def notification_mark_failed_def enqueue_terminal_notification_def
    notification_enqueue_def Let_def
  by (intro lifecycle_intros)+

lemma keeps_reads [lifecycle_intros]:
  "keeps_lifecycle (job_get jid)" "keeps_lifecycle (get_for_user jid u)"
  "keeps_lifecycle (lock_for_user jid u)" "keeps_lifecycle (get_by_idempotency_key u k)"
  "keeps_lifecycle (count_active_for_user u)" "keeps_lifecycle (find_due_retries ev now n)"
  "keeps_lifecycle (find_expired_leases ev now n)" "keeps_lifecycle (find_stuck_queued ev now n)"
  "keeps_lifecycle (find_expirable ev now n)" "keeps_lifecycle (claim_pending ev n)"
  "keeps_lifecycle (claim_due ev now n)" "keeps_lifecycle (orm_view ev job)"
  unfolding job_get_def get_for_user_def lock_for_user_def get_by_idempotency_key_def
    count_active_for_user_def find_due_retries_def find_expired_leases_def find_stuck_queued_def
    find_expirable_def claim_pending_def claim_due_def orm_view_def
  by (intro lifecycle_intros)+

lemma keeps_execution [lifecycle_intros]:
  "keeps_lifecycle (exec_claim ev cfg w jid now)" "keeps_lifecycle (exec_heartbeat cfg w jid now)"
  "keeps_lifecycle (cancellation_requested jid)" "keeps_lifecycle (report_progress cfg w jid p now)"
  "keeps_lifecycle (mark_superseded aid now)"
  "keeps_lifecycle (finalize_succeeded ev w jid aid res now)"
  "keeps_lifecycle (finalize_failed ev w jid aid c msg dl now)"
  "keeps_lifecycle (exec_schedule_retry ev w jid aid c msg due now)"
  "keeps_lifecycle (finalize_cancelled ev w jid aid now)"
  unfolding exec_claim_def exec_heartbeat_def cancellation_requested_def report_progress_def
    mark_superseded_def finalize_succeeded_def finalize_failed_def exec_schedule_retry_def
    finalize_cancelled_def
  by (intro lifecycle_intros)+

lemma keeps_requests [lifecycle_intros]:
  "keeps_lifecycle (submit_create ev cfg u ty pl pr mx k now)" "keeps_lifecycle (find_existing u key)"
  "keeps_lifecycle (cancel ev jid u reason now)"
  unfolding submit_create_def find_existing_def cancel_def job_add_def Let_def
  by (intro lifecycle_intros)+

lemma keeps_rows [lifecycle_intros]:
  "keeps_lifecycle (dispatch_row ev now row pub)" "keeps_lifecycle (redeliver_row now_at job rep)"
  "keeps_lifecycle (promote_row ev now job pro)" "keeps_lifecycle (reap_row ev now job acc)"
  "keeps_lifecycle (expire_row ev now job n)"
  unfolding dispatch_row_def redeliver_row_def promote_row_def reap_row_def expire_row_def
  by (intro lifecycle_intros)+

lemma keeps_delivery [lifecycle_intros]: "keeps_lifecycle (deliver_txn de cfg ev now n)"
proof -
  have "keeps_lifecycle (on_failure de cfg m msg)" for m msg
    unfolding on_failure_def Let_def by (intro lifecycle_intros)
  moreover have "keeps_lifecycle (mark_sent i at_time)" for i at_time
    by (intro lifecycle_intros)
  ultimately show ?thesis unfolding keeps_lifecycle_def
    by (blast intro: deliver_txn_rule [of de cfg ev now n _ _ _ rows_evolve] rows_evolve_refl rows_evolve_trans)
qed

lemma keeps_batches [lifecycle_intros]:
  "keeps_lifecycle (dispatch_txn ev now n)" "keeps_lifecycle (redeliver_txn ev cutoff now_at n)"
  "keeps_lifecycle (promote_txn ev now n)" "keeps_lifecycle (reap_txn ev now n)"
  "keeps_lifecycle (expire_txn ev cfg now n)"
  unfolding dispatch_txn_def redeliver_txn_def promote_txn_def reap_txn_def expire_txn_def
  by (intro lifecycle_intros)+

lemma lifecycle_transactionI: "keeps_lifecycle m \<Longrightarrow> lifecycle_transaction m"
  by unfold_locales (auto simp: keeps_lifecycle_def)

interpretation claim_txn: lifecycle_transaction "exec_claim ev cfg w jid now" for ev cfg w jid now
  by (intro lifecycle_transactionI lifecycle_intros)

interpretation heartbeat_txn: lifecycle_transaction "exec_heartbeat cfg w jid now" for cfg w jid now
  by (intro lifecycle_transactionI lifecycle_intros)

interpretation progress_txn: lifecycle_transaction "report_progress cfg w jid p now" for cfg w jid p now
  by (intro lifecycle_transactionI lifecycle_intros)

interpretation succeed_txn: lifecycle_transaction "finalize_succeeded ev w jid aid res now"
  for ev w jid aid res now
  by (intro lifecycle_transactionI lifecycle_intros)

interpretation fail_txn: lifecycle_transaction "finalize_failed ev w jid aid c msg dl now"
  for ev w jid aid c msg dl now
  by (intro lifecycle_transactionI lifecycle_intros)

interpretation retry_txn: lifecycle_transaction "exec_schedule_retry ev w jid aid c msg due now"
  for ev w jid aid c msg due now
  by (intro lifecycle_transactionI lifecycle_intros)

interpretation cancelled_txn: lifecycle_transaction "finalize_cancelled ev w jid aid now"
  for ev w jid aid now
  by (intro lifecycle_transactionI lifecycle_intros)

interpretation submit_txn: lifecycle_transaction "submit_create ev cfg u ty pl pr mx k now"
  for ev cfg u ty pl pr mx k now
  by (intro lifecycle_transactionI lifecycle_intros)

interpretation cancel_txn: lifecycle_transaction "cancel ev jid u reason now" for ev jid u reason now
  by (intro lifecycle_transactionI lifecycle_intros)

interpretation dispatch_t: lifecycle_transaction "dispatch_txn ev now n" for ev now n
  by (intro lifecycle_transactionI lifecycle_intros)

interpretation redeliver_t: lifecycle_transaction "redeliver_txn ev cutoff now_at n" for ev cutoff now_at n
  by (intro lifecycle_transactionI lifecycle_intros)

interpretation promote_t: lifecycle_transaction "promote_txn ev now n" for ev now n
  by (intro lifecycle_transactionI lifecycle_intros)

interpretation reap_t: lifecycle_transaction "reap_txn ev now n" for ev now n
  by (intro lifecycle_transactionI lifecycle_intros)

interpretation expire_t: lifecycle_transaction "expire_txn ev cfg now n" for ev cfg now n
  by (intro lifecycle_transactionI lifecycle_intros)

interpretation deliver_t: lifecycle_transaction "deliver_txn de cfg ev now n" for de cfg ev now n
  by (intro lifecycle_transactionI lifecycle_intros)

end
