(* ===== verification/Invariants.thy ===== *)
theory Invariants
  imports Lifecycle
begin

text \<open>
  What holds of the store between transactions, in three layers.

  \<^item> \<open>tables_ok\<close>: primary keys are unique, foreign keys resolve, a notification's dedupe key
    is built from its job and event. Kept by every single statement.
  \<^item> \<open>job_wf\<close>: the columns of one row agree with its status. Kept by every single UPDATE.
  \<^item> \<open>job_inv\<close>: the rows the other tables hold for a job agree with it: attempts numbered
    one to the attempt count, exactly one outbox row, exactly one notification once the job
    has ended and none before. Kept by transactions, not by the statements inside them.
\<close>

section \<open>Keys\<close>

definition job_ids :: "store \<Rightarrow> uuid set" where
  "job_ids s = j_id ` set (jobs s)"

definition tables_ok :: "store \<Rightarrow> bool" where
  "tables_ok s \<longleftrightarrow> distinct (map j_id (jobs s)) \<and> distinct (map a_id (job_attempts s)) \<and>
     distinct (map e_id (job_events s)) \<and> distinct (map o_id (dispatch_outbox s)) \<and>
     distinct (map n_id (notification_outbox s)) \<and>
     (\<forall>a \<in> set (job_attempts s). a_job_id a \<in> job_ids s) \<and>
     (\<forall>e \<in> set (job_events s). e_job_id e \<in> job_ids s) \<and>
     (\<forall>d \<in> set (dispatch_outbox s). o_job_id d \<in> job_ids s) \<and>
     (\<forall>n \<in> set (notification_outbox s). n_job_id n \<in> job_ids s \<and>
        n_dedupe_key n = uuid_str (n_job_id n) @ '':'' @ n_event_type n)"

lemma job_exists_ids: "job_exists i s \<longleftrightarrow> i \<in> job_ids s"
  by (auto simp: job_exists_def job_ids_def)

lemma job_ids_upd:
  assumes "\<And>x. p x \<Longrightarrow> j_id (f x) = j_id x"
  shows "job_ids (s\<lparr>jobs := upd_where p f (jobs s)\<rparr>) = job_ids s"
proof -
  have "map j_id (upd_where p f (jobs s)) = map j_id (jobs s)" by (rule map_upd_where) (rule assms)
  then show ?thesis by (simp add: job_ids_def flip: set_map)
qed

lemma job_ids_frame [simp]:
  "job_ids (s\<lparr>job_attempts := as\<rparr>) = job_ids s" "job_ids (s\<lparr>job_events := es\<rparr>) = job_ids s"
  "job_ids (s\<lparr>dispatch_outbox := ds\<rparr>) = job_ids s"
  "job_ids (s\<lparr>notification_outbox := ns\<rparr>) = job_ids s" "job_ids (s\<lparr>uuid_calls := k\<rparr>) = job_ids s"
  by (simp_all add: job_ids_def)

lemma tables_update_jobs:
  assumes "\<And>j. p j \<Longrightarrow> j_id (f j) = j_id j"
  shows "preserves tables_ok (update_jobs p f)"
proof -
  have "map j_id (upd_where p f xs) = map j_id xs" for xs
    by (rule map_upd_where) (simp add: assms)
  then show ?thesis
    by (auto simp: preserves_def txn_simps tables_ok_def job_ids_upd assms)
qed

lemma tables_update_attempts:
  assumes "\<And>a. a_id (f a) = a_id a \<and> a_job_id (f a) = a_job_id a"
  shows "preserves tables_ok (update_attempts p f)"
proof -
  have "map a_id (upd_where p f xs) = map a_id xs" for xs
    by (rule map_upd_where) (simp add: assms)
  then show ?thesis
    by (auto simp: preserves_def txn_simps tables_ok_def job_ids_def row_simps assms)
qed

lemma tables_update_dispatch:
  assumes "\<And>d. o_id (f d) = o_id d \<and> o_job_id (f d) = o_job_id d"
  shows "preserves tables_ok (update_dispatch p f)"
proof -
  have "map o_id (upd_where p f xs) = map o_id xs" for xs
    by (rule map_upd_where) (simp add: assms)
  then show ?thesis
    by (auto simp: preserves_def txn_simps tables_ok_def job_ids_def row_simps assms)
qed

lemma tables_update_notifications:
  assumes "\<And>n. n_id (f n) = n_id n \<and> n_job_id (f n) = n_job_id n \<and>
     n_dedupe_key (f n) = n_dedupe_key n \<and> n_event_type (f n) = n_event_type n"
  shows "preserves tables_ok (update_notifications p f)"
proof -
  have "map n_id (upd_where p f xs) = map n_id xs" for xs
    by (rule map_upd_where) (simp add: assms)
  then show ?thesis
    by (auto simp: preserves_def txn_simps tables_ok_def job_ids_def row_simps assms)
qed

lemma tables_inserts [preserves_intros]:
  "preserves tables_ok (generate_uuid7 ev)" "preserves tables_ok (insert_attempt a)"
  "preserves tables_ok (insert_event e)" "preserves tables_ok (insert_dispatch d)"
  "preserves tables_ok (insert_job j)"
  by (auto simp: preserves_def txn_simps tables_ok_def job_exists_ids job_ids_def image_iff)

lemma tables_notification:
  assumes "n_dedupe_key n = uuid_str (n_job_id n) @ '':'' @ n_event_type n"
  shows "preserves tables_ok (insert_notification_on_conflict n)"
  using assms
  by (simp add: preserves_def txn_simps tables_ok_def job_exists_ids split del: if_split)
     (auto simp: job_exists_ids split: if_splits)

lemma tables_enqueue [preserves_intros]:
  "preserves tables_ok (enqueue_terminal_notification ev job ety st res c msg now)"
  unfolding enqueue_terminal_notification_def notification_enqueue_def Let_def
  by (intro preserves_intros tables_notification) (simp add: dedupe_key_of_def)

lemma tables_update_job_where:
  "(\<And>j. j_id (f j) = j_id j) \<Longrightarrow> preserves tables_ok (update_job_where p f)"
  unfolding update_job_where_def by (intro preserves_intros tables_update_jobs)

lemma tables_job_updates [preserves_intros]:
  "preserves tables_ok (heartbeat jid w lease now)"
  "preserves tables_ok (update_progress jid w p lease now)"
  "preserves tables_ok (mark_redispatched jid now)"
  "preserves tables_ok (claim_for_execution jid w lease now)"
  "preserves tables_ok (mark_succeeded jid w res now)"
  "preserves tables_ok (job_mark_failed jid w c msg now dl)"
  "preserves tables_ok (finalize_cancelled_by_worker jid w now)"
  "preserves tables_ok (job_schedule_retry jid w c msg due now)"
  "preserves tables_ok (cancel_inactive jid reason now)"
  "preserves tables_ok (request_running_cancellation jid reason now)"
  "preserves tables_ok (mark_queued jid now)" "preserves tables_ok (requeue_expired_lease jid now)"
  "preserves tables_ok (fail_expired_lease jid c msg now dl)"
  "preserves tables_ok (move_retry_to_queued jid now)" "preserves tables_ok (job_expire jid now)"
  unfolding heartbeat_def update_progress_def mark_redispatched_def claim_for_execution_def
    mark_succeeded_def job_mark_failed_def finalize_cancelled_by_worker_def job_schedule_retry_def
    cancel_inactive_def request_running_cancellation_def mark_queued_def requeue_expired_lease_def
    fail_expired_lease_def move_retry_to_queued_def job_expire_def
  by (intro preserves_intros tables_update_job_where tables_update_jobs; simp)+

lemma tables_outboxes [preserves_intros]:
  "preserves tables_ok (attempt_start ev jid n w now)"
  "preserves tables_ok (attempt_finish aid st now oc omsg)"
  "preserves tables_ok (event_record ev jid ty from to detail)" "preserves tables_ok (dispatch_add ev jid)"
  "preserves tables_ok (mark_published oid now)" "preserves tables_ok (mark_sent nid now)"
  "preserves tables_ok (reschedule nid due err)" "preserves tables_ok (notification_mark_failed nid err)"
  unfolding attempt_start_def attempt_finish_def event_record_def dispatch_add_def mark_published_def
    mark_sent_def reschedule_def notification_mark_failed_def
  by (intro preserves_intros tables_update_attempts tables_update_dispatch
      tables_update_notifications; simp)+

section \<open>Rows\<close>

definition job_wf :: "job \<Rightarrow> bool" where
  "job_wf j \<longleftrightarrow>
     (j_locked_by j \<noteq> None \<longleftrightarrow> j_status j = RUNNING \<or> j_status j = CANCELLING) \<and>
     (j_lock_expires_at j \<noteq> None \<longleftrightarrow> j_locked_by j \<noteq> None) \<and>
     (j_completed_at j \<noteq> None \<longleftrightarrow> is_terminal (j_status j)) \<and>
     (j_next_attempt_at j \<noteq> None \<longleftrightarrow> j_status j = RETRYING) \<and>
     (j_cancellation_requested_at j \<noteq> None \<longrightarrow>
        j_status j \<in> {CANCELLING, CANCELLED, SUCCEEDED, FAILED}) \<and>
     (j_status j = CANCELLING \<longrightarrow> j_cancellation_requested_at j \<noteq> None) \<and>
     (j_result j \<noteq> None \<longleftrightarrow> j_status j = SUCCEEDED) \<and>
     (j_status j = SUCCEEDED \<longrightarrow> j_progress j = 100 \<and> j_error_code j = None) \<and>
     0 \<le> j_progress j \<and> j_progress j \<le> 100 \<and> 1 \<le> j_max_attempts j \<and>
     (j_dead_lettered_at j \<noteq> None \<longrightarrow> j_status j = FAILED) \<and>
     0 \<le> j_attempts j \<and> (j_started_at j \<noteq> None \<longleftrightarrow> 0 < j_attempts j) \<and>
     (j_status j = PENDING \<longrightarrow> j_attempts j = 0 \<and> j_queued_at j = None) \<and>
     (j_status j \<in> {RUNNING, CANCELLING, RETRYING, SUCCEEDED, FAILED} \<longrightarrow> 0 < j_attempts j) \<and>
     (j_status j = QUEUED \<longrightarrow> j_queued_at j \<noteq> None \<and> j_last_dispatched_at j \<noteq> None)"

definition rows_wf :: "store \<Rightarrow> bool" where
  "rows_wf s \<longleftrightarrow> (\<forall>j \<in> set (jobs s). job_wf j)"

lemma rows_update_jobs:
  assumes "\<And>j. job_wf j \<Longrightarrow> p j \<Longrightarrow> job_row_check (f j) = None \<Longrightarrow> job_wf (f j)"
  shows "preserves rows_wf (update_jobs p f)"
  using assms by (auto simp: preserves_def txn_simps rows_wf_def row_simps)

lemma rows_update_job_where:
  assumes "\<And>j. job_wf j \<Longrightarrow> p j \<Longrightarrow> job_row_check (f j) = None \<Longrightarrow> job_wf (f j)"
  shows "preserves rows_wf (update_job_where p f)"
  unfolding update_job_where_def by (intro preserves_intros rows_update_jobs assms)

lemma job_row_check_None: "job_row_check j = None \<longleftrightarrow> job_types_ok j \<and> job_checks_ok j"
  by (simp add: job_row_check_def)

lemmas wf_update = job_wf_def guard_simps job_row_check_None job_checks_ok_def

lemma rows_job_updates [preserves_intros]:
  "preserves rows_wf (heartbeat jid w lease now)"
  "preserves rows_wf (update_progress jid w p lease now)"
  "preserves rows_wf (mark_redispatched jid now)"
  "preserves rows_wf (claim_for_execution jid w lease now)"
  "preserves rows_wf (mark_succeeded jid w res now)"
  "preserves rows_wf (job_mark_failed jid w c msg now dl)"
  "preserves rows_wf (finalize_cancelled_by_worker jid w now)"
  "preserves rows_wf (job_schedule_retry jid w c msg due now)"
  "preserves rows_wf (cancel_inactive jid reason now)"
  "preserves rows_wf (request_running_cancellation jid reason now)"
  "preserves rows_wf (mark_queued jid now)" "preserves rows_wf (requeue_expired_lease jid now)"
  "preserves rows_wf (fail_expired_lease jid c msg now dl)"
  "preserves rows_wf (move_retry_to_queued jid now)" "preserves rows_wf (job_expire jid now)"
  unfolding heartbeat_def update_progress_def mark_redispatched_def claim_for_execution_def
    mark_succeeded_def job_mark_failed_def finalize_cancelled_by_worker_def job_schedule_retry_def
    cancel_inactive_def request_running_cancellation_def mark_queued_def requeue_expired_lease_def
    fail_expired_lease_def move_retry_to_queued_def job_expire_def
  by (intro preserves_intros rows_update_job_where rows_update_jobs;
      clarsimp simp: guard_simps; (elim disjE)?; simp add: wf_update)+

lemma new_job_wf:
  "job_row_check (new_job i u ty pl pr mx k now) = None \<Longrightarrow> job_wf (new_job i u ty pl pr mx k now)"
  by (simp add: new_job_def wf_update)

lemma rows_add_job [preserves_intros]: "preserves rows_wf (insert_job (new_job i u ty pl pr mx k now))"
  by (auto simp: preserves_def txn_simps rows_wf_def new_job_wf)

lemma rows_other_tables [preserves_intros]:
  "preserves rows_wf (generate_uuid7 ev)" "preserves rows_wf (insert_attempt a)"
  "preserves rows_wf (insert_event e)" "preserves rows_wf (insert_dispatch d)"
  "preserves rows_wf (insert_notification_on_conflict n)" "preserves rows_wf (update_attempts pa fa)"
  "preserves rows_wf (update_dispatch pd fd)" "preserves rows_wf (update_notifications pn fn)"
  by (auto simp: preserves_def txn_simps rows_wf_def split: if_splits)

section \<open>What the other tables hold for a job\<close>

definition numbers :: "store \<Rightarrow> uuid \<Rightarrow> int list" where
  "numbers s i = map a_attempt_number (filter (\<lambda>a. a_job_id a = i) (job_attempts s))"

definition outbox :: "store \<Rightarrow> uuid \<Rightarrow> OutboxStatus list" where
  "outbox s i = map o_status (filter (\<lambda>d. o_job_id d = i) (dispatch_outbox s))"

definition notified :: "store \<Rightarrow> uuid \<Rightarrow> string list" where
  "notified s i = map n_event_type (filter (\<lambda>n. n_job_id n = i) (notification_outbox s))"

fun terminal_event :: "JobStatus \<Rightarrow> JobEventType option" where
  "terminal_event SUCCEEDED = Some EV_SUCCEEDED"
| "terminal_event FAILED = Some EV_FAILED"
| "terminal_event CANCELLED = Some EV_CANCELLED"
| "terminal_event EXPIRED = Some EV_EXPIRED"
| "terminal_event _ = None"

definition ended :: "JobStatus \<Rightarrow> string list" where
  "ended st = (case terminal_event st of None \<Rightarrow> [] | Some e \<Rightarrow> [JobEventType_value e])"

text \<open>A job has one outbox row, published once the job has left PENDING by being dispatched; one
  that was cancelled or expired before is left to be published later.\<close>

definition outbox_agrees :: "JobStatus \<Rightarrow> OutboxStatus list \<Rightarrow> bool" where
  "outbox_agrees st os \<longleftrightarrow> (case os of
     [O_PENDING] \<Rightarrow> st = PENDING \<or> st = CANCELLED \<or> st = EXPIRED
   | [O_PUBLISHED] \<Rightarrow> st \<noteq> PENDING
   | _ \<Rightarrow> False)"

definition job_inv :: "store \<Rightarrow> job \<Rightarrow> bool" where
  "job_inv s j \<longleftrightarrow> numbers s (j_id j) = [1..j_attempts j] \<and>
     outbox_agrees (j_status j) (outbox s (j_id j)) \<and> notified s (j_id j) = ended (j_status j)"

definition rows_inv :: "store \<Rightarrow> bool" where
  "rows_inv s \<longleftrightarrow> (\<forall>j \<in> set (jobs s). job_inv s j)"

definition store_inv :: "store \<Rightarrow> bool" where
  "store_inv s \<longleftrightarrow> tables_ok s \<and> rows_wf s \<and> rows_inv s"

named_theorems view_simps "what a job sees of the other tables, after an update"

lemma views_frame [view_simps]:
  "numbers (s\<lparr>jobs := js\<rparr>) = numbers s" "numbers (s\<lparr>job_events := es\<rparr>) = numbers s"
  "numbers (s\<lparr>dispatch_outbox := ds\<rparr>) = numbers s"
  "numbers (s\<lparr>notification_outbox := ns\<rparr>) = numbers s" "numbers (s\<lparr>uuid_calls := k\<rparr>) = numbers s"
  "outbox (s\<lparr>jobs := js\<rparr>) = outbox s" "outbox (s\<lparr>job_events := es\<rparr>) = outbox s"
  "outbox (s\<lparr>job_attempts := as\<rparr>) = outbox s"
  "outbox (s\<lparr>notification_outbox := ns\<rparr>) = outbox s" "outbox (s\<lparr>uuid_calls := k\<rparr>) = outbox s"
  "notified (s\<lparr>jobs := js\<rparr>) = notified s" "notified (s\<lparr>job_events := es\<rparr>) = notified s"
  "notified (s\<lparr>job_attempts := as\<rparr>) = notified s"
  "notified (s\<lparr>dispatch_outbox := ds\<rparr>) = notified s" "notified (s\<lparr>uuid_calls := k\<rparr>) = notified s"
  by (auto simp: numbers_def outbox_def notified_def)

lemma views_append [view_simps]:
  "numbers (s\<lparr>job_attempts := job_attempts s @ [a]\<rparr>) i =
     numbers s i @ (if a_job_id a = i then [a_attempt_number a] else [])"
  "outbox (s\<lparr>dispatch_outbox := dispatch_outbox s @ [d]\<rparr>) i =
     outbox s i @ (if o_job_id d = i then [o_status d] else [])"
  "notified (s\<lparr>notification_outbox := notification_outbox s @ [n]\<rparr>) i =
     notified s i @ (if n_job_id n = i then [n_event_type n] else [])"
  by (simp_all add: numbers_def outbox_def notified_def)

lemma map_filter_upd_where:
  assumes "\<And>x. p x \<Longrightarrow> q (f x) = q x" and "\<And>x. p x \<Longrightarrow> g (f x) = g x"
  shows "map g (filter q (upd_where p f xs)) = map g (filter q xs)"
  using assms by (induction xs) auto

lemma numbers_finish [view_simps]:
  "numbers (s\<lparr>job_attempts := upd_where p (\<lambda>a. a\<lparr>a_status := f1 a, a_completed_at := f2 a,
     a_error_code := f3 a, a_error_message := f4 a\<rparr>) (job_attempts s)\<rparr>) = numbers s"
  by (rule ext) (simp add: numbers_def map_filter_upd_where)

definition same_views :: "store \<Rightarrow> store \<Rightarrow> uuid \<Rightarrow> bool" where
  "same_views s t i \<longleftrightarrow> numbers t i = numbers s i \<and> outbox t i = outbox s i \<and> notified t i = notified s i"

lemma job_inv_same_views: "same_views s t (j_id j) \<Longrightarrow> job_inv t j = job_inv s j"
  by (simp add: same_views_def job_inv_def)

text \<open>The two ways a transaction treats the jobs table: a guarded update of one row, and none.\<close>

lemma rows_inv_update:
  assumes inv: "\<forall>j \<in> set (jobs s). job_inv s j" and t: "jobs t = upd_where p f (jobs s)"
    and p: "\<And>j. p j \<Longrightarrow> j_id j = i \<and> j_id (f j) = i"
    and others: "\<And>k. k \<noteq> i \<Longrightarrow> same_views s t k"
    and row: "\<And>j. j \<in> set (jobs s) \<Longrightarrow> p j \<Longrightarrow> job_inv s j \<Longrightarrow> job_inv t (f j)"
    and won: "j0 \<in> set (jobs s)" "p j0" "distinct (map j_id (jobs s))"
  shows "\<forall>j \<in> set (jobs t). job_inv t j"
proof
  fix j' assume "j' \<in> set (jobs t)"
  then obtain j where j: "j \<in> set (jobs s)" "j' = (if p j then f j else j)"
    by (auto simp: t row_simps)
  show "job_inv t j'"
  proof (cases "j_id j = i")
    case True
    then have "j = j0" using won j p by (metis same_row)
    with j won row inv show ?thesis by simp
  next
    case False
    then have "j' = j" using j p by auto
    then show ?thesis using False j inv others [of "j_id j"] by (metis job_inv_same_views)
  qed
qed

lemma rows_inv_frame:
  assumes "\<forall>j \<in> set (jobs s). job_inv s j" and "jobs t = jobs s" and "\<And>k. same_views s t k"
  shows "\<forall>j \<in> set (jobs t). job_inv t j"
  using assms by (metis job_inv_same_views)

lemma update_job_where_Inr [txn_simps]:
  "update_job_where p f s = Inr r \<longleftrightarrow>
     (\<forall>j \<in> set (jobs s). p j \<longrightarrow> job_row_check (f j) = None) \<and>
     r = (\<exists>j \<in> set (jobs s). p j, s\<lparr>jobs := upd_where p f (jobs s)\<rparr>)"
proof -
  have "filter p (jobs s) \<noteq> [] \<longleftrightarrow> (\<exists>j \<in> set (jobs s). p j)" by (simp add: filter_empty_conv)
  then show ?thesis by (auto simp: update_job_where_def txn_simps)
qed

lemma written_row:
  assumes "update_job_where p f s = Inr (b, t)" and "j \<in> set (jobs s)" and "p j"
  shows "f j \<in> set (jobs t)"
  using assms upd_where_mem [OF assms(2), of p f] by (auto simp: update_job_where_Inr)

definition dedupe_ok :: "notification list \<Rightarrow> bool" where
  "dedupe_ok ns \<longleftrightarrow> (\<forall>n \<in> set ns. n_dedupe_key n = uuid_str (n_job_id n) @ '':'' @ n_event_type n)"

lemma tables_ok_dedupe: "tables_ok s \<Longrightarrow> dedupe_ok (notification_outbox s)"
  by (simp add: tables_ok_def dedupe_ok_def)

definition terminal_row ::
  "session_env \<Rightarrow> uuid \<Rightarrow> job \<Rightarrow> JobEventType \<Rightarrow> dict \<Rightarrow> datetime \<Rightarrow> notification" where
  "terminal_row ev i job ety body now =
     \<lparr>n_id = i, n_job_id = j_id job, n_user_id = j_user_id job,
      n_channel = fst (notification_target job), n_destination = snd (notification_target job),
      n_event_type = JobEventType_value ety, n_payload = body, n_status = N_PENDING, n_attempts = 0,
      n_next_attempt_at = now, n_dedupe_key = dedupe_key_of (j_id job) ety, n_last_error = None,
      n_created_at = server_now ev, n_sent_at = None\<rparr>"

lemma terminal_row_simps [simp]:
  "n_job_id (terminal_row ev i job ety body now) = j_id job"
  "n_event_type (terminal_row ev i job ety body now) = JobEventType_value ety"
  "n_status (terminal_row ev i job ety body now) = N_PENDING"
  "n_destination (terminal_row ev i job ety body now) = snd (notification_target job)"
  by (simp_all add: terminal_row_def)

text \<open>The notification of a job that has none yet is always inserted.\<close>

lemma enqueue_first:
  assumes "enqueue_terminal_notification ev job ety st res c msg now s = Inr (x, t)"
    and "dedupe_ok (notification_outbox s)" and "notified s (j_id job) = []"
  shows "t = s\<lparr>uuid_calls := Suc (uuid_calls s), notification_outbox := notification_outbox s @
    [terminal_row ev (uuid7 ev (uuid_calls s)) job ety (notification_body job ety st res c msg) now]\<rparr>"
proof -
  have fresh: "n_dedupe_key x \<noteq> dedupe_key_of (j_id job) ety" if "x \<in> set (notification_outbox s)" for x
    using that assms(2,3)
    by (force simp: dedupe_ok_def notified_def dedupe_key_of_def uuid_str_prefix_inj filter_empty_conv)
  show ?thesis
    using assms(1) fresh unfolding enqueue_terminal_notification_def notification_enqueue_def Let_def
    by (auto simp: txn_simps terminal_row_def split: prod.splits if_splits)
qed

end
