(* ===== verification/PaginationFacts.thy ===== *)
theory PaginationFacts
  imports Pagination CodecFacts IsoFacts Invariants
begin

text \<open>
  The cursor round trip, and what a client that follows the cursors sees: every job of the
  listing once, newest first, whatever the page size.
\<close>

section \<open>Cursors\<close>

definition cursor_chars :: string where
  "cursor_chars = ''0123456789abcdef-T:.+''"

lemma digits_cursor_chars: "set (dec_digits k v) \<subseteq> set cursor_chars"
proof
  fix c assume "c \<in> set (dec_digits k v)"
  then have "c \<in> set ''0123456789''" using dec_digits_digits is_digit_def by blast
  then show "c \<in> set cursor_chars" by (auto simp: cursor_chars_def)
qed

lemma isoformat_chars: "set (isoformat t) \<subseteq> set cursor_chars"
proof -
  obtain y m d where "civil_of_days (t div us_per_day) = (y, m, d)" by (metis prod_cases3)
  note shape = isoformat_text [OF this]
  have "set (fraction f) \<subseteq> set cursor_chars" for f
    using digits_cursor_chars by (simp add: fraction_def) (simp add: cursor_chars_def)
  moreover have "set ''-'' \<subseteq> set cursor_chars" "set '':'' \<subseteq> set cursor_chars" "set ''T'' \<subseteq> set cursor_chars"
      "set ''+00:00'' \<subseteq> set cursor_chars"
    by (simp_all add: cursor_chars_def)
  ultimately show ?thesis
    unfolding shape iso_text_def set_append by (intro Un_least digits_cursor_chars)
qed

lemma uuid_cursor_chars: "set (uuid_str u) \<subseteq> set cursor_chars"
  using uuid_str_chars [of u] by (rule order_trans) (simp add: cursor_chars_def)

lemma cursor_chars_facts: "\<forall>c \<in> set cursor_chars. byte c < 128" "CHR ''|'' \<notin> set cursor_chars"
  by code_simp+

lemma split_bar_append: "CHR ''|'' \<notin> set a \<Longrightarrow> split_bar (a @ CHR ''|'' # b) = Some (a, b)"
  by (simp add: split_bar_def dropWhile_append3 takeWhile_append2 dropWhile_append takeWhile_append)

lemma cursor_decode_encode:
  assumes "representable (c_created_at p)"
  shows "decode_cursor wide (encode_cursor p) = Inr p"
proof -
  let ?raw = "isoformat (c_created_at p) @ CHR ''|'' # uuid_str (c_job_id p)"
  have "byte (CHR ''|'') < 128" by code_simp
  then have "is_ascii ?raw"
    using isoformat_chars [of "c_created_at p"] uuid_cursor_chars [of "c_job_id p"] cursor_chars_facts(1)
    unfolding is_ascii_def list_all_iff set_append list.set by blast
  moreover have "split_bar ?raw = Some (isoformat (c_created_at p), uuid_str (c_job_id p))"
    by (rule split_bar_append) (use isoformat_chars [of "c_created_at p"] cursor_chars_facts(2) in blast)
  ultimately show ?thesis
    by (simp add: decode_cursor_def encode_cursor_def b64_roundtrip fromisoformat_isoformat [OF assms]
        uuid_roundtrip Let_def)
qed

section \<open>Listings\<close>

definition job_key :: "job \<Rightarrow> datetime \<times> uuid" where
  "job_key j = (j_created_at j, j_id j)"

definition selected :: "string \<Rightarrow> JobStatus option \<Rightarrow> JobType option \<Rightarrow> job \<Rightarrow> bool" where
  "selected user_id status job_type j \<longleftrightarrow> j_user_id j = user_id \<and>
     (case status of None \<Rightarrow> True | Some st \<Rightarrow> j_status j = st) \<and>
     (case job_type of None \<Rightarrow> True | Some ty \<Rightarrow> j_type j = ty)"

text \<open>The jobs a listing is about, newest first.\<close>

definition listing :: "string \<Rightarrow> JobStatus option \<Rightarrow> JobType option \<Rightarrow> store \<Rightarrow> job list" where
  "listing user_id status job_type s = rev (sort_key job_key (filter (selected user_id status job_type) (jobs s)))"

definition older :: "cursor_position option \<Rightarrow> job \<Rightarrow> bool" where
  "older c j \<longleftrightarrow> (case c of None \<Rightarrow> True | Some c \<Rightarrow> job_key j < (c_created_at c, c_job_id c))"

lemma list_for_user_listing:
  "list_for_user user_id status job_type c limit s =
     Inr (take limit (filter (older c) (listing user_id status job_type s)), s)"
proof -
  have "filter (older c) (filter (selected user_id status job_type) (jobs s)) =
      (let stmt = filter (\<lambda>j. j_user_id j = user_id) (jobs s);
         stmt = (case status of None \<Rightarrow> stmt | Some st \<Rightarrow> filter (\<lambda>j. j_status j = st) stmt);
         stmt = (case job_type of None \<Rightarrow> stmt | Some ty \<Rightarrow> filter (\<lambda>j. j_type j = ty) stmt)
       in (case c of None \<Rightarrow> stmt | Some c \<Rightarrow> filter (\<lambda>j. (j_created_at j, j_id j) < (c_created_at c, c_job_id c)) stmt))"
    by (auto simp: older_def selected_def job_key_def Let_def intro!: filter_cong split: option.splits)
  moreover have "job_key = (\<lambda>j. (j_created_at j, j_id j))" by (rule ext) (simp add: job_key_def)
  moreover have "filter (older c) (listing user_id status job_type s) =
      rev (sort_key job_key (filter (older c) (filter (selected user_id status job_type) (jobs s))))"
    by (simp only: listing_def rev_filter [symmetric] filter_sort)
  ultimately show ?thesis by (simp only: list_for_user_def txn_gets_apply Let_def)
qed

text \<open>Without duplicate keys the listing is strictly descending, so what is older than one of its
  jobs is what follows that job.\<close>

definition descending :: "job list \<Rightarrow> bool" where
  "descending xs \<longleftrightarrow> sorted_wrt (\<lambda>a b. job_key b < job_key a) xs"

lemma listing_descending:
  assumes "distinct (map j_id (jobs s))"
  shows "descending (listing user_id status job_type s)"
proof -
  let ?xs = "sort_key job_key (filter (selected user_id status job_type) (jobs s))"
  have "distinct (map j_id (filter (selected user_id status job_type) (jobs s)))" by (rule distinct_map_filter [OF assms])
  then have "inj_on j_id (set ?xs)" "distinct ?xs" by (simp_all add: distinct_map)
  then have "distinct (map job_key ?xs)" by (auto simp: distinct_map job_key_def inj_on_def)
  then have "sorted_wrt (<) (map job_key ?xs)" by (simp add: strict_sorted_iff)
  then show ?thesis by (simp add: descending_def listing_def sorted_wrt_rev sorted_wrt_map)
qed

lemma older_suffix:
  assumes "descending (A @ x # B)"
  shows "filter (older (Some \<lparr>c_created_at = j_created_at x, c_job_id = j_id x\<rparr>)) (A @ x # B) = B"
proof -
  have "older (Some \<lparr>c_created_at = j_created_at x, c_job_id = j_id x\<rparr>) j \<longleftrightarrow> job_key j < job_key x" for j
    by (simp add: older_def job_key_def)
  moreover have "\<forall>a \<in> set (A @ [x]). \<not> job_key a < job_key x" "\<forall>b \<in> set B. job_key b < job_key x"
    using assms by (auto simp: descending_def sorted_wrt_append dest: order.asym)
  ultimately show ?thesis by (auto simp: filter_empty_conv filter_id_conv)
qed

section \<open>Following the cursors\<close>

text \<open>What a client does that asks for the next page until there is none; \<open>n\<close> bounds the number of
  requests, and nothing is returned when it runs out or a request fails.\<close>

fun traverse ::
  "nat \<Rightarrow> wide_text \<Rightarrow> string \<Rightarrow> JobStatus option \<Rightarrow> JobType option \<Rightarrow> nat \<Rightarrow> string option \<Rightarrow> store \<Rightarrow>
   job_summary list option" where
  "traverse 0 wide user_id status job_type limit cursor s = None"
| "traverse (Suc n) wide user_id status job_type limit cursor s =
     (case list_jobs wide user_id status job_type cursor limit s of
        Inl e \<Rightarrow> None
      | Inr (page, _) \<Rightarrow>
        (case pg_next_cursor page of
           None \<Rightarrow> Some (pg_items page)
         | Some c \<Rightarrow> map_option ((@) (pg_items page)) (traverse n wide user_id status job_type limit (Some c) s)))"

lemma encode_cursor_not_empty: "encode_cursor p \<noteq> []"
proof -
  have "b64_encode raw = [] \<Longrightarrow> raw = []" for raw by (cases raw rule: b64_encode.cases) simp_all
  then show ?thesis by (auto simp: encode_cursor_def Let_def)
qed

lemma list_jobs_page:
  assumes "(case cursor of None \<Rightarrow> pos = None | Some c \<Rightarrow> c \<noteq> [] \<and> map_sum id Some (decode_cursor wide c) = Inr pos)"
    and "filter (older pos) (listing user_id status job_type s) = rest" and "0 < limit"
  shows "list_jobs wide user_id status job_type cursor limit s =
    Inr (\<lparr>pg_items = map JobSummary_of (take limit rest),
          pg_next_cursor = (if limit < length rest then Some (encode_cursor
             \<lparr>c_created_at = j_created_at (rest ! (limit - 1)), c_job_id = j_id (rest ! (limit - 1))\<rparr>) else None),
          pg_has_more = (limit < length rest)\<rparr>, s)"
proof -
  have "last (take limit rest) = rest ! (limit - 1)" "take limit rest \<noteq> []" if "limit < length rest"
  proof -
    show "take limit rest \<noteq> []" using that assms(3) by auto
    then show "last (take limit rest) = rest ! (limit - 1)"
      using that assms(3) by (subst last_conv_nth) (simp_all add: min_def)
  qed
  then show ?thesis
    using assms by (auto simp: list_jobs_def txn_bind_def txn_lift_def list_for_user_listing Let_def txn_simps
        split: option.splits)
qed

definition cursor_of :: "job \<Rightarrow> cursor_position" where
  "cursor_of j = \<lparr>c_created_at = j_created_at j, c_job_id = j_id j\<rparr>"

text \<open>The requests of a traversal: \<open>rest\<close> is what is left of the listing after the cursor.\<close>

definition left_over :: "job list \<Rightarrow> string option \<Rightarrow> job list \<Rightarrow> bool" where
  "left_over L cursor rest \<longleftrightarrow> (case cursor of None \<Rightarrow> rest = L
     | Some c \<Rightarrow> \<exists>A x. L = A @ x # rest \<and> c = encode_cursor (cursor_of x))"

lemma traverse_left_over:
  assumes L: "L = listing user_id status job_type s" "descending L" "\<forall>j \<in> set L. representable (j_created_at j)"
    and "0 < limit" and "left_over L cursor rest" and "length rest < n"
  shows "traverse n wide user_id status job_type limit cursor s = Some (map JobSummary_of rest)"
  using assms(5,6)
proof (induction n arbitrary: cursor rest)
  case (Suc n)
  have page: "list_jobs wide user_id status job_type cursor limit s =
      Inr (\<lparr>pg_items = map JobSummary_of (take limit rest),
            pg_next_cursor = (if limit < length rest then Some (encode_cursor (cursor_of (rest ! (limit - 1)))) else None),
            pg_has_more = (limit < length rest)\<rparr>, s)"
  proof (cases cursor)
    case None
    then show ?thesis using Suc.prems(1) assms(4)
      by (subst list_jobs_page [where pos = None and rest = rest])
        (simp_all add: left_over_def older_def L(1) cursor_of_def)
  next
    case (Some c)
    then obtain A x where x: "L = A @ x # rest" "c = encode_cursor (cursor_of x)"
      using Suc.prems(1) by (auto simp: left_over_def)
    have "decode_cursor wide c = Inr (cursor_of x)"
      unfolding x(2) by (rule cursor_decode_encode) (use L(3) x(1) in \<open>simp add: cursor_of_def\<close>)
    moreover have "filter (older (Some (cursor_of x))) L = rest"
      using older_suffix [of A x rest] L(2) by (simp add: x(1) cursor_of_def)
    ultimately show ?thesis using Some assms(4) x(2) encode_cursor_not_empty L(1)
      by (subst list_jobs_page [where pos = "Some (cursor_of x)" and rest = rest]) (simp_all add: cursor_of_def)
  qed
  show ?case
  proof (cases "limit < length rest")
    case False
    then show ?thesis by (simp add: page)
  next
    case True
    let ?x = "rest ! (limit - 1)"
    have split: "rest = take (limit - 1) rest @ ?x # drop limit rest"
      using True assms(4) id_take_nth_drop [of "limit - 1" rest] by simp
    have "\<exists>A. L = A @ rest"
      using Suc.prems(1) by (auto simp: left_over_def split: option.splits)
    then obtain A where "L = A @ rest" by blast
    then have "L = (A @ take (limit - 1) rest) @ ?x # drop limit rest" using split by (metis append.assoc)
    then have "left_over L (Some (encode_cursor (cursor_of ?x))) (drop limit rest)"
      unfolding left_over_def by auto
    then have "traverse n wide user_id status job_type limit (Some (encode_cursor (cursor_of ?x))) s =
        Some (map JobSummary_of (drop limit rest))"
      by (rule Suc.IH) (use Suc.prems(2) True assms(4) in simp)
    then show ?thesis using True by (simp add: page flip: map_append)
  qed
qed simp

lemma summary_counts:
  "read_summary user_id s = Inr (c, t) \<Longrightarrow> t = s \<and>
     sc_total c = int (length (filter (\<lambda>j. j_user_id j = user_id) (jobs s)))"
proof -
  assume run: "read_summary user_id s = Inr (c, t)"
  define rows where "rows = filter (\<lambda>j. j_user_id j = user_id) (jobs s)"
  define count where "count st = length (filter (\<lambda>j. j_status j = st) rows)" for st
  have drop: "sum_list (map (int \<circ> count) (filter (\<lambda>st. 0 < count st) xs)) = sum_list (map (int \<circ> count) xs)" for xs
    by (induction xs) auto
  have all: "sum_list (map count all_JobStatus) = length rows"
  proof -
    have "sum_list (map (\<lambda>st. length (filter (\<lambda>j. j_status j = st) xs)) all_JobStatus) = length xs" for xs :: "job list"
    proof (induction xs)
      case (Cons x xs)
      then show ?case by (cases "j_status x") (simp_all add: all_JobStatus_def)
    qed (simp add: all_JobStatus_def)
    from this [of rows] show ?thesis by (simp add: count_def [abs_def])
  qed
  have "sc_total c = sum_list (map (int \<circ> count) (filter (\<lambda>st. 0 < count st) all_JobStatus))" "t = s"
    using run by (auto simp: read_summary_def status_counts_def txn_simps Let_def comp_def count_def rows_def)
  moreover have "sum_list (map (int \<circ> count) xs) = int (sum_list (map count xs))" for xs
    by (induction xs) simp_all
  ultimately show ?thesis using drop [of all_JobStatus] all by (simp add: rows_def)
qed

section \<open>The listing's contract\<close>

text \<open>
  C12. A cursor carries its position exactly: decoding what \<^const>\<open>encode_cursor\<close> made gives the
  same instant, to the microsecond, and the same job id, for every instant a \<^verbatim>\<open>datetime\<close>
  can hold.
\<close>

theorem cursor_roundtrip:
  assumes "representable (c_created_at p)"
  shows "decode_cursor wide (encode_cursor p) = Inr p"
  using assms by (rule cursor_decode_encode)

theorem cursor_roundtrip_witness:
  "decode_cursor (\<lambda>_. None) (encode_cursor \<lparr>c_created_at = 1700000000123456, c_job_id = 42\<rparr>) =
    Inr \<lparr>c_created_at = 1700000000123456, c_job_id = 42\<rparr>"
  by (rule cursor_roundtrip) code_simp

text \<open>
  C13. A client that follows \<^verbatim>\<open>next_cursor\<close> from the first page to the last receives every
  job of the user that matches the filters exactly once, newest first, whatever the page size;
  the traversal ends after at most one request per job and one more.
\<close>

theorem traversal_complete:
  assumes "distinct (map j_id (jobs s))" and "0 < limit"
    and "\<forall>j \<in> set (jobs s). representable (j_created_at j)"
    and "length (listing user_id status job_type s) < n"
  shows "traverse n wide user_id status job_type limit None s =
    Some (map JobSummary_of (listing user_id status job_type s))"
proof (rule traverse_left_over [OF refl listing_descending [OF assms(1)] _ assms(2) _ assms(4)])
  show "\<forall>j \<in> set (listing user_id status job_type s). representable (j_created_at j)"
    using assms(3) by (simp add: listing_def)
  show "left_over (listing user_id status job_type s) None (listing user_id status job_type s)"
    by (simp add: left_over_def)
qed

definition new_job_row :: "uuid \<Rightarrow> string \<Rightarrow> datetime \<Rightarrow> job" where
  "new_job_row i user_id now = new_job i user_id SLEEP [] NORMAL 3 None now"

definition listed_jobs :: store where
  "listed_jobs = empty_store\<lparr>jobs :=
     [new_job_row 1 ''alice'' 300, new_job_row 2 ''alice'' 100, new_job_row 3 ''bob'' 200, new_job_row 4 ''alice'' 100]\<rparr>"

theorem traversal_complete_witness:
  "traverse 4 (\<lambda>_. None) ''alice'' None None 2 None listed_jobs =
    Some (map JobSummary_of (listing ''alice'' None None listed_jobs)) \<and>
   map js_job_id (map JobSummary_of (listing ''alice'' None None listed_jobs)) = [1, 4, 2]"
proof
  show "traverse 4 (\<lambda>_. None) ''alice'' None None 2 None listed_jobs =
      Some (map JobSummary_of (listing ''alice'' None None listed_jobs))"
    by (rule traversal_complete; code_simp)
  show "map js_job_id (map JobSummary_of (listing ''alice'' None None listed_jobs)) = [1, 4, 2]" by code_simp
qed

text \<open>
  The summary adds up: the total of the per-status counts is the number of jobs the user has.
\<close>

lemma summary_total:
  "\<exists>c. read_summary user_id s = Inr (c, s) \<and>
     sc_total c = int (length (filter (\<lambda>j. j_user_id j = user_id) (jobs s)))"
proof -
  obtain c where "read_summary user_id s = Inr (c, s)"
    by (simp add: read_summary_def status_counts_def txn_simps)
  with summary_counts show ?thesis by blast
qed

end
