(* ===== verification/Preservation.thy ===== *)
theory Preservation
  imports Invariants
begin

text \<open>
  Every transaction of the program keeps \<^const>\<open>store_inv\<close>. A transaction does one of four
  things to a job: nothing it notices (\<open>quiet\<close>), a move between two statuses it is alive in
  (\<open>alive_update\<close>), its end with the notification (\<open>ends\<close>), or one of the three that
  touch a second table as well: submission, dispatch and claim.
\<close>

section \<open>Statements no job notices\<close>

text \<open>Statements that no job notices: events, the outcome columns of attempts, reads.\<close>

definition quiet :: "store \<Rightarrow> store \<Rightarrow> bool" where
  "quiet s t \<longleftrightarrow> jobs t = jobs s \<and> notification_outbox t = notification_outbox s \<and> (\<forall>k. same_views s t k)"

definition quietly :: "'a db_txn \<Rightarrow> bool" where
  "quietly m \<longleftrightarrow> (\<forall>s x t. m s = Inr (x, t) \<longrightarrow> quiet s t)"

lemma quietlyD: "quietly m \<Longrightarrow> m s = Inr (x, t) \<Longrightarrow> quiet s t"
  by (simp add: quietly_def)

lemma quiet_trans: "quiet r s \<Longrightarrow> quiet s t \<Longrightarrow> quiet r t"
  by (simp add: quiet_def same_views_def)

named_theorems quiet_intros "transactions that no job notices"

lemma quietly_pure [quiet_intros]:
  "quietly (txn_return x)" "quietly (txn_gets f)" "quietly (txn_lift r)" "quietly (generate_uuid7 ev)"
  "quietly (insert_event e)"
  by (auto simp: quietly_def quiet_def same_views_def txn_simps view_simps)

lemma quietly_bind [quiet_intros]:
  assumes "quietly m" and "\<And>x. quietly (f x)"
  shows "quietly (txn_bind m f)"
  unfolding quietly_def
proof (intro allI impI)
  fix s y t assume "txn_bind m f s = Inr (y, t)"
  then obtain x u where "m s = Inr (x, u)" "f x u = Inr (y, t)" by (auto simp: txn_bind_Inr)
  then show "quiet s t" using quietlyD [OF assms(1)] quietlyD [OF assms(2)] quiet_trans by meson
qed

lemma quietly_if [quiet_intros]: "quietly a \<Longrightarrow> quietly b \<Longrightarrow> quietly (if c then a else b)"
  by simp

lemma quietly_attempt_finish [quiet_intros]: "quietly (attempt_finish aid st now oc omsg)"
  by (auto simp: quietly_def quiet_def same_views_def attempt_finish_def txn_simps view_simps)

lemma quietly_event_record [quiet_intros]: "quietly (event_record ev jid ty from to detail)"
  unfolding event_record_def by (intro quiet_intros)

lemma quietly_mark_superseded [quiet_intros]: "quietly (mark_superseded aid now)"
  unfolding mark_superseded_def by (intro quiet_intros)

lemma quiet_rows_inv: "quiet s t \<Longrightarrow> rows_inv t = rows_inv s"
  unfolding quiet_def rows_inv_def by (metis job_inv_same_views)

lemma lost_update:
  "update_job_where p f s = Inr (False, t) \<Longrightarrow> t = s"
  by (auto simp: txn_simps upd_where_id)

text \<open>Moving a job between two statuses it is alive in.\<close>

lemma alive_update:
  assumes inv: "rows_inv s" "distinct (map j_id (jobs s))" and upd: "update_job_where p f s = Inr (b, t)"
    and p: "\<And>j. p j \<Longrightarrow> j_id j = i \<and> j_id (f j) = i \<and> j_attempts (f j) = j_attempts j \<and>
      terminal_event (j_status j) = None \<and> terminal_event (j_status (f j)) = None \<and>
      (j_status (f j) = PENDING \<longleftrightarrow> j_status j = PENDING)"
  shows "rows_inv t"
proof (cases b)
  case True
  then obtain j0 where won: "j0 \<in> set (jobs s)" "p j0" and t: "t = s\<lparr>jobs := upd_where p f (jobs s)\<rparr>"
    using upd by (auto simp: txn_simps)
  show ?thesis unfolding rows_inv_def
  proof (rule rows_inv_update [where s = s and p = p and f = f and i = i and ?j0.0 = j0])
    show "job_inv t (f j)" if "j \<in> set (jobs s)" "p j" "job_inv s j" for j
      using p [OF that(2)] that(3)
      by (auto simp: t job_inv_def view_simps ended_def outbox_agrees_def split: list.splits OutboxStatus.splits)
  qed (use inv p won t in \<open>auto simp: rows_inv_def same_views_def view_simps\<close>)
next
  case False
  with upd lost_update inv(1) show ?thesis by (cases b) auto
qed

text \<open>Ending a job: the row moves to a terminal status and the notification goes out with it.\<close>

lemma end_update:
  assumes inv: "rows_inv s" "tables_ok s" and upd: "update_job_where p f s = Inr (True, s1)"
    and p: "\<And>j. p j \<Longrightarrow> j_id j = j_id job \<and> j_id (f j) = j_id job \<and> j_attempts (f j) = j_attempts j \<and>
      terminal_event (j_status j) = None \<and> terminal_event (j_status (f j)) = Some ety \<and>
      (j_status j = PENDING \<longrightarrow> j_status (f j) = CANCELLED \<or> j_status (f j) = EXPIRED)"
    and quiet: "quiet s1 s2"
    and enqueue: "enqueue_terminal_notification ev job ety st res c msg now s2 = Inr (x, t)"
  shows "rows_inv t"
proof -
  obtain j0 where won: "j0 \<in> set (jobs s)" "p j0" and s1: "s1 = s\<lparr>jobs := upd_where p f (jobs s)\<rparr>"
    using upd by (auto simp: txn_simps)
  have none: "notified s2 (j_id job) = []"
    using inv won p [OF won(2)] quiet
    by (auto simp: rows_inv_def job_inv_def ended_def quiet_def same_views_def s1 view_simps)
  have "dedupe_ok (notification_outbox s2)"
    using quiet tables_ok_dedupe [OF inv(2)] by (simp add: quiet_def s1)
  note t = enqueue_first [OF enqueue this none]
  have views: "jobs t = jobs s2" "numbers t = numbers s2" "outbox t = outbox s2"
      "\<And>k. notified t k = notified s2 k @ (if j_id job = k then [JobEventType_value ety] else [])"
    by (simp_all add: t view_simps) (simp_all add: notified_def)
  have s2: "jobs s2 = upd_where p f (jobs s)" "\<And>k. numbers s2 k = numbers s k"
      "\<And>k. outbox s2 k = outbox s k" "\<And>k. notified s2 k = notified s k"
    using quiet by (simp_all add: s1 quiet_def same_views_def view_simps)
  show ?thesis unfolding rows_inv_def
  proof (rule rows_inv_update [where s = s and p = p and f = f and i = "j_id job" and ?j0.0 = j0])
    show "job_inv t (f j)" if "j \<in> set (jobs s)" "p j" "job_inv s j" for j
      using p [OF that(2)] that(3) none
      by (auto simp: views s2 job_inv_def ended_def outbox_agrees_def
          split: list.splits OutboxStatus.splits)
  qed (use inv p won in \<open>auto simp: rows_inv_def tables_ok_def same_views_def views s2\<close>)
qed

lemma store_inv_intro:
  assumes "preserves tables_ok m" and "preserves rows_wf m"
    and "\<And>s x t. store_inv s \<Longrightarrow> m s = Inr (x, t) \<Longrightarrow> rows_inv t"
  shows "preserves store_inv m"
  unfolding preserves_def
proof (intro allI impI)
  fix s x t assume s: "store_inv s" and run: "m s = Inr (x, t)"
  then have "tables_ok t" "rows_wf t"
    using preservesD [OF assms(1) _ run] preservesD [OF assms(2) _ run] by (auto simp: store_inv_def)
  with assms(3) [OF s run] show "store_inv t" by (simp add: store_inv_def)
qed

lemma quietly_preserves:
  "quietly m \<Longrightarrow> preserves tables_ok m \<Longrightarrow> preserves store_inv m"
  by (rule store_inv_intro)
     (auto dest!: quietlyD simp: preserves_def quiet_rows_inv store_inv_def rows_wf_def,
      simp add: quiet_def)

lemma store_inv_distinct: "store_inv s \<Longrightarrow> distinct (map j_id (jobs s))"
  by (simp add: store_inv_def tables_ok_def)

lemma alive_preserves:
  assumes "preserves tables_ok (update_job_where p f)" and "preserves rows_wf (update_job_where p f)"
    and "\<And>j. p j \<Longrightarrow> j_id j = i \<and> j_id (f j) = i \<and> j_attempts (f j) = j_attempts j \<and>
      terminal_event (j_status j) = None \<and> terminal_event (j_status (f j)) = None \<and>
      (j_status (f j) = PENDING \<longleftrightarrow> j_status j = PENDING)"
  shows "preserves store_inv (update_job_where p f)"
  using assms(1,2)
proof (rule store_inv_intro)
  fix s x t assume "store_inv s" and "update_job_where p f s = Inr (x, t)"
  then show "rows_inv t"
    using alive_update [OF _ _ _ assms(3)] store_inv_distinct by (auto simp: store_inv_def)
qed

lemmas alive_updates_def = heartbeat_def update_progress_def job_schedule_retry_def
  request_running_cancellation_def requeue_expired_lease_def move_retry_to_queued_def

lemma inv_alive_updates [preserves_intros]:
  "preserves store_inv (heartbeat jid w lease now)"
  "preserves store_inv (update_progress jid w p lease now)"
  "preserves store_inv (job_schedule_retry jid w c msg due now)"
  "preserves store_inv (request_running_cancellation jid reason now)"
  "preserves store_inv (requeue_expired_lease jid now)"
  "preserves store_inv (move_retry_to_queued jid now)"
  unfolding alive_updates_def
  by (rule alive_preserves [where i = jid], rule tables_update_job_where, simp,
      rule rows_job_updates [unfolded alive_updates_def], (auto simp: guard_simps)[1])+

lemma inv_redispatched [preserves_intros]: "preserves store_inv (mark_redispatched jid now)"
proof (rule store_inv_intro)
  fix s x t assume "store_inv s" and run: "mark_redispatched jid now s = Inr (x, t)"
  moreover define p :: "job \<Rightarrow> bool" where "p = (\<lambda>j. j_id j = jid \<and> j_status j = QUEUED)"
  moreover define f :: "job \<Rightarrow> job" where "f = (\<lambda>j. j\<lparr>j_last_dispatched_at := Some now, j_updated_at := now\<rparr>)"
  ultimately have "update_job_where p f s = Inr (\<exists>j \<in> set (jobs s). p j, t)"
    by (auto simp: mark_redispatched_def txn_simps)
  then show "rows_inv t"
    using alive_update [where i = jid] \<open>store_inv s\<close> store_inv_distinct
    by (auto simp: store_inv_def p_def f_def)
qed (intro preserves_intros)+

lemma inv_quiet [preserves_intros]:
  "preserves store_inv (event_record ev jid ty from to detail)"
  "preserves store_inv (attempt_finish aid st now oc omsg)" "preserves store_inv (mark_superseded aid now)"
  by (intro quietly_preserves quiet_intros preserves_intros; simp add: mark_superseded_def preserves_intros)+

text \<open>The six updates that end a job, each followed by the notification in its transaction.\<close>

inductive ends :: "store \<Rightarrow> store \<Rightarrow> bool" for s where
  succeeded: "mark_succeeded (j_id job) w r now s = Inr (True, s1) \<Longrightarrow> quiet s1 s2 \<Longrightarrow>
    enqueue_terminal_notification ev job EV_SUCCEEDED st res c msg due s2 = Inr (x, t) \<Longrightarrow> ends s t"
| failed: "job_mark_failed (j_id job) w fc fm now dl s = Inr (True, s1) \<Longrightarrow> quiet s1 s2 \<Longrightarrow>
    enqueue_terminal_notification ev job EV_FAILED st res c msg due s2 = Inr (x, t) \<Longrightarrow> ends s t"
| lease_lost: "fail_expired_lease (j_id job) fc fm now dl s = Inr (True, s1) \<Longrightarrow> quiet s1 s2 \<Longrightarrow>
    enqueue_terminal_notification ev job EV_FAILED st res c msg due s2 = Inr (x, t) \<Longrightarrow> ends s t"
| stopped: "finalize_cancelled_by_worker (j_id job) w now s = Inr (True, s1) \<Longrightarrow> quiet s1 s2 \<Longrightarrow>
    enqueue_terminal_notification ev job EV_CANCELLED st res c msg due s2 = Inr (x, t) \<Longrightarrow> ends s t"
| cancelled: "cancel_inactive (j_id job) why now s = Inr (True, s1) \<Longrightarrow> quiet s1 s2 \<Longrightarrow>
    enqueue_terminal_notification ev job EV_CANCELLED st res c msg due s2 = Inr (x, t) \<Longrightarrow> ends s t"
| expired: "job_expire (j_id job) now s = Inr (True, s1) \<Longrightarrow> quiet s1 s2 \<Longrightarrow>
    enqueue_terminal_notification ev job EV_EXPIRED st res c msg due s2 = Inr (x, t) \<Longrightarrow> ends s t"

lemmas ending_updates_def = mark_succeeded_def job_mark_failed_def fail_expired_lease_def
  finalize_cancelled_by_worker_def cancel_inactive_def job_expire_def

lemma ends_rows_inv:
  assumes "ends s t" and "store_inv s"
  shows "rows_inv t"
proof -
  have inv: "rows_inv s" "tables_ok s" using assms(2) by (auto simp: store_inv_def)
  from assms(1) show ?thesis
    by cases (unfold ending_updates_def, (rule end_update [OF inv], assumption,
      (auto simp: guard_simps)[1], assumption, assumption)+)
qed

lemma ends_preserves:
  assumes "preserves tables_ok m" and "preserves rows_wf m"
    and "\<And>s x t. m s = Inr (x, t) \<Longrightarrow> quiet s t \<or> ends s t"
  shows "preserves store_inv m"
  using assms(1,2)
proof (rule store_inv_intro)
  fix s x t assume s: "store_inv s" and "m s = Inr (x, t)"
  then show "rows_inv t"
    using assms(3) [of s x t] ends_rows_inv [OF _ s] by (auto simp: quiet_rows_inv store_inv_def)
qed

lemma job_get_Inr [txn_simps]: "job_get i s = Inr r \<longleftrightarrow> r = (row_of j_id i (jobs s), s)"
  by (auto simp: job_get_def txn_simps)

lemma lost_updates:
  "mark_succeeded i w r now s = Inr (False, t) \<Longrightarrow> t = s"
  "job_mark_failed i w c msg now dl s = Inr (False, t) \<Longrightarrow> t = s"
  "finalize_cancelled_by_worker i w now s = Inr (False, t) \<Longrightarrow> t = s"
  "job_schedule_retry i w c msg due now s = Inr (False, t) \<Longrightarrow> t = s"
  unfolding mark_succeeded_def job_mark_failed_def finalize_cancelled_by_worker_def
    job_schedule_retry_def by (erule lost_update)+

lemma quiet_steps:
  "attempt_finish aid st now oc omsg s = Inr (x, t) \<Longrightarrow> quiet s t"
  "event_record ev i ty from to detail s = Inr (y, t) \<Longrightarrow> quiet s t"
  "mark_superseded aid now s = Inr (z, t) \<Longrightarrow> quiet s t"
  by (rule quietlyD, rule quiet_intros, assumption)+

section \<open>Keys and rows, transaction by transaction\<close>

lemma preserves_reads [preserves_intros]:
  "preserves P (job_get jid)" "preserves P (get_for_user jid u)"
  "preserves P (lock_for_user jid u)" "preserves P (get_by_idempotency_key u k)"
  "preserves P (count_active_for_user u)" "preserves P (find_due_retries ev now n)"
  "preserves P (find_expired_leases ev now n)" "preserves P (find_stuck_queued ev now n)"
  "preserves P (find_expirable ev now n)" "preserves P (claim_pending ev n)"
  "preserves P (claim_due ev now n)" "preserves P (orm_view ev job)"
  "preserves P (cancellation_requested jid)"
  unfolding job_get_def get_for_user_def lock_for_user_def get_by_idempotency_key_def
    count_active_for_user_def find_due_retries_def find_expired_leases_def find_stuck_queued_def
    find_expirable_def claim_pending_def claim_due_def orm_view_def cancellation_requested_def
  by (intro preserves_intros)+

lemma rows_outboxes [preserves_intros]:
  "preserves rows_wf (attempt_start ev jid n w now)"
  "preserves rows_wf (attempt_finish aid st now oc omsg)"
  "preserves rows_wf (event_record ev jid ty from to detail)" "preserves rows_wf (dispatch_add ev jid)"
  "preserves rows_wf (mark_published oid now)" "preserves rows_wf (mark_sent nid now)"
  "preserves rows_wf (reschedule nid due err)" "preserves rows_wf (notification_mark_failed nid err)"
  "preserves rows_wf (enqueue_terminal_notification ev job ety st res c msg now)"
  unfolding attempt_start_def attempt_finish_def event_record_def dispatch_add_def mark_published_def
    mark_sent_def reschedule_def notification_mark_failed_def enqueue_terminal_notification_def
    notification_enqueue_def Let_def
  by (intro preserves_intros)+

lemmas services_def = exec_claim_def exec_heartbeat_def report_progress_def mark_superseded_def
  finalize_succeeded_def finalize_failed_def exec_schedule_retry_def finalize_cancelled_def
  submit_create_def job_add_def cancel_def dispatch_row_def redeliver_row_def promote_row_def
  reap_row_def expire_row_def Let_def

lemma tables_services [preserves_intros]:
  "preserves tables_ok (exec_claim ev cfg w jid now)" "preserves tables_ok (exec_heartbeat cfg w jid now)"
  "preserves tables_ok (report_progress cfg w jid p now)" "preserves tables_ok (mark_superseded aid now)"
  "preserves tables_ok (finalize_succeeded ev w jid aid res now)"
  "preserves tables_ok (finalize_failed ev w jid aid c msg dl now)"
  "preserves tables_ok (exec_schedule_retry ev w jid aid c msg due now)"
  "preserves tables_ok (finalize_cancelled ev w jid aid now)"
  "preserves tables_ok (submit_create ev cfg u ty pl pr mx k now)"
  "preserves tables_ok (cancel ev jid u reason now)" "preserves tables_ok (dispatch_row ev now row pub)"
  "preserves tables_ok (redeliver_row now_at job rep)" "preserves tables_ok (promote_row ev now job pro)"
  "preserves tables_ok (reap_row ev now job acc)" "preserves tables_ok (expire_row ev now job n)"
  unfolding services_def by (intro preserves_intros)+

lemma rows_services [preserves_intros]:
  "preserves rows_wf (exec_claim ev cfg w jid now)" "preserves rows_wf (exec_heartbeat cfg w jid now)"
  "preserves rows_wf (report_progress cfg w jid p now)" "preserves rows_wf (mark_superseded aid now)"
  "preserves rows_wf (finalize_succeeded ev w jid aid res now)"
  "preserves rows_wf (finalize_failed ev w jid aid c msg dl now)"
  "preserves rows_wf (exec_schedule_retry ev w jid aid c msg due now)"
  "preserves rows_wf (finalize_cancelled ev w jid aid now)"
  "preserves rows_wf (submit_create ev cfg u ty pl pr mx k now)"
  "preserves rows_wf (cancel ev jid u reason now)" "preserves rows_wf (dispatch_row ev now row pub)"
  "preserves rows_wf (redeliver_row now_at job rep)" "preserves rows_wf (promote_row ev now job pro)"
  "preserves rows_wf (reap_row ev now job acc)" "preserves rows_wf (expire_row ev now job n)"
  unfolding services_def by (intro preserves_intros)+

section \<open>The invariant, transaction by transaction\<close>

lemmas service_simps = txn_bind_Inr job_get_Inr

lemma inv_finalize_succeeded [preserves_intros]:
  "preserves store_inv (finalize_succeeded ev w i aid res now)"
proof (rule ends_preserves)
  fix s x t assume "finalize_succeeded ev w i aid res now s = Inr (x, t)"
  then show "quiet s t \<or> ends s t"
    unfolding finalize_succeeded_def
    by (auto simp: service_simps split: option.splits if_splits dest!: row_of_SomeD lost_updates
        dest: quiet_steps intro: quiet_trans ends.succeeded)
qed (rule preserves_intros)+

lemma inv_finalize_failed [preserves_intros]:
  "preserves store_inv (finalize_failed ev w i aid c msg dl now)"
proof (rule ends_preserves)
  fix s x t assume "finalize_failed ev w i aid c msg dl now s = Inr (x, t)"
  then show "quiet s t \<or> ends s t"
    unfolding finalize_failed_def
    by (auto simp: service_simps txn_return_apply split: option.splits if_splits
        dest!: row_of_SomeD lost_updates dest: quiet_steps intro: quiet_trans ends.failed)
qed (rule preserves_intros)+

lemma inv_finalize_cancelled [preserves_intros]:
  "preserves store_inv (finalize_cancelled ev w i aid now)"
proof (rule ends_preserves)
  fix s x t assume "finalize_cancelled ev w i aid now s = Inr (x, t)"
  then show "quiet s t \<or> ends s t"
    unfolding finalize_cancelled_def
    by (auto simp: service_simps split: option.splits if_splits dest!: row_of_SomeD lost_updates
        dest: quiet_steps intro: quiet_trans ends.stopped)
qed (rule preserves_intros)+

lemma inv_worker_updates [preserves_intros]:
  "preserves store_inv (exec_heartbeat cfg w jid now)"
  "preserves store_inv (report_progress cfg w jid p now)"
  "preserves store_inv (exec_schedule_retry ev w jid aid c msg due now)"
  "preserves store_inv (redeliver_row now_at job rep)" "preserves store_inv (promote_row ev now job pro)"
  unfolding exec_heartbeat_def report_progress_def exec_schedule_retry_def redeliver_row_def promote_row_def
  by (intro preserves_intros)+

lemma orm_view_Inr [txn_simps]:
  "orm_view ev job s = Inr (j, t) \<Longrightarrow> t = s \<and> j_id j = j_id job"
  by (auto simp: orm_view_def txn_simps dest: row_of_SomeD split: if_splits option.splits)

lemma inv_expire_row [preserves_intros]: "preserves store_inv (expire_row ev now job n)"
proof (rule ends_preserves)
  fix s x t assume "expire_row ev now job n s = Inr (x, t)"
  then consider "job_expire (j_id job) now s = Inr (False, t)"
    | j s1 s2 where "j_id j = j_id job" "job_expire (j_id job) now s = Inr (True, s1)"
      "event_record ev (j_id job) EV_EXPIRED (Some (j_status j)) (Some EXPIRED) [] s1 = Inr ((), s2)"
      "enqueue_terminal_notification ev j EV_EXPIRED EXPIRED None (Some EXPIRED_CODE) (Some EXPIRED_MESSAGE) now s2
         = Inr ((), t)"
    unfolding expire_row_def
    by (auto simp: txn_bind_Inr txn_return_apply split: if_splits dest!: orm_view_Inr)
  then show "quiet s t \<or> ends s t"
  proof cases
    case 1
    then have "t = s" unfolding job_expire_def by (rule lost_update)
    then show ?thesis by (simp add: quiet_def same_views_def)
  next
    case 2
    then show ?thesis by (metis ends.expired quiet_steps(2))
  qed
qed (rule preserves_intros)+

lemma inv_reap_exhausted:
  "preserves store_inv (txn_bind (fail_expired_lease (j_id job) c msg now dl) (\<lambda>moved.
     if moved then txn_bind (event_record ev (j_id job) EV_FAILED from to detail) (\<lambda>_.
       txn_bind (enqueue_terminal_notification ev job EV_FAILED st res oc omsg now) (\<lambda>_. txn_return a))
     else txn_return b))"
    (is "preserves store_inv ?m")
proof (rule ends_preserves)
  fix s x t assume "?m s = Inr (x, t)"
  then consider "fail_expired_lease (j_id job) c msg now dl s = Inr (False, t)"
    | s1 s2 where "fail_expired_lease (j_id job) c msg now dl s = Inr (True, s1)"
      "event_record ev (j_id job) EV_FAILED from to detail s1 = Inr ((), s2)"
      "enqueue_terminal_notification ev job EV_FAILED st res oc omsg now s2 = Inr ((), t)"
    by (auto simp: txn_bind_Inr txn_return_apply split: if_splits)
  then show "quiet s t \<or> ends s t"
  proof cases
    case 1
    then have "t = s" unfolding fail_expired_lease_def by (rule lost_update)
    then show ?thesis by (simp add: quiet_def same_views_def)
  next
    case 2
    then show ?thesis by (blast intro: ends.lease_lost quiet_steps)
  qed
qed (intro preserves_intros)+

lemma inv_reap_row [preserves_intros]: "preserves store_inv (reap_row ev now job acc)"
  unfolding reap_row_def by (intro preserves_case_prod preserves_if inv_reap_exhausted) (intro preserves_intros)+

lemma filter_singleton: "filter p xs = [x] \<Longrightarrow> x \<in> set xs \<and> p x"
  by (drule arg_cong [of _ _ set]) auto

lemma lock_for_user_Inr:
  "lock_for_user i u s = Inr (r, t) \<Longrightarrow>
     t = s \<and> (case r of None \<Rightarrow> True | Some j \<Rightarrow> j \<in> set (jobs s) \<and> j_id j = i \<and> j_user_id j = u)"
  by (auto simp: lock_for_user_def txn_simps scalar_one_or_none_def dest!: filter_singleton
      split: list.splits option.splits)

lemma cancel_inactive_wins:
  assumes "j \<in> set (jobs s)" and "j_id j = i" and "j_status j \<in> set INACTIVE_CANCELLABLE"
    and "cancel_inactive i why now s = Inr (b, t)"
  shows b
  using assms by (auto simp: cancel_inactive_def txn_simps)

lemma cancel_cases:
  assumes run: "cancel ev i u why now s = Inr (x, t)"
  obtains "t = s"
    | b s1 where "request_running_cancellation i why now s = Inr (b, s1)"
      "event_record ev i EV_CANCEL_REQUESTED (Some RUNNING) (Some CANCELLING) (reason_detail why) s1 = Inr ((), t)"
    | j b s1 s2 where "j_id j = i" "j \<in> set (jobs s)" "j_status j \<in> set INACTIVE_CANCELLABLE"
      "cancel_inactive i why now s = Inr (b, s1)"
      "event_record ev i EV_CANCELLED (Some (j_status j)) (Some CANCELLED) (reason_detail why) s1 = Inr ((), s2)"
      "enqueue_terminal_notification ev j EV_CANCELLED CANCELLED None None None now s2 = Inr ((), t)"
proof -
  from run obtain r s' where "lock_for_user i u s = Inr (r, s')" unfolding cancel_def txn_bind_Inr by auto
  note lock = this lock_for_user_Inr [OF this]
  show thesis
  proof (cases r)
    case None
    with run lock that(1) show thesis by (simp add: cancel_def txn_bind_step txn_return_apply)
  next
    case (Some j)
    with run lock show thesis
      by (cases "j_status j")
         (auto simp: cancel_def Let_def txn_bind_step [of "lock_for_user i u"] txn_bind_Inr txn_return_apply
           guard_simps intro: that)
  qed
qed

lemma inv_cancel [preserves_intros]: "preserves store_inv (cancel ev i u why now)"
proof (rule store_inv_intro)
  fix s x t assume s: "store_inv s" and run: "cancel ev i u why now s = Inr (x, t)"
  from run show "rows_inv t"
  proof (cases rule: cancel_cases)
    case 1
    with s show ?thesis by (simp add: store_inv_def)
  next
    case (2 b s1)
    have "store_inv s1" using inv_alive_updates(4) s 2(1) by (rule preservesD)
    moreover have "quiet s1 t" using 2(2) by (rule quiet_steps)
    ultimately show ?thesis by (simp add: quiet_rows_inv store_inv_def)
  next
    case (3 j b s1 s2)
    then have b using cancel_inactive_wins by blast
    with 3 have "cancel_inactive (j_id j) why now s = Inr (True, s1)" by simp
    moreover have "quiet s1 s2" using 3(5) by (rule quiet_steps)
    ultimately have "ends s t" using 3(6) by (rule ends.cancelled)
    then show ?thesis using s by (rule ends_rows_inv)
  qed
qed (rule preserves_intros)+

text \<open>A claim adds one to the attempts of the job and the next number to the attempts table.\<close>

definition claim_guard :: "uuid \<Rightarrow> job \<Rightarrow> bool" where
  "claim_guard i j \<longleftrightarrow> j_id j = i \<and> j_status j \<in> set CLAIMABLE \<and> j_cancellation_requested_at j = None"

definition claimed :: "string \<Rightarrow> int \<Rightarrow> datetime \<Rightarrow> job \<Rightarrow> job" where
  "claimed w lease now j = j\<lparr>j_status := RUNNING, j_attempts := j_attempts j + 1, j_locked_by := Some w,
     j_lock_expires_at := Some (now + timedelta_seconds lease), j_heartbeat_at := Some now,
     j_started_at := Some (coalesce (j_started_at j) now), j_next_attempt_at := None, j_updated_at := now\<rparr>"

lemma claim_for_execution_Inr:
  "claim_for_execution i w lease now s = Inr (r, t) \<longleftrightarrow>
     (\<forall>j \<in> set (jobs s). claim_guard i j \<longrightarrow> job_row_check (claimed w lease now j) = None) \<and>
     t = s\<lparr>jobs := upd_where (claim_guard i) (claimed w lease now) (jobs s)\<rparr> \<and>
     r = (case filter (claim_guard i) (jobs s) of [] \<Rightarrow> None | j # _ \<Rightarrow> Some (j_attempts j + 1))"
  by (auto simp: claim_for_execution_def txn_simps claim_guard_def [abs_def] claimed_def [abs_def])

lemma claim_won:
  assumes "claim_for_execution i w lease now s = Inr (Some n, t)"
  obtains j where "j \<in> set (jobs s)" "claim_guard i j" "n = j_attempts j + 1"
    "t = s\<lparr>jobs := upd_where (claim_guard i) (claimed w lease now) (jobs s)\<rparr>"
proof -
  obtain j js where j: "filter (claim_guard i) (jobs s) = j # js" "n = j_attempts j + 1"
    using assms by (auto simp: claim_for_execution_Inr split: list.splits)
  have "j \<in> set (filter (claim_guard i) (jobs s))" by (simp add: j(1))
  then have "j \<in> set (jobs s)" "claim_guard i j" by auto
  then show thesis using assms j(2) by (intro that) (auto simp: claim_for_execution_Inr)
qed

lemma claim_lost: "claim_for_execution i w lease now s = Inr (None, t) \<Longrightarrow> t = s"
  by (auto simp: claim_for_execution_Inr filter_empty_conv upd_where_id split: list.splits)

lemma attempt_start_Inr:
  assumes "attempt_start ev i n w now s = Inr (aid, t)"
  shows "\<exists>a. a_id a = aid \<and> a_job_id a = i \<and> a_attempt_number a = n \<and> a_worker_id a = w \<and> a_status a = RUNNING \<and>
    t = s\<lparr>uuid_calls := Suc (uuid_calls s), job_attempts := job_attempts s @ [a]\<rparr>"
  using assms unfolding attempt_start_def
  by (intro exI [of _ "\<lparr>a_id = aid, a_job_id = i, a_attempt_number = n, a_worker_id = w, a_status = RUNNING,
      a_started_at = now, a_completed_at = None, a_error_code = None, a_error_message = None\<rparr>"])
     (auto simp: txn_simps)

lemma exec_claim_cases:
  assumes "exec_claim ev cfg w i now s = Inr (x, t)"
  obtains "x = None" "t = s"
    | j n aid s1 s2 where "j \<in> set (jobs s)" "claim_guard i j" "n = j_attempts j + 1"
      "s1 = s\<lparr>jobs := upd_where (claim_guard i) (claimed w (worker_lease_seconds cfg) now) (jobs s)\<rparr>"
      "attempt_start ev i n w now s1 = Inr (aid, s2)"
      "event_record ev i EV_STARTED None (Some RUNNING)
         [(''attempt'', JInt n), (''worker_id'', JStr w)] s2 = Inr ((), t)"
      "\<exists>snap. x = Some (n, aid, snap)"
  using assms unfolding exec_claim_def
  by (auto simp: service_simps txn_return_apply split: option.splits dest!: claim_lost elim!: claim_won)

lemma inv_claim [preserves_intros]: "preserves store_inv (exec_claim ev cfg w i now)"
proof (rule store_inv_intro)
  fix s x t assume s: "store_inv s" and "exec_claim ev cfg w i now s = Inr (x, t)"
  from this(2) show "rows_inv t"
  proof (cases rule: exec_claim_cases)
    case 1
    with s show ?thesis by (simp add: store_inv_def)
  next
    case (2 j n aid s1 s2)
    obtain a where a: "a_job_id a = i" "a_attempt_number a = n"
        "s2 = s1\<lparr>uuid_calls := Suc (uuid_calls s1), job_attempts := job_attempts s1 @ [a]\<rparr>"
      using attempt_start_Inr [OF 2(5)] by auto
    have "quiet s2 t" using 2(6) by (rule quiet_steps)
    then have t: "jobs t = upd_where (claim_guard i) (claimed w (worker_lease_seconds cfg) now) (jobs s)"
        "\<And>k. numbers t k = numbers s k @ (if i = k then [n] else [])"
        "\<And>k. outbox t k = outbox s k" "\<And>k. notified t k = notified s k"
      by (auto simp: a 2(4) quiet_def same_views_def numbers_def outbox_def notified_def)
    have wf: "0 \<le> j_attempts j" using s 2(1) by (auto simp: store_inv_def rows_wf_def job_wf_def)
    show ?thesis unfolding rows_inv_def
    proof (rule rows_inv_update [OF _ t(1), where i = i and ?j0.0 = j])
      show "job_inv t (claimed w (worker_lease_seconds cfg) now k)"
        if "k \<in> set (jobs s)" "claim_guard i k" "job_inv s k" for k
      proof -
        have "k = j" using that 2(1,2) store_inv_distinct [OF s] by (auto simp: claim_guard_def intro: same_row)
        with that 2(3) wf show ?thesis
          by (auto simp: job_inv_def claimed_def claim_guard_def t upto_rec2 [of 1 "j_attempts j + 1"]
              ended_def outbox_agrees_def guard_simps split: list.splits OutboxStatus.splits)
      qed
    qed (use s 2 store_inv_distinct in
        \<open>auto simp: store_inv_def rows_inv_def claim_guard_def claimed_def same_views_def t\<close>)
  qed
qed (rule preserves_intros)+

section \<open>Submission\<close>

lemma views_of_stranger:
  assumes "tables_ok s" and "i \<notin> job_ids s"
  shows "numbers s i = []" "outbox s i = []" "notified s i = []"
  using assms by (auto simp: tables_ok_def numbers_def outbox_def notified_def filter_empty_conv)

lemma submit_create_cases:
  assumes "submit_create ev cfg u ty pl pr mx k now s = Inr (job, t)"
  obtains s1 s2 where "job = new_job (j_id job) u ty pl pr mx k now" "job_row_check job = None"
    "\<forall>x \<in> set (jobs s). j_id x \<noteq> j_id job \<and> \<not> same_idempotency_key x job"
    "s1 = s\<lparr>uuid_calls := Suc (uuid_calls s), jobs := jobs s @ [job]\<rparr>"
    "quiet s1 s2" "dispatch_add ev (j_id job) s2 = Inr ((), t)"
    "int (length (filter (\<lambda>j. j_user_id j = u \<and> j_status j \<notin> set TERMINAL_STATUSES) (jobs s)))
       < max_in_flight_jobs_per_user cfg"
proof -
  define i where "i = uuid7 ev (uuid_calls s)"
  define n where "n = new_job i u ty pl pr mx k now"
  have [simp]: "j_id n = i" by (simp add: n_def new_job_def)
  obtain s2 where run: "job = n" "job_row_check n = None"
      "\<forall>x \<in> set (jobs s). j_id x \<noteq> i \<and> \<not> same_idempotency_key x n"
      "event_record ev i EV_SUBMITTED None (Some PENDING)
        [(''type'', JStr (JobType_value ty)), (''priority'', JStr (JobPriority_value pr))]
        (s\<lparr>uuid_calls := Suc (uuid_calls s), jobs := jobs s @ [n]\<rparr>) = Inr ((), s2)"
      "dispatch_add ev i s2 = Inr ((), t)"
      "\<not> int (length (filter (\<lambda>j. j_user_id j = u \<and> j_status j \<notin> set TERMINAL_STATUSES) (jobs s)))
        \<ge> max_in_flight_jobs_per_user cfg"
    using assms unfolding submit_create_def job_add_def count_active_for_user_def Let_def
    by (auto simp: txn_bind_gets txn_bind_Inr txn_return_apply txn_raise_apply insert_job_Inr generate_uuid7_apply
        simp flip: i_def n_def split: if_splits)
  from run(4) have "quiet (s\<lparr>uuid_calls := Suc (uuid_calls s), jobs := jobs s @ [n]\<rparr>) s2" by (rule quiet_steps)
  with run show thesis by (intro that [OF _ _ _ refl]) (auto simp: n_def new_job_def)
qed

lemma inv_submit [preserves_intros]: "preserves store_inv (submit_create ev cfg u ty pl pr mx k now)"
proof (rule store_inv_intro)
  fix s job t assume s: "store_inv s" and "submit_create ev cfg u ty pl pr mx k now s = Inr (job, t)"
  from this(2) show "rows_inv t"
  proof (cases rule: submit_create_cases)
    case (1 s1 s2)
    have "j_id job \<notin> job_ids s" using 1(3) by (auto simp: job_ids_def)
    then have new: "numbers s (j_id job) = []" "outbox s (j_id job) = []" "notified s (j_id job) = []"
      using s views_of_stranger by (auto simp: store_inv_def)
    from 1(5,6) have t: "jobs t = jobs s @ [job]" "\<And>k. numbers t k = numbers s k"
        "\<And>k. outbox t k = outbox s k @ (if j_id job = k then [O_PENDING] else [])"
        "\<And>k. notified t k = notified s k"
      by (auto simp: 1(4) dispatch_add_def txn_simps quiet_def same_views_def view_simps)
         (auto simp: outbox_def)
    have "j_status job = PENDING" "j_attempts job = 0"
      by (subst 1(1), simp add: new_job_def)+
    moreover have "job_inv t j" if "j \<in> set (jobs s)" for j
      using that 1(3) s by (auto simp: job_inv_def store_inv_def rows_inv_def t)
    ultimately show ?thesis
      by (auto simp: rows_inv_def t job_inv_def new ended_def outbox_agrees_def)
  qed
qed (rule preserves_intros)+

section \<open>The scheduler's batches\<close>

text \<open>A row handed to \<^const>\<open>dispatch_row\<close> is one of the table, possibly an older version of it.\<close>

definition outbox_row :: "store \<Rightarrow> dispatch_outbox_row \<Rightarrow> bool" where
  "outbox_row s row \<longleftrightarrow> (\<exists>d \<in> set (dispatch_outbox s). o_id d = o_id row \<and> o_job_id d = o_job_id row)"

lemma outbox_mark_published:
  assumes "mark_published (o_id row) now s = Inr (x, t)" and "outbox_row s row"
    and "distinct (map o_id (dispatch_outbox s))"
  shows "jobs t = jobs s" "numbers t = numbers s" "notified t = notified s"
    "\<And>k. outbox_row s k \<Longrightarrow> outbox_row t k" "\<And>k. k \<noteq> o_job_id row \<Longrightarrow> outbox t k = outbox s k"
    "\<And>st. outbox s (o_job_id row) = [st] \<Longrightarrow> outbox t (o_job_id row) = [O_PUBLISHED]"
proof -
  define f :: "dispatch_outbox_row \<Rightarrow> dispatch_outbox_row" where
    "f = (\<lambda>r. r\<lparr>o_status := O_PUBLISHED, o_published_at := Some now, o_attempts := o_attempts r + 1\<rparr>)"
  have t: "t = s\<lparr>dispatch_outbox := upd_where (\<lambda>r. o_id r = o_id row) f (dispatch_outbox s)\<rparr>"
    using assms(1) by (auto simp: mark_published_def txn_simps f_def)
  have f: "o_id (f r) = o_id r" "o_job_id (f r) = o_job_id r" "o_status (f r) = O_PUBLISHED" for r
    by (simp_all add: f_def)
  show "jobs t = jobs s" "numbers t = numbers s" "notified t = notified s" by (simp_all add: t view_simps)
  show "outbox_row t k" if "outbox_row s k" for k
  proof -
    from that obtain r where "r \<in> set (dispatch_outbox s)" "o_id r = o_id k" "o_job_id r = o_job_id k"
      by (auto simp: outbox_row_def)
    moreover have "(if o_id r = o_id row then f r else r) \<in> set (dispatch_outbox t)"
      using upd_where_mem [OF \<open>r \<in> _\<close>, of "\<lambda>r. o_id r = o_id row" f] by (simp add: t)
    ultimately show ?thesis unfolding outbox_row_def using f by (metis (full_types))
  qed
  obtain d where d: "d \<in> set (dispatch_outbox s)" "o_id d = o_id row" "o_job_id d = o_job_id row"
    using assms(2) by (auto simp: outbox_row_def)
  have only: "r = d" if "r \<in> set (dispatch_outbox s)" "o_id r = o_id row" for r
    using that d assms(3) by (metis same_row)
  have upd: "filter (\<lambda>r. o_job_id r = k) (upd_where (\<lambda>r. o_id r = o_id row) f xs) =
      upd_where (\<lambda>r. o_id r = o_id row) f (filter (\<lambda>r. o_job_id r = k) xs)" for k xs
    by (rule filter_upd_where) (simp add: f)
  show "outbox t k = outbox s k" if "k \<noteq> o_job_id row" for k
    using that only d(3) by (subst (1 2) outbox_def) (auto simp: t upd intro!: arg_cong [of _ _ "map o_status"] upd_where_id)
  show "outbox t (o_job_id row) = [O_PUBLISHED]" if "outbox s (o_job_id row) = [st]" for st
  proof -
    from that obtain r where r: "filter (\<lambda>r. o_job_id r = o_job_id row) (dispatch_outbox s) = [r]"
      by (auto simp: outbox_def)
    have "d \<in> set (filter (\<lambda>r. o_job_id r = o_job_id row) (dispatch_outbox s))" using d by simp
    then have "r = d" by (simp add: r)
    with r d show ?thesis by (simp add: outbox_def t upd f)
  qed
qed

lemma outbox_agrees_published:
  "outbox_agrees st [O_PUBLISHED] \<longleftrightarrow> st \<noteq> PENDING"
  "outbox_agrees st os \<Longrightarrow> \<exists>d. os = [d]"
  by (auto simp: outbox_agrees_def split: list.splits OutboxStatus.splits)

lemma rows_inv_dispatched:
  assumes s: "store_inv s" "outbox_row s row"
    and pub: "mark_published (o_id row) now s = Inr (x, s1)"
    and que: "mark_queued (o_job_id row) now s1 = Inr (y, s2)"
  shows "rows_inv s2"
  unfolding rows_inv_def
proof
  have "distinct (map o_id (dispatch_outbox s))" using s by (simp add: store_inv_def tables_ok_def)
  note s1 = outbox_mark_published [OF pub s(2) this]
  have s2: "numbers s2 = numbers s1" "outbox s2 = outbox s1" "notified s2 = notified s1"
    using que by (auto simp: mark_queued_def txn_simps view_simps)
  fix j' assume "j' \<in> set (jobs s2)"
  then obtain j where j: "j \<in> set (jobs s)" "j_id j' = j_id j" "j_attempts j' = j_attempts j"
      "j_status j' = (if j_id j = o_job_id row \<and> j_status j = PENDING then QUEUED else j_status j)"
    using que s1(1) by (fastforce simp: mark_queued_def txn_simps upd_where_def)
  have inv: "job_inv s j" using s j by (auto simp: store_inv_def rows_inv_def)
  show "job_inv s2 j'"
  proof (cases "j_id j = o_job_id row")
    case True
    with inv obtain d where "outbox s (o_job_id row) = [d]"
      using outbox_agrees_published(2) by (auto simp: job_inv_def)
    with True inv j s1(2,3,6) show ?thesis
      by (auto simp: job_inv_def s2 outbox_agrees_published ended_def)
  next
    case False
    with inv j s1 show ?thesis by (simp add: job_inv_def s2)
  qed
qed

lemma inv_dispatch_row:
  assumes s: "store_inv s" "outbox_row s row" and run: "dispatch_row ev now row pub s = Inr (x, t)"
  shows "store_inv t \<and> (\<forall>k. outbox_row s k \<longrightarrow> outbox_row t k)"
proof -
  have "o_job_id row \<in> job_ids s"
    using s by (auto simp: outbox_row_def store_inv_def tables_ok_def)
  then obtain job where "row_of j_id (o_job_id row) (jobs s) = Some job"
    by (cases "row_of j_id (o_job_id row) (jobs s)") (auto simp: row_of_None_iff job_ids_def)
  with run obtain s1 s2 b where steps: "mark_published (o_id row) now s = Inr ((), s1)"
      "mark_queued (o_job_id row) now s1 = Inr (b, s2)"
      "event_record ev (o_job_id row) EV_QUEUED (Some PENDING) (Some QUEUED) [] s2 = Inr ((), t)"
    by (auto simp: dispatch_row_def service_simps txn_return_apply)
  have "distinct (map o_id (dispatch_outbox s))" using s by (simp add: store_inv_def tables_ok_def)
  note s1 = outbox_mark_published [OF steps(1) s(2) this]
  have "dispatch_outbox s2 = dispatch_outbox s1" "dispatch_outbox t = dispatch_outbox s2"
    using steps(2,3) by (auto simp: mark_queued_def event_record_def txn_simps)
  then have "outbox_row t k" if "outbox_row s k" for k using s1(4) [OF that] by (simp add: outbox_row_def)
  moreover have "rows_inv t"
    using rows_inv_dispatched [OF s steps(1,2)] quiet_steps(2) [OF steps(3)] by (simp add: quiet_rows_inv)
  moreover have "tables_ok t" "rows_wf t"
    using s run preservesD [OF tables_services(11)] preservesD [OF rows_services(11)]
    by (auto simp: store_inv_def)
  ultimately show ?thesis by (auto simp: store_inv_def)
qed

lemma inv_dispatch_txn [preserves_intros]: "preserves store_inv (dispatch_txn ev now n)"
  unfolding preserves_def
proof (intro allI impI)
  fix s x t assume s: "store_inv s" and "dispatch_txn ev now n s = Inr (x, t)"
  then obtain rows where rows: "claim_pending ev n s = Inr (rows, s)"
      "txn_fold (dispatch_row ev now) rows [] s = Inr (x, t)"
    unfolding dispatch_txn_def by (auto simp: claim_pending_def txn_simps)
  have "\<forall>r \<in> set rows. outbox_row s r"
    using rows(1) by (auto simp: claim_pending_def txn_simps outbox_row_def dest!: in_set_takeD)
  note rows = this rows(2)
  let ?I = "\<lambda>rs (_ :: (string \<times> JobPriority) list) s. store_inv s \<and> (\<forall>r \<in> set rs. outbox_row s r)"
  have "?I [] x t"
  proof (rule txn_fold_rule [where I = ?I, OF rows(2)])
    show "?I rows [] s" using s rows(1) by simp
    show "?I rs acc' u'" if I: "?I (r # rs) acc u" and run: "dispatch_row ev now r acc u = Inr (acc', u')"
      for r rs acc u acc' u'
      using inv_dispatch_row [OF _ _ run] I by simp
  qed
  then show "store_inv t" by simp
qed

text \<open>Delivery writes only columns of notifications that no job depends on.\<close>

lemma inv_update_notifications:
  assumes "preserves tables_ok (update_notifications p f)"
    and "\<And>n. n_job_id (f n) = n_job_id n \<and> n_event_type (f n) = n_event_type n"
  shows "preserves store_inv (update_notifications p f)"
  using assms(1)
proof (rule store_inv_intro)
  fix s x t assume s: "store_inv s" and "update_notifications p f s = Inr (x, t)"
  then have t: "t = s\<lparr>notification_outbox := upd_where p f (notification_outbox s)\<rparr>" by (simp add: txn_simps)
  have "notified t k = notified s k" for k
    using assms(2) by (simp add: t notified_def map_filter_upd_where)
  with s show "rows_inv t" by (simp add: rows_inv_def job_inv_def store_inv_def t view_simps)
qed (rule preserves_intros)

lemma inv_delivery [preserves_intros]:
  "preserves store_inv (mark_sent nid now)" "preserves store_inv (reschedule nid due err)"
  "preserves store_inv (notification_mark_failed nid err)"
  unfolding mark_sent_def reschedule_def notification_mark_failed_def
  by (rule inv_update_notifications, rule tables_update_notifications; simp)+

lemma inv_batches [preserves_intros]:
  "preserves store_inv (redeliver_txn ev cutoff now_at n)" "preserves store_inv (promote_txn ev now n)"
  "preserves store_inv (reap_txn ev now n)" "preserves store_inv (expire_txn ev cfg now n)"
  "preserves store_inv (deliver_txn de cfg ev now n)"
  unfolding redeliver_txn_def promote_txn_def reap_txn_def expire_txn_def
  by (intro preserves_intros preserves_deliver_txn; (unfold on_failure_def Let_def)?; intro preserves_intros)+

end
