(* ===== verification/Worker.thy ===== *)
theory Worker
  imports Execution Catalog Scheduler Codec
begin

text \<open>
  The control flow of \<^verbatim>\<open>job_execution_service.py\<close> (\<^verbatim>\<open>execute\<close> and the methods it
  awaits), of \<^verbatim>\<open>app/workers/worker.py\<close> and of the loop of \<^verbatim>\<open>app/workers/scheduler.py\<close>.

  A worker shares the store with every other process. Whatever the others do, including this
  execution's own heartbeat task, happens while a coroutine is suspended; the model applies
  \<open>x_others\<close>, an arbitrary function on the world, before every transaction and during every
  sleep. The world's Redis component has any type, so \<open>x_others\<close>, the clock, the
  session and the random readings may depend on a history of any kind. \<open>x_cancelled\<close> says where the
  shutdown of the worker cancels the task: \<open>CancelledError\<close> is then raised at that await.
\<close>

record 'r execution_env =
  x_worker_id :: string
  x_others :: "'r world \<Rightarrow> 'r world"
  x_clock :: "'r world \<Rightarrow> datetime"
  x_session :: "'r world \<Rightarrow> session_env"
  x_random :: "'r world \<Rightarrow> pyfloat"
  x_error_text :: "exn \<Rightarrow> string"
  x_heartbeat :: "'r world \<Rightarrow> exn + unit"
  x_cancelled :: "'r world \<Rightarrow> bool"

text \<open>
  \<^verbatim>\<open>async with self._session_factory() as session, session.begin()\<close>. The task can be
  cancelled at the await that opens the transaction and at the one that waits for its commit, when
  the server may have committed it already.
\<close>

definition session_begin ::
  "'r execution_env \<Rightarrow> (session_env \<Rightarrow> datetime \<Rightarrow> 'a db_txn) \<Rightarrow> ('r world, exn, 'a) io" where
  "session_begin x m = (\<lambda>w. let w1 = x_others x w in
     if x_cancelled x w1 then (Inl CancelledError, w1)
     else case run_txn (m (x_session x w1) (x_clock x w1)) w1 of (r, w2) \<Rightarrow>
       (if x_cancelled x w2 then Inl CancelledError else r, w2))"

section \<open>The execution context\<close>

definition check_cancelled :: "'r execution_env \<Rightarrow> uuid \<Rightarrow> ('r world, exn, unit) io" where
  "check_cancelled x job_id =
     io_bind (session_begin x (\<lambda>ev now. cancellation_requested job_id)) (\<lambda>requested.
     if requested then io_raise JobCancelledError else io_return ())"

definition exec_report_progress ::
  "'r execution_env \<Rightarrow> settings \<Rightarrow> uuid \<Rightarrow> int \<Rightarrow> ('r world, exn, unit) io" where
  "exec_report_progress x cfg job_id progress =
     session_begin x (\<lambda>ev now. report_progress cfg (x_worker_id x) job_id progress now)"

definition exec_sleep :: "'r execution_env \<Rightarrow> pyfloat \<Rightarrow> ('r world, exn, unit) io" where
  "exec_sleep x seconds = (\<lambda>w. let w1 = x_others x w in (if x_cancelled x w1 then Inl CancelledError else Inr (), w1))"

definition context_of ::
  "'r execution_env \<Rightarrow> settings \<Rightarrow> uuid \<Rightarrow> int \<Rightarrow> 'r world execution_context" where
  "context_of x cfg job_id attempt_number =
     \<lparr>ctx_job_id = uuid_str job_id, ctx_attempt = attempt_number, ctx_settings = cfg,
      ctx_check_cancelled = check_cancelled x job_id,
      ctx_report_progress = exec_report_progress x cfg job_id, ctx_sleep = exec_sleep x\<rparr>"

section \<open>Outcomes\<close>

definition handle_retryable ::
  "'r redis \<Rightarrow> 'r execution_env \<Rightarrow> settings \<Rightarrow> uuid \<Rightarrow> uuid \<Rightarrow> int \<Rightarrow> int \<Rightarrow> string \<Rightarrow> string \<Rightarrow>
   ('r world, exn, unit) io" where
  "handle_retryable rc x cfg job_id attempt_id attempt_number max_attempts code message =
     io_bind (session_begin x (\<lambda>ev now. cancellation_requested job_id)) (\<lambda>requested.
     if requested then
       session_begin x (\<lambda>ev now. finalize_cancelled ev (x_worker_id x) job_id attempt_id now)
     else if attempt_number \<ge> max_attempts then
       io_bind (session_begin x (\<lambda>ev now.
          finalize_failed ev (x_worker_id x) job_id attempt_id code message True now)) (\<lambda>won.
       if won then run_redis (dead_letter rc (redis_queue_namespace cfg) (uuid_str job_id))
       else io_return ())
     else (\<lambda>w.
       (case compute_backoff_seconds attempt_number cfg (x_random x w) of
          Inl e \<Rightarrow> (Inl e, w)
        | Inr backoff \<Rightarrow> (case timedelta_float backoff of
            Inl e \<Rightarrow> (Inl e, w)
          | Inr delta \<Rightarrow> (case datetime_add (x_clock x w) delta of
              Inl e \<Rightarrow> (Inl e, w)
            | Inr due \<Rightarrow> session_begin x (\<lambda>ev now.
                exec_schedule_retry ev (x_worker_id x) job_id attempt_id code message due now) w)))))"

text \<open>The \<^verbatim>\<open>except\<close> clauses of \<^verbatim>\<open>execute\<close>, in their order, and its
  \<^verbatim>\<open>else\<close> clause. The cancellation of the task is a \<^verbatim>\<open>BaseException\<close>, which no
  clause catches.\<close>

definition on_outcome ::
  "'r redis \<Rightarrow> 'r execution_env \<Rightarrow> settings \<Rightarrow> uuid \<Rightarrow> uuid \<Rightarrow> int \<Rightarrow> int \<Rightarrow> exn + dict \<Rightarrow>
   ('r world, exn, unit) io" where
  "on_outcome rc x cfg job_id attempt_id attempt_number max_attempts outcome =
     (case outcome of
        Inl CancelledError \<Rightarrow> io_raise CancelledError
      | Inl JobCancelledError \<Rightarrow>
          session_begin x (\<lambda>ev now. finalize_cancelled ev (x_worker_id x) job_id attempt_id now)
      | Inl (NonRetryableError code message) \<Rightarrow>
          io_bind (session_begin x (\<lambda>ev now.
             finalize_failed ev (x_worker_id x) job_id attempt_id code message False now)) (\<lambda>_. io_return ())
      | Inl (RetryableError code message) \<Rightarrow>
          handle_retryable rc x cfg job_id attempt_id attempt_number max_attempts code message
      | Inl error \<Rightarrow>
          handle_retryable rc x cfg job_id attempt_id attempt_number max_attempts
            ''UNEXPECTED_ERROR'' (x_error_text x error)
      | Inr result \<Rightarrow>
          session_begin x (\<lambda>ev now. finalize_succeeded ev (x_worker_id x) job_id attempt_id result now))"

text \<open>An exception of the heartbeat task is raised by the \<^verbatim>\<open>finally\<close> clause that awaits it,
  after the outcome was written.\<close>

definition execute ::
  "'r redis \<Rightarrow> 'r execution_env \<Rightarrow> settings \<Rightarrow> uuid \<Rightarrow> ('r world, exn, bool) io" where
  "execute rc x cfg job_id =
     io_bind (session_begin x (\<lambda>ev now. exec_claim ev cfg (x_worker_id x) job_id now)) (\<lambda>claim.
     case claim of None \<Rightarrow> io_return False
     | Some (attempt_number, attempt_id, snapshot) \<Rightarrow> (\<lambda>w.
       (case get_handler (snap_type snapshot) (snap_payload snapshot)
               (context_of x cfg job_id attempt_number) w of (outcome, w1) \<Rightarrow>
        (case on_outcome rc x cfg job_id attempt_id attempt_number (snap_max_attempts snapshot)
                outcome w1 of (done, w2) \<Rightarrow>
         (case x_heartbeat x w2 of
            Inl e \<Rightarrow> (Inl e, w2)
          | Inr _ \<Rightarrow> (case done of Inl e \<Rightarrow> (Inl e, w2) | Inr _ \<Rightarrow> (Inr True, w2)))))))"

text \<open>\<open>timeouts\<close>: how often \<^verbatim>\<open>wait_for\<close> timed out before the stop event was set.\<close>

primrec heartbeat_loop ::
  "'r execution_env \<Rightarrow> settings \<Rightarrow> uuid \<Rightarrow> nat \<Rightarrow> ('r world, exn, unit) io" where
  "heartbeat_loop x cfg job_id 0 = io_return ()"
| "heartbeat_loop x cfg job_id (Suc timeouts) =
     io_bind (session_begin x (\<lambda>ev now. exec_heartbeat cfg (x_worker_id x) job_id now))
       (\<lambda>_. heartbeat_loop x cfg job_id timeouts)"

section \<open>The worker's loop\<close>

text \<open>Every exception ends in the log; an id that does not parse raises \<^verbatim>\<open>ValueError\<close>. Only
  the cancellation of the task leaves \<^verbatim>\<open>_process\<close>.\<close>

definition process ::
  "'r redis \<Rightarrow> 'r execution_env \<Rightarrow> settings \<Rightarrow> string \<Rightarrow> ('r world, exn, unit) io" where
  "process rc x cfg job_id w =
     (case uuid_parse job_id of Inl _ \<Rightarrow> (Inr (), w)
      | Inr i \<Rightarrow> (case execute rc x cfg i w of
          (Inl CancelledError, w1) \<Rightarrow> (Inl CancelledError, w1)
        | (_, w1) \<Rightarrow> (Inr (), w1)))"

text \<open>\<open>n\<close> iterations of \<^verbatim>\<open>_consume_loop\<close>; a \<^verbatim>\<open>RedisError\<close> is logged and slept
  over, any other exception of the client, the cancellation of the task among them, ends the loop.\<close>

fun consume_loop ::
  "nat \<Rightarrow> 'r redis \<Rightarrow> 'r execution_env \<Rightarrow> settings \<Rightarrow> ('r world, exn, unit) io" where
  "consume_loop 0 rc x cfg w = (Inr (), w)"
| "consume_loop (Suc n) rc x cfg w =
     (case run_redis (consume rc (redis_queue_namespace cfg) (worker_poll_timeout_seconds cfg)) w of
        (Inl (RedisError _), w1) \<Rightarrow>
          io_bind (exec_sleep x (worker_error_backoff_seconds cfg)) (\<lambda>_. consume_loop n rc x cfg) w1
      | (Inl e, w1) \<Rightarrow> (Inl e, w1)
      | (Inr None, w1) \<Rightarrow> consume_loop n rc x cfg w1
      | (Inr (Some job_id), w1) \<Rightarrow> io_bind (process rc x cfg job_id) (\<lambda>_. consume_loop n rc x cfg) w1)"

text \<open>
  \<^verbatim>\<open>Worker.run\<close>: the consumers run until the stop event, then their tasks are cancelled and
  awaited, whatever each raises. There are \<open>worker_concurrency\<close> of
  them, and \<open>counts k\<close> is how many iterations the \<open>k\<close>th begins. A consumer meets what the
  others do in \<^const>\<open>x_others\<close>, so that they can be listed one after the other.
\<close>

definition worker_run ::
  "(nat \<Rightarrow> nat) \<Rightarrow> 'r redis \<Rightarrow> 'r execution_env \<Rightarrow> settings \<Rightarrow> 'r world \<Rightarrow> 'r world" where
  "worker_run counts rc x cfg w =
     fold (\<lambda>k w. snd (consume_loop (counts k) rc x cfg w)) [0..<nat (worker_concurrency cfg)] w"

section \<open>The scheduler's loop\<close>

text \<open>\<open>n\<close> iterations of \<^verbatim>\<open>Scheduler.run\<close>: the exception a tick raises is logged. The wait
  between two ticks lets the others run.\<close>

fun scheduler_run ::
  "nat \<Rightarrow> ('r world \<Rightarrow> 'r world) \<Rightarrow> (nat \<Rightarrow> ('r world, exn, unit) io) \<Rightarrow> 'r world \<Rightarrow> 'r world" where
  "scheduler_run 0 others ticks w = w"
| "scheduler_run (Suc n) others ticks w = scheduler_run n others ticks (others (snd (ticks n w)))"

end
