(* ===== verification/System.thy ===== *)
theory System
  imports Preservation Worker
begin

text \<open>
  The whole program as a transition system over the store. \<open>db_step\<close> has one rule per
  transaction any process of the program commits, with every parameter (worker, clock, session,
  request) left open: API processes, workers and schedulers of any number interleave freely.
  \<open>reachable\<close> are the stores a database starting empty can be in.

  The second half connects the control flow of the processes to it: whatever
  \<^const>\<open>execute\<close>, \<^const>\<open>consume_loop\<close>, \<^const>\<open>tick\<close>, \<^const>\<open>scheduler_run\<close> and
  \<^const>\<open>submit\<close> do to the store, including what a failure leaves behind, is a sequence of these
  steps.
\<close>

section \<open>Steps\<close>

inductive db_step :: "store \<Rightarrow> store \<Rightarrow> bool" where
  submit: "submit_create ev cfg u ty pl pr mx k now s = Inr (x1, t) \<Longrightarrow> db_step s t"
| cancel: "cancel ev i u why now s = Inr (x2, t) \<Longrightarrow> db_step s t"
| claim: "exec_claim ev cfg w i now s = Inr (x3, t) \<Longrightarrow> db_step s t"
| heartbeat: "exec_heartbeat cfg w i now s = Inr (x4, t) \<Longrightarrow> db_step s t"
| progress: "report_progress cfg w i p now s = Inr (x5, t) \<Longrightarrow> db_step s t"
| succeed: "finalize_succeeded ev w i aid res now s = Inr (x6, t) \<Longrightarrow> db_step s t"
| fail: "finalize_failed ev w i aid c msg dl now s = Inr (x7, t) \<Longrightarrow> db_step s t"
| retry: "exec_schedule_retry ev w i aid c msg due now s = Inr (x8, t) \<Longrightarrow> db_step s t"
| stop: "finalize_cancelled ev w i aid now s = Inr (x9, t) \<Longrightarrow> db_step s t"
| dispatch: "dispatch_txn ev now n s = Inr (x10, t) \<Longrightarrow> db_step s t"
| redeliver: "redeliver_txn ev cutoff now_at n s = Inr (x11, t) \<Longrightarrow> db_step s t"
| promote: "promote_txn ev now n s = Inr (x12, t) \<Longrightarrow> db_step s t"
| reap: "reap_txn ev now n s = Inr (x13, t) \<Longrightarrow> db_step s t"
| expire: "expire_txn ev cfg now n s = Inr (x14, t) \<Longrightarrow> db_step s t"
| deliver: "deliver_txn de cfg ev now n s = Inr (x15, t) \<Longrightarrow> db_step s t"

definition reachable :: "store \<Rightarrow> bool" where
  "reachable s \<longleftrightarrow> db_step\<^sup>*\<^sup>* empty_store s"

lemma keepsD: "keeps_lifecycle m \<Longrightarrow> m s = Inr (x, t) \<Longrightarrow> rows_evolve s t"
  by (auto simp: keeps_lifecycle_def)

lemma db_step_evolves: "db_step s t \<Longrightarrow> rows_evolve s t"
  by (erule db_step.cases; hypsubst; erule keepsD [rotated]; intro lifecycle_intros)

lemma db_step_inv: "store_inv s \<Longrightarrow> db_step s t \<Longrightarrow> store_inv t"
  by (erule db_step.cases; hypsubst; erule (1) preservesD [rotated]; intro preserves_intros)

lemma db_steps_evolve: "db_step\<^sup>*\<^sup>* s t \<Longrightarrow> rows_evolve s t"
  by (induction rule: rtranclp_induct) (auto intro: rows_evolve_refl rows_evolve_trans db_step_evolves)

lemma db_steps_inv: "db_step\<^sup>*\<^sup>* s t \<Longrightarrow> store_inv s \<Longrightarrow> store_inv t"
  by (induction rule: rtranclp_induct) (auto intro: db_step_inv)

lemma empty_store_inv: "store_inv empty_store"
  by (simp add: store_inv_def tables_ok_def rows_wf_def rows_inv_def empty_store_def)

lemma reachable_inv: "reachable s \<Longrightarrow> store_inv s"
  unfolding reachable_def using db_steps_inv empty_store_inv by blast

lemma reachable_steps: "reachable s \<Longrightarrow> db_step\<^sup>*\<^sup>* s t \<Longrightarrow> reachable t"
  unfolding reachable_def by (rule rtranclp_trans)

section \<open>The processes take these steps only\<close>

definition takes_steps :: "('r world, exn, 'a) io \<Rightarrow> bool" where
  "takes_steps m \<longleftrightarrow> (\<forall>w. db_step\<^sup>*\<^sup>* (w_store w) (w_store (snd (m w))))"

named_theorems steps_intros "programs whose effects on the store are steps"

lemma takes_stepsD: "takes_steps m \<Longrightarrow> m w = (r, w') \<Longrightarrow> db_step\<^sup>*\<^sup>* (w_store w) (w_store w')"
  unfolding takes_steps_def by (metis snd_conv)

lemma steps_pure [steps_intros]:
  "takes_steps (io_return x)" "takes_steps (io_raise e)" "takes_steps (io_lift r)" "takes_steps (run_redis m)"
  by (auto simp: takes_steps_def txn_simps run_redis_def split: prod.splits)

lemma steps_bind [steps_intros]:
  assumes "takes_steps m" and "\<And>x. takes_steps (f x)"
  shows "takes_steps (io_bind m f)"
  unfolding takes_steps_def
proof
  fix w
  obtain r w1 where run: "m w = (r, w1)" by (cases "m w")
  have "db_step\<^sup>*\<^sup>* (w_store w) (w_store w1)" using assms(1) run by (rule takes_stepsD)
  then show "db_step\<^sup>*\<^sup>* (w_store w) (w_store (snd (io_bind m f w)))"
    using assms(2) unfolding takes_steps_def
    by (cases r) (auto simp: txn_simps run intro: rtranclp_trans)
qed

lemma steps_then [steps_intros]:
  assumes "takes_steps m" and "\<And>r. takes_steps (f r)"
  shows "takes_steps (\<lambda>w. case m w of (r, w1) \<Rightarrow> f r w1)"
  unfolding takes_steps_def
proof
  fix w
  obtain r w1 where run: "m w = (r, w1)" by (cases "m w")
  have "db_step\<^sup>*\<^sup>* (w_store w1) (w_store (snd (f r w1)))" using assms(2) by (simp add: takes_steps_def)
  with takes_stepsD [OF assms(1) run]
  show "db_step\<^sup>*\<^sup>* (w_store w) (w_store (snd (case m w of (r, w1) \<Rightarrow> f r w1)))"
    unfolding run prod.case by (rule rtranclp_trans)
qed

lemma steps_for [steps_intros]: "(\<And>x. takes_steps (f x)) \<Longrightarrow> takes_steps (io_for f xs)"
  by (induction xs) (auto intro: steps_intros)

lemma steps_if [steps_intros]: "takes_steps a \<Longrightarrow> takes_steps b \<Longrightarrow> takes_steps (if c then a else b)"
  by simp

lemma steps_case_option [steps_intros]:
  "takes_steps a \<Longrightarrow> (\<And>x. takes_steps (f x)) \<Longrightarrow> takes_steps (case c of None \<Rightarrow> a | Some x \<Rightarrow> f x)"
  by (cases c) simp_all

lemma steps_case_prod [steps_intros]:
  "(\<And>x y. takes_steps (f x y)) \<Longrightarrow> takes_steps (case p of (x, y) \<Rightarrow> f x y)"
  by (cases p) simp

lemma steps_run_txn:
  assumes "\<And>s x t. m s = Inr (x, t) \<Longrightarrow> db_step\<^sup>*\<^sup>* s t"
  shows "takes_steps (run_txn m)"
  using assms by (auto simp: takes_steps_def run_txn_def split: sum.splits)

lemma steps_transactions [steps_intros]:
  "takes_steps (run_txn (dispatch_txn ev now n))" "takes_steps (run_txn (redeliver_txn ev cutoff now_at n))"
  "takes_steps (run_txn (promote_txn ev now n))" "takes_steps (run_txn (reap_txn ev now n))"
  "takes_steps (run_txn (expire_txn ev cfg now n))" "takes_steps (run_txn (deliver_txn de cfg ev now n))"
  "takes_steps (run_txn (exec_claim ev cfg w i now))" "takes_steps (run_txn (exec_heartbeat cfg w i now))"
  "takes_steps (run_txn (report_progress cfg w i p now))"
  "takes_steps (run_txn (finalize_succeeded ev w i aid res now))"
  "takes_steps (run_txn (finalize_failed ev w i aid c msg dl now))"
  "takes_steps (run_txn (exec_schedule_retry ev w i aid c msg due now))"
  "takes_steps (run_txn (finalize_cancelled ev w i aid now))"
  by (rule steps_run_txn, blast intro: db_step.intros)+

lemma steps_cancellation_requested [steps_intros]: "takes_steps (run_txn (cancellation_requested i))"
  by (rule steps_run_txn) (auto simp: cancellation_requested_def txn_simps)

lemma steps_services [steps_intros]:
  "takes_steps (dispatch_pending rc cfg ev now n)" "takes_steps (redeliver_stuck rc cfg ev now now_at n)"
  "takes_steps (promote_due rc cfg ev now n)" "takes_steps (reap_expired rc cfg ev now n)"
  "takes_steps (expire_stale cfg ev now n)" "takes_steps (dispatch_due de cfg ev now n)"
  unfolding dispatch_pending_def redeliver_stuck_def promote_due_def reap_expired_def expire_stale_def
    dispatch_due_def publish_all_def
  by (intro steps_intros)+

lemma steps_tick [steps_intros]: "takes_steps (tick rc cfg de evs nows now_at)"
  unfolding tick_def by (intro steps_intros)

text \<open>
  A process that shares the store with others. Its lemmas hold of a worker or a scheduler
  whatever the others are, as long as they too take only steps of the program.
\<close>

locale shared_store =
  fixes others :: "'r world \<Rightarrow> 'r world"
  assumes others_step: "db_step\<^sup>*\<^sup>* (w_store w) (w_store (others w))"
begin

lemma steps_session_begin:
  assumes "x_others x = others" and "\<And>ev now. takes_steps (run_txn (m ev now) :: ('r world, exn, 'a) io)"
  shows "takes_steps (session_begin x m)"
  unfolding takes_steps_def
proof
  fix w
  let ?v = "others w" and ?m = "m (x_session x (others w)) (x_clock x (others w))"
  have "db_step\<^sup>*\<^sup>* (w_store ?v) (w_store (snd (run_txn ?m ?v)))" using assms(2) by (simp add: takes_steps_def)
  with others_step [of w] have "db_step\<^sup>*\<^sup>* (w_store w) (w_store (snd (run_txn ?m ?v)))" by (rule rtranclp_trans)
  then show "db_step\<^sup>*\<^sup>* (w_store w) (w_store (snd (session_begin x m w)))"
    using others_step [of w] by (cases "run_txn ?m ?v") (simp add: session_begin_def Let_def assms(1))
qed

lemma steps_context:
  assumes "x_others x = others"
  shows "takes_steps (check_cancelled x i)" "takes_steps (exec_report_progress x cfg i p)"
    "takes_steps (exec_sleep x secs)"
  unfolding check_cancelled_def exec_report_progress_def
  by (intro steps_intros steps_session_begin [OF assms])+
     (simp add: takes_steps_def exec_sleep_def Let_def assms others_step)

lemma steps_run_steps:
  assumes "x_others x = others"
  shows "takes_steps (run_steps n secs (context_of x cfg i k))"
  unfolding run_steps_def context_of_def
  by (simp, intro steps_intros steps_context [OF assms])

lemma steps_handler:
  assumes "x_others x = others"
  shows "takes_steps (get_handler ty pl (context_of x cfg i k))"
  by (cases ty; simp add: handle_sleep_def handle_report_def handle_flaky_def handle_always_fail_def
        handle_llm_summary_def, intro steps_intros steps_run_steps [OF assms])
     (simp_all add: context_of_def steps_context [OF assms])

lemma steps_handle_retryable:
  assumes "x_others x = others"
  shows "takes_steps (handle_retryable rc x cfg i aid n mx c msg)"
proof -
  have backoff: "takes_steps (\<lambda>w. case compute_backoff_seconds n cfg (x_random x w) of Inl e \<Rightarrow> (Inl e, w)
      | Inr b \<Rightarrow> (case timedelta_float b of Inl e \<Rightarrow> (Inl e, w)
        | Inr d \<Rightarrow> (case datetime_add (x_clock x w) d of Inl e \<Rightarrow> (Inl e, w)
          | Inr due \<Rightarrow> session_begin x (\<lambda>ev now. exec_schedule_retry ev (x_worker_id x) i aid c msg due now) w)))"
    unfolding takes_steps_def
  proof
    fix w
    have "takes_steps (session_begin x (\<lambda>ev now. exec_schedule_retry ev (x_worker_id x) i aid c msg due now))" for due
      by (intro steps_session_begin [OF assms] steps_intros)
    then show "db_step\<^sup>*\<^sup>* (w_store w) (w_store (snd (case compute_backoff_seconds n cfg (x_random x w) of
        Inl e \<Rightarrow> (Inl e, w) | Inr b \<Rightarrow> (case timedelta_float b of Inl e \<Rightarrow> (Inl e, w)
        | Inr d \<Rightarrow> (case datetime_add (x_clock x w) d of Inl e \<Rightarrow> (Inl e, w)
          | Inr due \<Rightarrow> session_begin x (\<lambda>ev now. exec_schedule_retry ev (x_worker_id x) i aid c msg due now) w)))))"
      by (auto simp: takes_steps_def split: sum.splits)
  qed
  show ?thesis unfolding handle_retryable_def
    by (intro steps_intros steps_session_begin [OF assms] backoff)
qed

lemma steps_on_outcome:
  assumes "x_others x = others"
  shows "takes_steps (on_outcome rc x cfg i aid n mx r)"
  unfolding on_outcome_def
  by (auto split: sum.split exn.split
      intro!: steps_intros steps_session_begin [OF assms] steps_handle_retryable [OF assms])

theorem execute_takes_steps:
  assumes "x_others x = others"
  shows "takes_steps (execute rc x cfg i)"
proof -
  have awaited: "takes_steps (\<lambda>w. case x_heartbeat x w of Inl e \<Rightarrow> (Inl e, w)
      | Inr _ \<Rightarrow> (case d of Inl e \<Rightarrow> (Inl e, w) | Inr _ \<Rightarrow> (Inr True, w)))" for d :: "exn + unit"
    by (auto simp: takes_steps_def split: sum.split)
  show ?thesis unfolding execute_def
    by (intro steps_intros steps_session_begin [OF assms] steps_handler [OF assms]
        steps_on_outcome [OF assms] awaited)
qed

lemma process_takes_steps:
  assumes "x_others x = others"
  shows "takes_steps (process rc x cfg m)"
  unfolding takes_steps_def
proof
  fix w
  show "db_step\<^sup>*\<^sup>* (w_store w) (w_store (snd (process rc x cfg m w)))"
  proof (cases "uuid_parse m")
    case (Inr i)
    obtain r w1 where run: "execute rc x cfg i w = (r, w1)" by (cases "execute rc x cfg i w")
    have "db_step\<^sup>*\<^sup>* (w_store w) (w_store w1)" using execute_takes_steps [OF assms] run by (rule takes_stepsD)
    then show ?thesis using Inr run by (simp add: process_def split: sum.split exn.split)
  qed (simp add: process_def)
qed

lemma consume_loop_takes_steps:
  assumes "x_others x = others"
  shows "takes_steps (consume_loop n rc x cfg)"
proof (induction n)
  case 0
  then show ?case by (simp add: takes_steps_def)
next
  case (Suc n)
  let ?take = "run_redis (consume rc (redis_queue_namespace cfg) (worker_poll_timeout_seconds cfg))"
  have sleep: "takes_steps (io_bind (exec_sleep x secs) (\<lambda>_. consume_loop n rc x cfg))" for secs
    by (intro steps_bind steps_context [OF assms] Suc)
  have job: "takes_steps (io_bind (process rc x cfg m) (\<lambda>_. consume_loop n rc x cfg))" for m
    by (intro steps_bind process_takes_steps [OF assms] Suc)
  show ?case unfolding takes_steps_def
  proof
    fix w
    obtain r w1 where run: "?take w = (r, w1)" by (cases "?take w")
    have same: "w_store w1 = w_store w" using run by (auto simp: run_redis_def split: prod.splits)
    have from_w1: "db_step\<^sup>*\<^sup>* (w_store w) (w_store (snd (m w1)))" if "takes_steps m" for m :: "('r world, exn, unit) io"
      using that unfolding takes_steps_def same [symmetric] by blast
    show "db_step\<^sup>*\<^sup>* (w_store w) (w_store (snd (consume_loop (Suc n) rc x cfg w)))"
      using from_w1 [OF sleep] from_w1 [OF job] from_w1 [OF Suc] same
      by (simp add: run split: sum.split exn.split option.split)
  qed
qed

lemma worker_run_steps:
  assumes "x_others x = others"
  shows "db_step\<^sup>*\<^sup>* (w_store w) (w_store (worker_run counts rc x cfg w))"
proof -
  have one: "db_step\<^sup>*\<^sup>* (w_store w) (w_store (snd (consume_loop n rc x cfg w)))" for n w
    using consume_loop_takes_steps [OF assms, of n rc cfg] by (simp add: takes_steps_def)
  have "db_step\<^sup>*\<^sup>* (w_store w) (w_store (fold (\<lambda>k w. snd (consume_loop (counts k) rc x cfg w)) ks w))" for ks
    by (induction ks arbitrary: w) (auto intro: rtranclp_trans one)
  then show ?thesis by (simp add: worker_run_def)
qed

lemma scheduler_run_takes_steps:
  assumes "\<And>k. takes_steps (ticks k)"
  shows "db_step\<^sup>*\<^sup>* (w_store w) (w_store (scheduler_run n others ticks w))"
proof (induction n arbitrary: w)
  case 0
  then show ?case by simp
next
  case (Suc n)
  have "db_step\<^sup>*\<^sup>* (w_store w) (w_store (snd (ticks n w)))" using assms by (simp add: takes_steps_def)
  with others_step [of "snd (ticks n w)"] Suc.IH show ?case by (auto intro: rtranclp_trans)
qed

end

text \<open>A worker beside a scheduler, and a scheduler beside such a worker.\<close>

interpretation beside_scheduler: shared_store "\<lambda>w. snd (tick rc cfg de evs nows now_at w)"
  for rc :: "'r redis" and cfg de evs nows now_at
  using steps_tick [of rc cfg de evs nows now_at] by unfold_locales (simp add: takes_steps_def)

interpretation beside_worker: shared_store "\<lambda>w. snd (consume_loop n rc
    (x\<lparr>x_others := \<lambda>w. snd (tick rc cfg de evs nows now_at w)\<rparr>) cfg w)"
  for n and rc :: "'r redis" and x cfg de evs nows now_at
  using beside_scheduler.consume_loop_takes_steps
    [of "x\<lparr>x_others := \<lambda>w. snd (tick rc cfg de evs nows now_at w)\<rparr>" rc cfg de evs nows now_at n rc cfg]
  by unfold_locales (simp add: takes_steps_def)

text \<open>A submission, with the requests of others committing in its two gaps.\<close>

lemma submit_takes_steps:
  assumes "\<And>s. db_step\<^sup>*\<^sup>* s (between1 s)" and "\<And>s. db_step\<^sup>*\<^sup>* s (between2 s)"
  shows "db_step\<^sup>*\<^sup>* s (snd (submit ev cfg between1 between2 rq now s))"
proof -
  have "db_step\<^sup>*\<^sup>* s (between2 (between1 s))" using assms rtranclp_trans by metis
  moreover have "db_step\<^sup>*\<^sup>* s t" if "submit_create ev cfg u ty pl pr mx k now (between1 s) = Inr (j, t)"
    for u ty pl pr mx k j t
    using assms(1) [of s] db_step.submit [OF that] by (rule rtranclp.rtrancl_into_rtrancl)
  ultimately show ?thesis using assms(1) [of s]
    by (auto simp: submit_def Let_def split: sum.splits option.splits prod.splits)
qed

end
