(* ===== verification/Demo.thy ===== *)
theory Demo
  imports System
begin

text \<open>
  Concrete runs of the program, on which the theorems about reachable stores are applied: a
  report job is submitted, dispatched and claimed, and then finishes, is put off to retry, or is
  cancelled; or it is cancelled before it is dispatched. Each store is what the transaction
  computes from the one before.
\<close>

definition demo_env :: session_env where
  "demo_env = \<lparr>server_now = 100, uuid7 = (\<lambda>n. word_of_nat (n + 1)), row_locked = (\<lambda>_. False),
     orm_synchronize = True\<rparr>"

definition demo_submit :: "job db_txn" where
  "demo_submit = submit_create demo_env default_settings ''alice'' REPORT [(''pages'', JInt 2)] NORMAL 3 None 100"

definition demo_dispatch :: "(string \<times> JobPriority) list db_txn" where
  "demo_dispatch = dispatch_txn demo_env 200 10"

definition demo_claim :: "(int \<times> uuid \<times> job_snapshot) option db_txn" where
  "demo_claim = exec_claim demo_env default_settings ''w1'' 1 300"

definition demo_succeed :: "unit db_txn" where
  "demo_succeed = finalize_succeeded demo_env ''w1'' 1 5 [(''pages'', JInt 2)] 400"

definition demo_retry :: "unit db_txn" where
  "demo_retry = exec_schedule_retry demo_env ''w1'' 1 5 ''BUSY'' ''try later'' 5000 400"

definition demo_cancel :: "datetime \<Rightarrow> cancel_outcome db_txn" where
  "demo_cancel now = cancel demo_env 1 ''alice'' (Some ''changed my mind'') now"

section \<open>Submitted, dispatched, claimed\<close>

definition demo_job :: job where
  "demo_job = new_job 1 ''alice'' REPORT [(''pages'', JInt 2)] NORMAL 3 None 100"

definition demo_event :: "uuid \<Rightarrow> JobEventType \<Rightarrow> JobStatus option \<Rightarrow> JobStatus option \<Rightarrow> dict \<Rightarrow> job_event" where
  "demo_event i ty a b d = \<lparr>e_id = i, e_job_id = 1, e_event_type = ty, e_from_status = a, e_to_status = b,
     e_detail = d, e_created_at = 100\<rparr>"

definition demo1 :: store where
  "demo1 = \<lparr>jobs = [demo_job], job_attempts = [],
     job_events = [demo_event 2 EV_SUBMITTED None (Some PENDING)
       [(''type'', JStr ''report''), (''priority'', JStr ''normal'')]],
     dispatch_outbox = [\<lparr>o_id = 3, o_job_id = 1, o_status = O_PENDING, o_attempts = 0, o_created_at = 100,
       o_published_at = None\<rparr>],
     notification_outbox = [], uuid_calls = 3\<rparr>"

definition queued_job :: job where
  "queued_job = demo_job\<lparr>j_status := QUEUED, j_last_dispatched_at := Some 200, j_queued_at := Some 200,
     j_updated_at := 200\<rparr>"

definition demo2 :: store where
  "demo2 = \<lparr>jobs = [queued_job], job_attempts = [],
     job_events = job_events demo1 @ [demo_event 4 EV_QUEUED (Some PENDING) (Some QUEUED) []],
     dispatch_outbox = [\<lparr>o_id = 3, o_job_id = 1, o_status = O_PUBLISHED, o_attempts = 1, o_created_at = 100,
       o_published_at = Some 200\<rparr>],
     notification_outbox = [], uuid_calls = 4\<rparr>"

definition running_job :: job where
  "running_job = queued_job\<lparr>j_status := RUNNING, j_attempts := 1, j_locked_by := Some ''w1'',
     j_lock_expires_at := Some 60000300, j_heartbeat_at := Some 300, j_started_at := Some 300, j_updated_at := 300\<rparr>"

definition demo_attempt :: job_attempt where
  "demo_attempt = \<lparr>a_id = 5, a_job_id = 1, a_attempt_number = 1, a_worker_id = ''w1'', a_status = RUNNING,
     a_started_at = 300, a_completed_at = None, a_error_code = None, a_error_message = None\<rparr>"

definition demo3 :: store where
  "demo3 = \<lparr>jobs = [running_job], job_attempts = [demo_attempt],
     job_events = job_events demo2 @ [demo_event 6 EV_STARTED None (Some RUNNING)
       [(''attempt'', JInt 1), (''worker_id'', JStr ''w1'')]],
     dispatch_outbox = dispatch_outbox demo2, notification_outbox = [], uuid_calls = 6\<rparr>"

lemma demo_runs:
  "demo_submit empty_store = Inr (demo_job, demo1)"
  "demo_dispatch demo1 = Inr ([(uuid_str 1, NORMAL)], demo2)"
  "demo_claim demo2 = Inr (Some (1, 5, \<lparr>snap_type = REPORT, snap_payload = [(''pages'', JInt 2)],
     snap_max_attempts = 3\<rparr>), demo3)"
  by code_simp+

section \<open>Finished, put off, cancelled\<close>

definition done_job :: job where
  "done_job = running_job\<lparr>j_status := SUCCEEDED, j_result := Some [(''pages'', JInt 2)], j_progress := 100,
     j_locked_by := None, j_lock_expires_at := None, j_completed_at := Some 400, j_updated_at := 400\<rparr>"

definition demo_note :: "uuid \<Rightarrow> JobEventType \<Rightarrow> JobStatus \<Rightarrow> dict option \<Rightarrow> datetime \<Rightarrow> notification" where
  "demo_note i ty st res now = \<lparr>n_id = i, n_job_id = 1, n_user_id = ''alice'', n_channel = LOG,
     n_destination = ''alice'', n_event_type = JobEventType_value ty,
     n_payload = notification_body demo_job ty st res None None, n_status = N_PENDING, n_attempts = 0,
     n_next_attempt_at = now, n_dedupe_key = dedupe_key_of 1 ty, n_last_error = None, n_created_at = 100,
     n_sent_at = None\<rparr>"

definition demo4 :: store where
  "demo4 = \<lparr>jobs = [done_job],
     job_attempts = [demo_attempt\<lparr>a_status := SUCCEEDED, a_completed_at := Some 400\<rparr>],
     job_events = job_events demo3 @ [demo_event 7 EV_SUCCEEDED None (Some SUCCEEDED) []],
     dispatch_outbox = dispatch_outbox demo2,
     notification_outbox = [demo_note 8 EV_SUCCEEDED SUCCEEDED (Some [(''pages'', JInt 2)]) 400],
     uuid_calls = 8\<rparr>"

definition retrying_job :: job where
  "retrying_job = running_job\<lparr>j_status := RETRYING, j_error_code := Some ''BUSY'',
     j_error_message := Some ''try later'', j_next_attempt_at := Some 5000, j_locked_by := None,
     j_lock_expires_at := None, j_updated_at := 400\<rparr>"

definition demo_retrying :: store where
  "demo_retrying = demo3\<lparr>jobs := [retrying_job],
     job_attempts := [demo_attempt\<lparr>a_status := FAILED, a_completed_at := Some 400,
       a_error_code := Some ''BUSY'', a_error_message := Some ''try later''\<rparr>],
     job_events := job_events demo3 @ [demo_event 7 EV_RETRY_SCHEDULED (Some RUNNING) (Some RETRYING)
       [(''error_code'', JStr ''BUSY''), (''next_attempt_at'', JStr (isoformat 5000))]],
     uuid_calls := 7\<rparr>"

definition cancelling_job :: job where
  "cancelling_job = running_job\<lparr>j_status := CANCELLING, j_cancellation_requested_at := Some 350,
     j_cancel_reason := Some ''changed my mind'', j_updated_at := 350\<rparr>"

definition demo_cancelling :: store where
  "demo_cancelling = demo3\<lparr>jobs := [cancelling_job],
     job_events := job_events demo3 @ [demo_event 7 EV_CANCEL_REQUESTED (Some RUNNING) (Some CANCELLING)
       [(''reason'', JStr ''changed my mind'')]], uuid_calls := 7\<rparr>"

definition cancelled_job :: job where
  "cancelled_job = demo_job\<lparr>j_status := CANCELLED, j_cancellation_requested_at := Some 150,
     j_cancel_reason := Some ''changed my mind'', j_completed_at := Some 150, j_updated_at := 150\<rparr>"

definition demo_cancelled :: store where
  "demo_cancelled = demo1\<lparr>jobs := [cancelled_job],
     job_events := job_events demo1 @ [demo_event 4 EV_CANCELLED (Some PENDING) (Some CANCELLED)
       [(''reason'', JStr ''changed my mind'')]],
     notification_outbox := [demo_note 5 EV_CANCELLED CANCELLED None 150], uuid_calls := 5\<rparr>"

lemma demo_due: "isoformat 5000 = ''1970-01-01T00:00:00.005000+00:00''"
proof -
  have day: "civil_of_days 0 = (1970, 1, 1)" by code_simp
  have us: "5000 div us_per_day = 0" "5000 mod us_per_day = 5000" by (simp_all add: us_per_day_def)
  have next_digit: "dec_digits (numeral k) v = dec_digits (pred_numeral k) (v div 10) @ [digit_char (v mod 10)]" for k v
    using dec_digits.simps(2) [of "pred_numeral k" v] unfolding numeral_eq_Suc [of k, symmetric] .
  show ?thesis unfolding isoformat_def us day Let_def prod.case by (simp add: next_digit digit_char_def)
qed

lemma demo_ends:
  "demo_succeed demo3 = Inr ((), demo4)"
  "demo_cancel 350 demo3 = Inr (\<lparr>found = True, outcome_status = Some CANCELLING, conflict = False\<rparr>, demo_cancelling)"
  "demo_cancel 150 demo1 = Inr (\<lparr>found = True, outcome_status = Some CANCELLED, conflict = False\<rparr>, demo_cancelled)"
  by code_simp+

lemma demo_put_off: "demo_retry demo3 = Inr ((), demo_retrying)"
  unfolding demo_retry_def exec_schedule_retry_def demo_retrying_def demo_due by code_simp

text \<open>The dispatcher meets the outbox row of a job that was cancelled before it.\<close>

definition demo_dead_dispatch :: store where
  "demo_dead_dispatch = demo_cancelled\<lparr>
     job_events := job_events demo_cancelled @ [demo_event 6 EV_QUEUED (Some PENDING) (Some QUEUED) []],
     dispatch_outbox := dispatch_outbox demo2, uuid_calls := 6\<rparr>"

lemma demo_dead_letters: "demo_dispatch demo_cancelled = Inr ([(uuid_str 1, NORMAL)], demo_dead_dispatch)"
  by code_simp

section \<open>All of them are reachable\<close>

lemma reachable_step: "reachable s \<Longrightarrow> db_step s t \<Longrightarrow> reachable t"
  unfolding reachable_def by (rule rtranclp.rtrancl_into_rtrancl)

lemma demo_steps:
  "db_step empty_store demo1" "db_step demo1 demo2" "db_step demo2 demo3" "db_step demo3 demo4"
  "db_step demo3 demo_retrying" "db_step demo3 demo_cancelling" "db_step demo1 demo_cancelled"
  "db_step demo_cancelled demo_dead_dispatch"
proof -
  show "db_step empty_store demo1" by (rule db_step.submit [OF demo_runs(1) [unfolded demo_submit_def]])
  show "db_step demo1 demo2" by (rule db_step.dispatch [OF demo_runs(2) [unfolded demo_dispatch_def]])
  show "db_step demo2 demo3" by (rule db_step.claim [OF demo_runs(3) [unfolded demo_claim_def]])
  show "db_step demo3 demo4" by (rule db_step.succeed [OF demo_ends(1) [unfolded demo_succeed_def]])
  show "db_step demo3 demo_retrying" by (rule db_step.retry [OF demo_put_off [unfolded demo_retry_def]])
  show "db_step demo3 demo_cancelling" by (rule db_step.cancel [OF demo_ends(2) [unfolded demo_cancel_def]])
  show "db_step demo1 demo_cancelled" by (rule db_step.cancel [OF demo_ends(3) [unfolded demo_cancel_def]])
  show "db_step demo_cancelled demo_dead_dispatch" by (rule db_step.dispatch [OF demo_dead_letters [unfolded demo_dispatch_def]])
qed

lemma demo_reachable: "reachable demo1" "reachable demo2" "reachable demo3" "reachable demo4"
  "reachable demo_retrying" "reachable demo_cancelling" "reachable demo_cancelled" "reachable demo_dead_dispatch"
proof -
  have "reachable empty_store" by (simp add: reachable_def)
  then show 1: "reachable demo1" using demo_steps(1) by (rule reachable_step)
  then show 2: "reachable demo2" using demo_steps(2) by (rule reachable_step)
  then show 3: "reachable demo3" using demo_steps(3) by (rule reachable_step)
  show "reachable demo4" "reachable demo_retrying" "reachable demo_cancelling" "reachable demo_cancelled"
    by (rule reachable_step, rule 1 3, rule demo_steps)+
  show "reachable demo_dead_dispatch"
    by (rule reachable_step [OF reachable_step [OF 1 demo_steps(7)] demo_steps(8)])
qed

end
