(* ===== verification/Api.thy ===== *)
theory Api
  imports Pagination Submission Queue
begin

text \<open>
  \<^verbatim>\<open>app/api\<close> and the exception handlers of \<^verbatim>\<open>app/main.py\<close>: one definition per route,
  from the validated request to the response. FastAPI's parsing of the request is not modelled:
  a route gets typed arguments, and of their validation the constraints the source states
  (\<^verbatim>\<open>ge\<close>, \<^verbatim>\<open>le\<close>). A response is the status code with either the response model or
  the message of \<^verbatim>\<open>ErrorResponse\<close>; an exception nobody handles is the framework's 500.
\<close>

datatype 'a response = Respond int 'a | Problem int string

fun status_code :: "'a response \<Rightarrow> int" where
  "status_code (Respond c _) = c"
| "status_code (Problem c _) = c"

text \<open>\<^verbatim>\<open>str(error)\<close> of the exceptions a route turns into a response.\<close>

fun error_text :: "exn \<Rightarrow> string" where
  "error_text (ValueError m) = m"
| "error_text (UnknownJobTypeError m) = m"
| "error_text (PayloadTooLargeError m) = m"
| "error_text (InvalidCursorError m) = m"
| "error_text (TooManyActiveJobsError n) = ''too many active jobs for this user, the limit is '' @ int_str n"
| "error_text _ = ''''"

definition http_exception_handler :: "int \<Rightarrow> string \<Rightarrow> 'a response" where
  "http_exception_handler code detail = Problem code detail"

definition validation_exception_handler :: "'a response" where
  "validation_exception_handler = Problem 422 ''request validation failed''"

definition unhandled :: "'a response" where
  "unhandled = Problem 500 ''Internal Server Error''"

section \<open>Dependencies\<close>

definition DEFAULT_USER_ID :: string where
  "DEFAULT_USER_ID = ''demo-user''"

definition current_user_id :: "string option \<Rightarrow> string" where
  "current_user_id x_user_id = (case x_user_id of None \<Rightarrow> DEFAULT_USER_ID
     | Some u \<Rightarrow> if u = [] then DEFAULT_USER_ID else u)"

section \<open>Requests and responses of the job routes\<close>

record job_submit =
  sub_type :: JobType
  sub_payload :: dict
  sub_priority :: JobPriority
  sub_max_attempts :: "int option"

definition JobSubmit_ok :: "job_submit \<Rightarrow> bool" where
  "JobSubmit_ok body \<longleftrightarrow> (case sub_max_attempts body of None \<Rightarrow> True | Some n \<Rightarrow> n \<ge> 1)"

record job_accepted =
  acc_job_id :: uuid
  acc_status :: JobStatus
  acc_status_url :: string

record cancel_request =
  cr_reason :: "string option"

record cancel_result =
  cx_job_id :: uuid
  cx_status :: JobStatus

record job_events_response =
  ev_items :: "job_event_read list"

definition EVENTS_LIMIT :: nat where
  "EVENTS_LIMIT = 200"

section \<open>Routes\<close>

definition submit_errors :: "exn \<Rightarrow> 'a response" where
  "submit_errors error = (case error of
       PayloadTooLargeError _ \<Rightarrow> http_exception_handler 413 (error_text error)
     | TooManyActiveJobsError _ \<Rightarrow> http_exception_handler 429 (error_text error)
     | _ \<Rightarrow> if is_ValueError error then http_exception_handler 422 (error_text error) else unhandled)"

definition submit_job ::
  "session_env \<Rightarrow> settings \<Rightarrow> (store \<Rightarrow> store) \<Rightarrow> (store \<Rightarrow> store) \<Rightarrow> job_submit \<Rightarrow> string option \<Rightarrow>
   string option \<Rightarrow> datetime \<Rightarrow> store \<Rightarrow> job_accepted response \<times> store" where
  "submit_job ev cfg between1 between2 body x_user_id idempotency_key now s =
     (if \<not> JobSubmit_ok body then (validation_exception_handler, s)
      else case submit ev cfg between1 between2
           \<lparr>rq_user_id = current_user_id x_user_id, rq_job_type = sub_type body,
            rq_payload = sub_payload body, rq_priority = sub_priority body,
            rq_max_attempts = sub_max_attempts body, rq_idempotency_key = idempotency_key\<rparr> now s of
        (Inl error, t) \<Rightarrow> (submit_errors error, t)
      | (Inr job, t) \<Rightarrow> (Respond 202 \<lparr>acc_job_id = j_id job, acc_status = j_status job,
          acc_status_url = ''/jobs/'' @ uuid_str (j_id job)\<rparr>, t))"

definition list_jobs_route ::
  "wide_text \<Rightarrow> string option \<Rightarrow> JobStatus option \<Rightarrow> JobType option \<Rightarrow> int option \<Rightarrow> string option \<Rightarrow>
   store \<Rightarrow> job_summary paginated_response response" where
  "list_jobs_route wide x_user_id status job_type limit cursor s =
     (let limit = (case limit of None \<Rightarrow> 50 | Some n \<Rightarrow> n) in
      if limit < 1 \<or> limit > 200 then validation_exception_handler
      else case list_jobs wide (current_user_id x_user_id) status job_type cursor (nat limit) s of
        Inl (InvalidCursorError m) \<Rightarrow> http_exception_handler 400 (error_text (InvalidCursorError m))
      | Inl _ \<Rightarrow> unhandled
      | Inr (page, _) \<Rightarrow> Respond 200 page)"

definition job_summary_route :: "string option \<Rightarrow> store \<Rightarrow> job_summary_counts response" where
  "job_summary_route x_user_id s =
     (case read_summary (current_user_id x_user_id) s of
        Inl _ \<Rightarrow> unhandled
      | Inr (counts, _) \<Rightarrow> Respond 200 counts)"

definition get_job :: "uuid \<Rightarrow> string option \<Rightarrow> store \<Rightarrow> job_read response" where
  "get_job job_id x_user_id s =
     (case read_get job_id (current_user_id x_user_id) s of
        Inl _ \<Rightarrow> unhandled
      | Inr (None, _) \<Rightarrow> http_exception_handler 404 ''job not found''
      | Inr (Some job, _) \<Rightarrow> Respond 200 job)"

definition cancel_job ::
  "session_env \<Rightarrow> uuid \<Rightarrow> cancel_request \<Rightarrow> string option \<Rightarrow> datetime \<Rightarrow> store \<Rightarrow>
   cancel_result response \<times> store" where
  "cancel_job ev job_id body x_user_id now s =
     (case cancel ev job_id (current_user_id x_user_id) (cr_reason body) now s of
        Inl _ \<Rightarrow> (unhandled, s)
      | Inr (outcome, t) \<Rightarrow>
        (if \<not> found outcome then http_exception_handler 404 ''job not found''
         else case outcome_status outcome of
           None \<Rightarrow> http_exception_handler 409
             ''the job has already reached a terminal state and cannot be cancelled''
         | Some status \<Rightarrow>
             if conflict outcome then http_exception_handler 409
               ''the job has already reached a terminal state and cannot be cancelled''
             else Respond (if status = CANCELLING then 202 else 200)
                    \<lparr>cx_job_id = job_id, cx_status = status\<rparr>, t))"

definition job_events_route :: "uuid \<Rightarrow> string option \<Rightarrow> store \<Rightarrow> job_events_response response" where
  "job_events_route job_id x_user_id s =
     (case read_events job_id (current_user_id x_user_id) EVENTS_LIMIT s of
        Inl _ \<Rightarrow> unhandled
      | Inr (None, _) \<Rightarrow> http_exception_handler 404 ''job not found''
      | Inr (Some events, _) \<Rightarrow> Respond 200 \<lparr>ev_items = events\<rparr>)"

section \<open>Health\<close>

record health_response =
  h_status :: string
  h_database :: string
  h_queue :: string

fun is_SQLAlchemyError :: "exn \<Rightarrow> bool" where
  "is_SQLAlchemyError IntegrityError = True"
| "is_SQLAlchemyError DataError = True"
| "is_SQLAlchemyError MultipleResultsFound = True"
| "is_SQLAlchemyError _ = False"

text \<open>\<open>select_one\<close> is what \<^verbatim>\<open>SELECT 1\<close> on the request's session gives.\<close>

definition health :: "exn + unit \<Rightarrow> 'r redis \<Rightarrow> 'r \<Rightarrow> health_response response \<times> 'r" where
  "health select_one rc r =
     (case (case select_one of Inr _ \<Rightarrow> Inr ''ok''
            | Inl e \<Rightarrow> if is_SQLAlchemyError e then Inr ''down'' else Inl e) of
        Inl e \<Rightarrow> (unhandled, r)
      | Inr database \<Rightarrow>
        (case queue_ping rc r of
           (Inr up, r') \<Rightarrow> (Respond 200 \<lparr>h_status = ''ok'', h_database = database,
              h_queue = (if up then ''ok'' else ''down'')\<rparr>, r')
         | (Inl (RedisError _), r') \<Rightarrow> (Respond 200 \<lparr>h_status = ''ok'', h_database = database,
              h_queue = ''down''\<rparr>, r')
         | (Inl _, r') \<Rightarrow> (unhandled, r')))"

end
