(* ===== verification/Idempotency.thy ===== *)
theory Idempotency
  imports System
begin

text \<open>
  The unique index on user and idempotency key, as an invariant of the store: no user has two jobs
  with the same key, whichever transactions have run. The locale says which statements have to keep
  a property of the store for every transaction of the program to keep it; nothing the program
  updates touches the identity columns of a job.
\<close>

locale identity_invariant =
  fixes P :: "store \<Rightarrow> bool"
  assumes update_jobs_keeps: "(\<And>j. p j \<Longrightarrow> same_identity j (f j)) \<Longrightarrow> preserves P (update_jobs p f)"
    and insert_job_keeps: "preserves P (insert_job j)"
    and other_tables: "preserves P (generate_uuid7 ev)" "preserves P (insert_attempt a)"
      "preserves P (insert_event e)" "preserves P (insert_dispatch d)"
      "preserves P (insert_notification_on_conflict n)" "preserves P (update_attempts pa fa)"
      "preserves P (update_dispatch pd fd)" "preserves P (update_notifications pn fn)"
begin

lemma update_job_where_keeps: "(\<And>j. same_identity j (f j)) \<Longrightarrow> preserves P (update_job_where p f)"
  unfolding update_job_where_def by (intro preserves_intros update_jobs_keeps)

lemma job_updates_keep:
  "preserves P (heartbeat jid w lease now)" "preserves P (update_progress jid w p lease now)"
  "preserves P (mark_redispatched jid now)" "preserves P (claim_for_execution jid w lease now)"
  "preserves P (mark_succeeded jid w res now)" "preserves P (job_mark_failed jid w c msg now dl)"
  "preserves P (finalize_cancelled_by_worker jid w now)"
  "preserves P (job_schedule_retry jid w c msg due now)" "preserves P (cancel_inactive jid reason now)"
  "preserves P (request_running_cancellation jid reason now)" "preserves P (mark_queued jid now)"
  "preserves P (requeue_expired_lease jid now)" "preserves P (fail_expired_lease jid c msg now dl)"
  "preserves P (move_retry_to_queued jid now)" "preserves P (job_expire jid now)"
  unfolding alive_updates_def ending_updates_def mark_redispatched_def claim_for_execution_def mark_queued_def
  by (intro preserves_intros update_job_where_keeps update_jobs_keeps; simp add: same_identity_def)+

lemma outboxes_keep:
  "preserves P (attempt_start ev jid n w now)" "preserves P (attempt_finish aid st now oc omsg)"
  "preserves P (event_record ev jid ty from to detail)" "preserves P (dispatch_add ev jid)"
  "preserves P (mark_published oid now)" "preserves P (mark_sent nid now)"
  "preserves P (reschedule nid due err)" "preserves P (notification_mark_failed nid err)"
  "preserves P (enqueue_terminal_notification ev job ety st res c msg now)"
  unfolding attempt_start_def attempt_finish_def event_record_def dispatch_add_def mark_published_def
    mark_sent_def reschedule_def notification_mark_failed_def enqueue_terminal_notification_def
    notification_enqueue_def Let_def
  by (intro preserves_intros other_tables)+

lemma deliver_keeps: "preserves P (deliver_txn de cfg ev now n)"
  by (intro preserves_deliver_txn outboxes_keep) (unfold on_failure_def Let_def, intro preserves_intros outboxes_keep)

lemma transactions_keep:
  "preserves P (exec_claim ev cfg w jid now)" "preserves P (exec_heartbeat cfg w jid now)"
  "preserves P (report_progress cfg w jid p now)" "preserves P (finalize_succeeded ev w jid aid res now)"
  "preserves P (finalize_failed ev w jid aid c msg dl now)"
  "preserves P (exec_schedule_retry ev w jid aid c msg due now)"
  "preserves P (finalize_cancelled ev w jid aid now)" "preserves P (submit_create ev cfg u ty pl pr mx k now)"
  "preserves P (cancel ev jid u reason now)" "preserves P (dispatch_txn ev now n)"
  "preserves P (redeliver_txn ev cutoff now_at n)" "preserves P (promote_txn ev now n)"
  "preserves P (reap_txn ev now n)" "preserves P (expire_txn ev cfg now n)"
  "preserves P (deliver_txn de cfg ev now n)"
  unfolding services_def dispatch_txn_def redeliver_txn_def promote_txn_def reap_txn_def expire_txn_def
  by (intro preserves_intros job_updates_keep outboxes_keep insert_job_keeps other_tables deliver_keeps)+

lemma db_step_keeps: "P s \<Longrightarrow> db_step s t \<Longrightarrow> P t"
  by (erule db_step.cases; hypsubst; erule (1) preservesD [rotated]; rule transactions_keep)

lemma reachable_keeps:
  assumes "P empty_store" and "reachable s"
  shows "P s"
  using assms(2) unfolding reachable_def
  by (induction rule: rtranclp_induct) (auto intro: assms(1) db_step_keeps)

end

section \<open>One job for a key\<close>

definition key_of :: "job \<Rightarrow> (string \<times> string) option" where
  "key_of j = map_option (\<lambda>k. (j_user_id j, k)) (j_idempotency_key j)"

definition keys_ok :: "store \<Rightarrow> bool" where
  "keys_ok s \<longleftrightarrow> distinct (filter (\<lambda>k. k \<noteq> None) (map key_of (jobs s)))"

lemma key_of_eq_Some: "key_of j = Some (u, k) \<longleftrightarrow> j_user_id j = u \<and> j_idempotency_key j = Some k"
  by (cases "j_idempotency_key j") (auto simp: key_of_def)

lemma same_idempotency_key_of: "same_idempotency_key a b \<longleftrightarrow> key_of a = key_of b \<and> key_of b \<noteq> None"
  by (cases "j_idempotency_key a"; cases "j_idempotency_key b") (auto simp: same_idempotency_key_def key_of_def)

interpretation keys: identity_invariant keys_ok
proof unfold_locales
  fix p :: "job \<Rightarrow> bool" and f assume "\<And>j. p j \<Longrightarrow> same_identity j (f j)"
  then have "map key_of (upd_where p f xs) = map key_of xs" for xs
    by (intro map_upd_where) (simp add: same_identity_def key_of_def)
  then show "preserves keys_ok (update_jobs p f)" by (auto simp: preserves_def txn_simps keys_ok_def)
next
  fix j show "preserves keys_ok (insert_job j)"
    by (auto simp: preserves_def txn_simps keys_ok_def same_idempotency_key_of)
qed (auto simp: preserves_def txn_simps keys_ok_def split: if_splits)

lemma distinct_filter_unique:
  assumes "distinct (filter (\<lambda>k. k \<noteq> None) (map g xs))" and "x \<in> set xs" and "g x = Some v"
  shows "filter (\<lambda>y. g y = Some v) xs = [x]"
  using assms
proof (induction xs)
  case (Cons y ys)
  show ?case
  proof (cases "y = x")
    case True
    then have "filter (\<lambda>z. g z = Some v) ys = []"
      using Cons.prems(1,3) by (auto simp: filter_empty_conv) (metis image_eqI)
    with True Cons.prems(3) show ?thesis by simp
  next
    case False
    then have "x \<in> set ys" using Cons.prems(2) by simp
    then have "Some v \<in> set (filter (\<lambda>k. k \<noteq> None) (map g ys))" using Cons.prems(3) by force
    then have "g y \<noteq> Some v" using Cons.prems(1) by (auto split: if_splits)
    with False Cons \<open>x \<in> set ys\<close> show ?thesis by (auto split: if_splits)
  qed
qed simp

lemma find_existing_unique:
  assumes "reachable s" and "j \<in> set (jobs s)" and "j_user_id j = u" and "j_idempotency_key j = Some k"
  shows "filter (\<lambda>j. j_user_id j = u \<and> j_idempotency_key j = Some k) (jobs s) = [j]"
proof -
  have "keys_ok s" by (rule keys.reachable_keeps [OF _ assms(1)]) (simp add: keys_ok_def empty_store_def)
  then have "filter (\<lambda>j. key_of j = Some (u, k)) (jobs s) = [j]"
    unfolding keys_ok_def by (rule distinct_filter_unique) (use assms in \<open>simp_all add: key_of_eq_Some\<close>)
  then show ?thesis by (simp add: key_of_eq_Some)
qed

end
