(* ===== verification/ApiContracts.thy ===== *)
theory ApiContracts
  imports Demo Api Idempotency
begin

text \<open>
  What the API promises its clients: an accepted submission is in the store, the same key gives the
  same job, every refused request leaves the store as it was, a cancellation is answered by what it
  did, and a user reads only jobs of their own.
\<close>

section \<open>Submission\<close>

lemma submit_create_stores:
  assumes "submit_create ev cfg u ty pl pr mx k now s = Inr (job, t)"
  shows "job \<in> set (jobs t)" "j_user_id job = u" "j_status job = PENDING" "j_idempotency_key job = k"
    "j_type job = ty" "j_priority job = pr" "j_payload job = pl" "j_max_attempts job = mx"
proof -
  have "job \<in> set (jobs t) \<and> j_user_id job = u \<and> j_status job = PENDING \<and> j_idempotency_key job = k \<and>
      j_type job = ty \<and> j_priority job = pr \<and> j_payload job = pl \<and> j_max_attempts job = mx"
    using assms
  proof (cases rule: submit_create_cases)
  case (1 s1 s2)
  have "jobs t = jobs s2" using 1(6) by (auto simp: dispatch_add_def txn_simps)
  moreover have "jobs s2 = jobs s @ [job]" using 1(4,5) by (simp add: quiet_def)
  moreover obtain i where i: "job = new_job i u ty pl pr mx k now" using 1(1) by blast
  have "j_user_id job = u \<and> j_status job = PENDING \<and> j_idempotency_key job = k \<and> j_type job = ty \<and>
      j_priority job = pr \<and> j_payload job = pl \<and> j_max_attempts job = mx"
    by (simp add: i new_job_def)
  ultimately show ?thesis by simp
  qed
  then show "job \<in> set (jobs t)" "j_user_id job = u" "j_status job = PENDING" "j_idempotency_key job = k"
    "j_type job = ty" "j_priority job = pr" "j_payload job = pl" "j_max_attempts job = mx" by blast+
qed

lemma find_existing_Inr:
  assumes "find_existing u k s = Inr (Some j, t)"
  shows "t = s" "j \<in> set (jobs s)" "j_user_id j = u" "j_idempotency_key j = Some k"
  using assms by (auto simp: find_existing_def get_by_idempotency_key_def txn_simps scalar_one_or_none_def
      dest!: filter_singleton split: list.splits)

lemma find_existing_cases:
  obtains e where "find_existing u k s = Inl e" | "find_existing u k s = Inr (None, s)"
    | j where "find_existing u k s = Inr (Some j, s)"
  by (cases "scalar_one_or_none (filter (\<lambda>j. j_user_id j = u \<and> j_idempotency_key j = Some k) (jobs s))")
    (auto simp: find_existing_def get_by_idempotency_key_def txn_bind_gets txn_lift_def split: option.splits
      intro: that)

text \<open>How a submission can end.\<close>

lemma submit_cases:
  assumes "submit ev cfg between1 between2 rq now s = (r, t)"
  obtains e where "r = Inl e" "t = s \<or> t = between1 s \<or> t = between2 (between1 s)"
    | k j where "r = Inr j" "rq_idempotency_key rq = Some k" "find_existing (rq_user_id rq) k s = Inr (Some j, t)" "t = s"
    | k j where "r = Inr j" "rq_idempotency_key rq = Some k"
        "find_existing (rq_user_id rq) k (between2 (between1 s)) = Inr (Some j, t)" "t = between2 (between1 s)"
    | j pl mx where "r = Inr j" "submit_prepare cfg rq = Inr (pl, mx)"
        "submit_create ev cfg (rq_user_id rq) (rq_job_type rq) pl (rq_priority rq) mx
           (rq_idempotency_key rq) now (between1 s) = Inr (j, t)"
proof (cases "submit_prepare cfg rq")
  case (Inl e)
  with assms show thesis by (intro that(1)) (auto simp: submit_def)
next
  case (Inr p)
  obtain pl mx where prep: "submit_prepare cfg rq = Inr (pl, mx)" using Inr by (cases p) auto
  define create where "create = submit_create ev cfg (rq_user_id rq) (rq_job_type rq) pl (rq_priority rq) mx
      (rq_idempotency_key rq) now (between1 s)"
  show thesis
  proof (cases "rq_idempotency_key rq")
    case None
    with assms prep show thesis
      by (cases create) (auto simp: submit_def create_def Let_def split: if_splits intro: that)
  next
    case (Some k)
    let ?u = "rq_user_id rq"
    show thesis
    proof (cases rule: find_existing_cases [of ?u k s])
      case (1 e)
      with assms prep Some show thesis by (intro that(1)) (auto simp: submit_def)
    next
      case (3 j)
      with assms prep Some show thesis by (intro that(2)) (auto simp: submit_def)
    next
      case 2
      show thesis
      proof (cases create)
        case (Inr c)
        obtain j u where "create = Inr (j, u)" using Inr by (cases c) auto
        with assms prep Some 2 show thesis by (intro that(4) [of j pl mx]) (auto simp: submit_def create_def)
      next
        case (Inl e)
        define s3 where "s3 = between2 (between1 s)"
        have "submit ev cfg between1 between2 rq now s = (if e \<noteq> IntegrityError then (Inl e, between1 s)
            else case find_existing ?u k s3 of Inl e' \<Rightarrow> (Inl e', s3)
              | Inr (Some existing, _) \<Rightarrow> (Inr existing, s3) | Inr (None, _) \<Rightarrow> (Inl IntegrityError, s3))"
          using prep Some 2 Inl unfolding s3_def by (simp add: submit_def create_def Let_def)
        note out = this [unfolded assms]
        show thesis
        proof (cases "e = IntegrityError")
          case False
          with out show thesis by (intro that(1)) auto
        next
          case True
          show thesis
          proof (cases rule: find_existing_cases [of ?u k s3])
            case (3 j)
            with out True Some show thesis by (intro that(3) [of j k]) (simp_all add: s3_def)
          qed (use out True in \<open>intro that(1); simp add: s3_def\<close>)+
        qed
      qed
    qed
  qed
qed

text \<open>
  C23. An accepted submission is in the store: when the API answers 202 with a job id, the store
  holds a job with that id, of that user and with the idempotency key of the request, in the status
  the answer names, whatever other requests committed while this one ran.
\<close>

theorem accepted_is_stored:
  assumes "submit_job ev cfg between1 between2 body x_user_id key now s = (Respond code acc, t)"
  shows "code = 202 \<and> (\<exists>j \<in> set (jobs t). j_id j = acc_job_id acc \<and> j_status j = acc_status acc \<and>
    j_user_id j = current_user_id x_user_id \<and> j_idempotency_key j = key)"
proof -
  define rq where "rq = \<lparr>rq_user_id = current_user_id x_user_id, rq_job_type = sub_type body,
    rq_payload = sub_payload body, rq_priority = sub_priority body,
    rq_max_attempts = sub_max_attempts body, rq_idempotency_key = key\<rparr>"
  obtain r u where run: "submit ev cfg between1 between2 rq now s = (r, u)" by fastforce
  have no: "submit_errors e \<noteq> Respond code acc" for e
    by (simp add: submit_errors_def http_exception_handler_def unhandled_def split: exn.split)
  from assms run no obtain job where job: "r = Inr job" "u = t" "code = 202" "acc_job_id acc = j_id job" "acc_status acc = j_status job"
    unfolding submit_job_def rq_def [symmetric]
    by (auto simp: validation_exception_handler_def split: if_splits sum.splits)
  have "job \<in> set (jobs t) \<and> j_user_id job = current_user_id x_user_id \<and> j_idempotency_key job = key"
    using run
  proof (cases rule: submit_cases)
    case (1 e)
    with job show ?thesis by simp
  next
    case (2 k j)
    with find_existing_Inr [OF 2(3)] job show ?thesis by (simp add: rq_def)
  next
    case (3 k j)
    with find_existing_Inr [OF 3(3)] job show ?thesis by (simp add: rq_def)
  next
    case (4 j pl mx)
    with submit_create_stores [OF 4(3)] job show ?thesis by (simp add: rq_def)
  qed
  with job show ?thesis by metis
qed

definition demo_body :: job_submit where
  "demo_body = \<lparr>sub_type = REPORT, sub_payload = [(''pages'', JInt 2)], sub_priority = NORMAL, sub_max_attempts = Some 3\<rparr>"

lemma demo_accepted:
  "submit_job demo_env default_settings (\<lambda>s. s) (\<lambda>s. s) demo_body (Some ''alice'') None 100 empty_store =
    (Respond 202 \<lparr>acc_job_id = 1, acc_status = PENDING, acc_status_url = ''/jobs/'' @ uuid_str 1\<rparr>, demo1)"
  by code_simp

theorem accepted_is_stored_witness:
  "\<exists>j \<in> set (jobs demo1). j_id j = 1 \<and> j_status j = PENDING \<and> j_user_id j = ''alice'' \<and> j_idempotency_key j = None"
  using accepted_is_stored [OF demo_accepted] by (simp add: current_user_id_def)

text \<open>
  C24. A refused submission changes nothing: whatever status code a request is refused with, one of
  413, 422, 429 and 500, the store is the one the other requests have made of it.
\<close>

theorem refused_changes_nothing:
  assumes "submit_job ev cfg between1 between2 body x_user_id key now s = (Problem code m, t)"
  shows "code \<in> {413, 422, 429, 500} \<and> t \<in> {s, between1 s, between2 (between1 s)}"
proof -
  define rq where "rq = \<lparr>rq_user_id = current_user_id x_user_id, rq_job_type = sub_type body,
    rq_payload = sub_payload body, rq_priority = sub_priority body,
    rq_max_attempts = sub_max_attempts body, rq_idempotency_key = key\<rparr>"
  obtain r u where run: "submit ev cfg between1 between2 rq now s = (r, u)" by fastforce
  have codes: "status_code (submit_errors e) \<in> {413, 422, 429, 500}" for e
    by (simp add: submit_errors_def http_exception_handler_def unhandled_def split: exn.split)
  show ?thesis
  proof (cases "JobSubmit_ok body")
    case False
    with assms show ?thesis by (auto simp: submit_job_def validation_exception_handler_def)
  next
    case True
    with assms run obtain e where e: "r = Inl e" "submit_errors e = (Problem code m :: job_accepted response)" "u = t"
      unfolding submit_job_def rq_def [symmetric] by (auto split: sum.splits)
    from run have "t \<in> {s, between1 s, between2 (between1 s)}"
      by (cases rule: submit_cases) (use e in auto)
    with codes [of e] e(2) show ?thesis by (metis status_code.simps(2))
  qed
qed

theorem refused_changes_nothing_witness:
  "submit_job demo_env default_settings (\<lambda>s. s) (\<lambda>s. s) (demo_body\<lparr>sub_max_attempts := Some 0\<rparr>) None None 100 demo1 =
     (Problem 422 ''request validation failed'', demo1) \<and> demo1 \<in> {demo1, demo1, demo1}"
proof
  show run: "submit_job demo_env default_settings (\<lambda>s. s) (\<lambda>s. s) (demo_body\<lparr>sub_max_attempts := Some 0\<rparr>) None None 100 demo1 =
     (Problem 422 ''request validation failed'', demo1)"
    by (simp add: submit_job_def JobSubmit_ok_def validation_exception_handler_def)
  show "demo1 \<in> {demo1, demo1, demo1}" using refused_changes_nothing [OF run] by simp
qed

text \<open>
  C25. Submitting is idempotent: a request whose key the user has used already is answered with the
  job of that key, and the store stays as it is, however often it is repeated and whatever the state
  of that job or the number of the user's jobs in flight.
\<close>

theorem submit_idempotent:
  assumes "reachable s" and "submit_prepare cfg rq = Inr p" and "j \<in> set (jobs s)"
    and "j_user_id j = rq_user_id rq" and "j_idempotency_key j = Some k" and "rq_idempotency_key rq = Some k"
  shows "submit ev cfg between1 between2 rq now s = (Inr j, s)"
proof -
  have "find_existing (rq_user_id rq) k s = Inr (Some j, s)"
    using find_existing_unique [OF assms(1,3,4,5)]
    by (simp add: find_existing_def get_by_idempotency_key_def txn_bind_gets txn_lift_def scalar_one_or_none_def)
  with assms(2,6) show ?thesis by (cases p) (simp add: submit_def)
qed

definition demo_keyed :: store where
  "demo_keyed = demo1\<lparr>jobs := [demo_job\<lparr>j_idempotency_key := Some ''k1''\<rparr>]\<rparr>"

theorem submit_idempotent_witness:
  "submit demo_env default_settings (\<lambda>s. s) (\<lambda>s. s) \<lparr>rq_user_id = ''alice'', rq_job_type = SLEEP, rq_payload = [],
     rq_priority = HIGH, rq_max_attempts = None, rq_idempotency_key = Some ''k1''\<rparr> 900 demo_keyed =
   (Inr (demo_job\<lparr>j_idempotency_key := Some ''k1''\<rparr>), demo_keyed)"
    (is "submit _ _ _ _ ?rq _ _ = _")
proof -
  have "submit_create demo_env default_settings ''alice'' REPORT [(''pages'', JInt 2)] NORMAL 3 (Some ''k1'') 100 empty_store =
      Inr (demo_job\<lparr>j_idempotency_key := Some ''k1''\<rparr>, demo_keyed)" by code_simp
  then have "db_step empty_store demo_keyed" by (rule db_step.submit)
  then have "reachable demo_keyed" by (simp add: reachable_def r_into_rtranclp)
  moreover obtain p where "submit_prepare default_settings ?rq = Inr p"
  proof -
    have "(case submit_prepare default_settings ?rq of Inl e \<Rightarrow> False | Inr p \<Rightarrow> True)" by code_simp
    then show thesis using that by (auto split: sum.splits)
  qed
  ultimately show ?thesis
    by (rule submit_idempotent) (simp_all add: demo_keyed_def demo_job_def new_job_def)
qed

section \<open>Cancellation\<close>

lemma filter_own_row:
  assumes "distinct (map j_id (jobs s))" and "j \<in> set (jobs s)" and "j_id j = i" and "j_user_id j = u"
  shows "filter (\<lambda>j. j_id j = i \<and> j_user_id j = u) (jobs s) = [j]"
proof -
  have "filter (\<lambda>x. j_id x = j_id j \<and> Q x) xs = [j]" if "distinct (map j_id xs)" "j \<in> set xs" "Q j" for xs Q
    using that by (induction xs) (auto simp: filter_empty_conv rev_image_eqI)
  from this [OF assms(1,2), of "\<lambda>j. j_user_id j = u"] show ?thesis using assms(3,4) by simp
qed

lemma lock_own_row:
  assumes "distinct (map j_id (jobs s))" and "j \<in> set (jobs s)" and "j_id j = i" and "j_user_id j = u"
  shows "lock_for_user i u s = Inr (Some j, s)"
  using filter_own_row [OF assms] by (simp add: lock_for_user_def txn_bind_gets txn_lift_def scalar_one_or_none_def)

text \<open>What a cancellation does to a job of the user that runs, and to one that waits.\<close>

lemma cancel_running:
  assumes "lock_for_user i u s = Inr (Some j, s)" and "j \<in> set (jobs s)" and "j_id j = i" and "j_status j = RUNNING"
    and "cancel ev i u reason now s = Inr (out, t)"
  shows "out = \<lparr>found = True, outcome_status = Some CANCELLING, conflict = False\<rparr> \<and>
    (\<exists>j' \<in> set (jobs t). j_id j' = i \<and> j_status j' = CANCELLING)"
proof -
  note locked = txn_bind_step [where m = "lock_for_user i u" and s = s and x = "Some j" and t = s, OF assms(1)]
  from assms(4,5) obtain s1 b where b: "request_running_cancellation i reason now s = Inr (b, s1)"
    and ev: "event_record ev i EV_CANCEL_REQUESTED (Some RUNNING) (Some CANCELLING) (reason_detail reason) s1 = Inr ((), t)"
    and out: "out = \<lparr>found = True, outcome_status = Some CANCELLING, conflict = False\<rparr>"
    by (auto simp: cancel_def locked TERMINAL_STATUSES_def txn_bind_Inr txn_return_apply)
  have "jobs t = jobs s1" using quiet_steps(2) [OF ev] by (simp add: quiet_def)
  with written_row [OF b [unfolded request_running_cancellation_def] assms(2)] assms(3,4)
  have "\<exists>j' \<in> set (jobs t). j_id j' = i \<and> j_status j' = CANCELLING" by (intro bexI) auto
  with out show ?thesis by simp
qed

lemma cancel_waiting:
  assumes "lock_for_user i u s = Inr (Some j, s)" and "j \<in> set (jobs s)" and "j_id j = i"
    and "j_status j \<in> set INACTIVE_CANCELLABLE" and "cancel ev i u reason now s = Inr (out, t)"
  shows "out = \<lparr>found = True, outcome_status = Some CANCELLED, conflict = False\<rparr> \<and>
    (\<exists>j' \<in> set (jobs t). j_id j' = i \<and> j_status j' = CANCELLED)"
proof -
  note locked = txn_bind_step [where m = "lock_for_user i u" and s = s and x = "Some j" and t = s, OF assms(1)]
  have n: "j_status j \<notin> set TERMINAL_STATUSES" "j_status j \<noteq> CANCELLING" "j_status j \<noteq> RUNNING"
    using assms(4) by (auto simp: INACTIVE_CANCELLABLE_def TERMINAL_STATUSES_def)
  with assms(5) obtain s1 s2 b where b: "cancel_inactive i reason now s = Inr (b, s1)"
    and ev: "event_record ev i EV_CANCELLED (Some (j_status j)) (Some CANCELLED) (reason_detail reason) s1 = Inr ((), s2)"
    and enq: "enqueue_terminal_notification ev j EV_CANCELLED CANCELLED None None None now s2 = Inr ((), t)"
    and out: "out = \<lparr>found = True, outcome_status = Some CANCELLED, conflict = False\<rparr>"
    by (auto simp: cancel_def locked txn_bind_Inr txn_return_apply)
  have "jobs t = jobs s1"
    using quiet_steps(2) [OF ev] enq unfolding enqueue_terminal_notification_def notification_enqueue_def Let_def
    by (auto simp: quiet_def txn_simps split: prod.splits if_splits)
  with written_row [OF b [unfolded cancel_inactive_def] assms(2)] assms(3,4)
  have "\<exists>j' \<in> set (jobs t). j_id j' = i \<and> j_status j' = CANCELLED" by (intro bexI) auto
  with out show ?thesis by simp
qed

text \<open>
  C27. A cancellation is answered by what it did. A job that has ended gives 409 and nothing
  changes; a job that was running, or is being cancelled already, gives 202 and is CANCELLING; a job
  that was waiting gives 200 and is CANCELLED; and when the transaction fails, 500, nothing changes.
\<close>

theorem cancel_answers:
  assumes "reachable s" and "j \<in> set (jobs s)" and "j_id j = i" and "j_user_id j = current_user_id x_user_id"
    and "cancel_job ev i body x_user_id now s = (r, t)"
  shows "status_code r = 409 \<and> is_terminal (j_status j) \<and> t = s \<or>
    status_code r = 202 \<and> j_status j \<in> {RUNNING, CANCELLING} \<and> (\<exists>j' \<in> set (jobs t). j_id j' = i \<and> j_status j' = CANCELLING) \<or>
    status_code r = 200 \<and> j_status j \<in> {PENDING, QUEUED, RETRYING} \<and> (\<exists>j' \<in> set (jobs t). j_id j' = i \<and> j_status j' = CANCELLED) \<or>
    status_code r = 500 \<and> \<not> is_terminal (j_status j) \<and> t = s"
proof -
  let ?u = "current_user_id x_user_id"
  note lock = lock_own_row [OF store_inv_distinct [OF reachable_inv [OF assms(1)]] assms(2-4)]
  note locked = txn_bind_step [where m = "lock_for_user i ?u" and s = s and x = "Some j" and t = s, OF lock]
  define m where "m = cancel ev i ?u (cr_reason body) now s"
  consider "is_terminal (j_status j)" | "j_status j = CANCELLING" | "j_status j = RUNNING"
    | "j_status j \<in> set INACTIVE_CANCELLABLE" by (cases "j_status j") (simp_all add: INACTIVE_CANCELLABLE_def)
  then show ?thesis
  proof cases
    case 1
    then have "m = Inr (\<lparr>found = True, outcome_status = Some (j_status j), conflict = True\<rparr>, s)"
      by (simp add: m_def cancel_def locked is_terminal_def txn_return_apply)
    with 1 assms(5) show ?thesis by (auto simp: cancel_job_def m_def http_exception_handler_def)
  next
    case 2
    then have "m = Inr (\<lparr>found = True, outcome_status = Some CANCELLING, conflict = False\<rparr>, s)"
      by (simp add: m_def cancel_def locked TERMINAL_STATUSES_def txn_return_apply)
    with 2 assms show ?thesis by (auto simp: cancel_job_def m_def)
  next
    case 3
    show ?thesis
    proof (cases m)
      case (Inr p)
      with cancel_running [OF lock assms(2,3) 3, of ev "cr_reason body" now "fst p" "snd p"] 3 assms(5)
      show ?thesis by (cases p) (auto simp: cancel_job_def m_def)
    qed (use 3 assms(5) in \<open>auto simp: cancel_job_def m_def unhandled_def\<close>)
  next
    case 4
    then have "\<not> is_terminal (j_status j)" by (auto simp: INACTIVE_CANCELLABLE_def)
    show ?thesis
    proof (cases m)
      case (Inr p)
      with cancel_waiting [OF lock assms(2,3) 4, of ev "cr_reason body" now "fst p" "snd p"] 4 assms(5)
      show ?thesis by (cases p) (auto simp: cancel_job_def m_def INACTIVE_CANCELLABLE_def)
    qed (use \<open>\<not> is_terminal (j_status j)\<close> assms(5) in \<open>auto simp: cancel_job_def m_def unhandled_def\<close>)
  qed
qed

theorem cancel_answers_witness:
  "\<exists>j' \<in> set (jobs demo_cancelling). j_id j' = 1 \<and> j_status j' = CANCELLING"
proof -
  have run: "cancel_job demo_env 1 \<lparr>cr_reason = Some ''changed my mind''\<rparr> (Some ''alice'') 350 demo3 =
      (Respond 202 \<lparr>cx_job_id = 1, cx_status = CANCELLING\<rparr>, demo_cancelling)"
    using demo_ends(2) by (simp add: cancel_job_def demo_cancel_def current_user_id_def)
  have "running_job \<in> set (jobs demo3)" "j_id running_job = 1" "j_user_id running_job = current_user_id (Some ''alice'')"
    by (simp_all add: demo3_def running_job_def queued_job_def demo_job_def new_job_def current_user_id_def)
  from cancel_answers [OF demo_reachable(3) this run] show ?thesis by simp
qed

section \<open>Who sees what\<close>

text \<open>
  C28. A user sees and touches only jobs of their own: for the id of another user's job, and for an
  id that does not exist, every route answers 404 and a cancellation changes nothing.
\<close>

theorem strangers_see_nothing:
  assumes "\<forall>j \<in> set (jobs s). j_id j = i \<longrightarrow> j_user_id j \<noteq> current_user_id x_user_id"
  shows "get_job i x_user_id s = Problem 404 ''job not found'' \<and>
    job_events_route i x_user_id s = Problem 404 ''job not found'' \<and>
    cancel_job ev i body x_user_id now s = (Problem 404 ''job not found'', s)"
proof -
  have "filter (\<lambda>j. j_id j = i \<and> j_user_id j = current_user_id x_user_id) (jobs s) = []"
    using assms by (simp add: filter_empty_conv)
  then have "get_for_user i (current_user_id x_user_id) s = Inr (None, s)"
      "lock_for_user i (current_user_id x_user_id) s = Inr (None, s)"
    by (simp_all add: get_for_user_def lock_for_user_def txn_bind_gets scalar_one_or_none_def txn_lift_def)
  then show ?thesis
    by (simp add: get_job_def read_get_def job_events_route_def read_events_def cancel_job_def cancel_def
        txn_bind_def txn_return_apply http_exception_handler_def)
qed

theorem strangers_see_nothing_witness:
  "get_job 1 (Some ''bob'') demo3 = Problem 404 ''job not found'' \<and>
   job_events_route 1 (Some ''bob'') demo3 = Problem 404 ''job not found'' \<and>
   cancel_job demo_env 1 \<lparr>cr_reason = None\<rparr> (Some ''bob'') 350 demo3 = (Problem 404 ''job not found'', demo3)"
  by (rule strangers_see_nothing)
    (simp add: demo3_def running_job_def queued_job_def demo_job_def new_job_def current_user_id_def)

section \<open>Refusals\<close>

text \<open>The request names no job: it has no key, or none of the user's jobs has its key.\<close>

definition key_unused :: "string \<Rightarrow> string option \<Rightarrow> store \<Rightarrow> bool" where
  "key_unused user_id key s \<longleftrightarrow>
     (key = None \<or> (\<forall>j \<in> set (jobs s). \<not> (j_user_id j = user_id \<and> j_idempotency_key j = key)))"

definition in_flight :: "string \<Rightarrow> store \<Rightarrow> int" where
  "in_flight user_id s = int (length (filter (\<lambda>j. j_user_id j = user_id \<and> \<not> is_terminal (j_status j)) (jobs s)))"

definition request_of :: "job_submit \<Rightarrow> string option \<Rightarrow> string option \<Rightarrow> submit_request" where
  "request_of body x_user_id key = \<lparr>rq_user_id = current_user_id x_user_id, rq_job_type = sub_type body,
     rq_payload = sub_payload body, rq_priority = sub_priority body, rq_max_attempts = sub_max_attempts body,
     rq_idempotency_key = key\<rparr>"

lemma find_existing_unused: "key_unused u (Some k) s \<Longrightarrow> find_existing u k s = Inr (None, s)"
  by (simp add: find_existing_def get_by_idempotency_key_def txn_bind_gets txn_lift_def scalar_one_or_none_def
      key_unused_def filter_False)

text \<open>A request that names no job and is refused where it would create one.\<close>

lemma submit_job_raises:
  assumes "JobSubmit_ok body" and "submit_prepare cfg (request_of body x_user_id key) = Inr (pl, mx)"
    and "key_unused (current_user_id x_user_id) key s" and "e \<noteq> IntegrityError"
    and "submit_create ev cfg (current_user_id x_user_id) (sub_type body) pl (sub_priority body) mx key now (between1 s) = Inl e"
  shows "submit_job ev cfg between1 between2 body x_user_id key now s = (submit_errors e, between1 s)"
  using assms find_existing_unused [of "current_user_id x_user_id" _ s]
  by (cases key) (simp_all add: submit_job_def submit_def request_of_def Let_def)

text \<open>
  C26. The two limits: a payload whose JSON text is longer than the configured size is refused with
  413 before the database is asked, and a user with the configured number of live jobs is refused
  with 429 and the limit in the message, with or without an idempotency key, unless the key is that
  of a job the user has (which is the answer then, see C25).
\<close>

theorem submit_limits:
  assumes "JobSubmit_ok body"
  shows "(job_max_payload_bytes cfg < int (length (json_dumps (JObj (sub_payload body)))) \<longrightarrow>
      submit_job ev cfg between1 between2 body x_user_id key now s =
        (Problem 413 ''payload exceeds the maximum allowed size'', s)) \<and>
    (submit_prepare cfg (request_of body x_user_id key) = Inr p \<and> key_unused (current_user_id x_user_id) key s \<and>
      max_in_flight_jobs_per_user cfg \<le> in_flight (current_user_id x_user_id) (between1 s) \<longrightarrow>
      submit_job ev cfg between1 between2 body x_user_id key now s =
        (Problem 429 (''too many active jobs for this user, the limit is '' @
           int_str (max_in_flight_jobs_per_user cfg)), between1 s))"
proof (intro conjI impI)
  assume "job_max_payload_bytes cfg < int (length (json_dumps (JObj (sub_payload body))))"
  with assms show "submit_job ev cfg between1 between2 body x_user_id key now s =
      (Problem 413 ''payload exceeds the maximum allowed size'', s)"
    by (simp add: submit_job_def submit_def submit_prepare_def submit_errors_def http_exception_handler_def)
next
  assume *: "submit_prepare cfg (request_of body x_user_id key) = Inr p \<and> key_unused (current_user_id x_user_id) key s \<and>
      max_in_flight_jobs_per_user cfg \<le> in_flight (current_user_id x_user_id) (between1 s)"
  obtain pl mx where p: "p = (pl, mx)" by (cases p)
  have "submit_create ev cfg (current_user_id x_user_id) ty pl pr mx k now (between1 s) =
      Inl (TooManyActiveJobsError (max_in_flight_jobs_per_user cfg))" for ty pl pr mx k
    using * by (simp add: submit_create_def count_active_for_user_def txn_bind_gets txn_raise_apply is_terminal_def in_flight_def)
  with submit_job_raises [OF assms] * p
  have "submit_job ev cfg between1 between2 body x_user_id key now s =
      (submit_errors (TooManyActiveJobsError (max_in_flight_jobs_per_user cfg)), between1 s)" by blast
  then show "submit_job ev cfg between1 between2 body x_user_id key now s =
      (Problem 429 (''too many active jobs for this user, the limit is '' @
         int_str (max_in_flight_jobs_per_user cfg)), between1 s)"
    by (simp add: submit_errors_def http_exception_handler_def)
qed

theorem submit_limits_witness:
  "submit_job demo_env (default_settings\<lparr>max_in_flight_jobs_per_user := 1\<rparr>) (\<lambda>s. s) (\<lambda>s. s) demo_body (Some ''alice'') (Some ''k2'')
     100 demo3 = (Problem 429 (''too many active jobs for this user, the limit is '' @ int_str 1), demo3)"
proof -
  let ?cfg = "default_settings\<lparr>max_in_flight_jobs_per_user := 1\<rparr>" and ?rq = "request_of demo_body (Some ''alice'') (Some ''k2'')"
  have "(case submit_prepare ?cfg ?rq of Inl e \<Rightarrow> False | Inr p \<Rightarrow> True)" by code_simp
  then obtain p where "submit_prepare ?cfg ?rq = Inr p" by (auto split: sum.splits)
  moreover have "JobSubmit_ok demo_body" by (simp add: JobSubmit_ok_def demo_body_def)
  moreover have "key_unused ''alice'' (Some ''k2'') demo3" "in_flight ''alice'' demo3 = 1"
    by (simp_all add: key_unused_def in_flight_def demo3_def running_job_def queued_job_def demo_job_def new_job_def)
  ultimately show ?thesis
    using submit_limits [of demo_body ?cfg demo_env "\<lambda>s. s" "\<lambda>s. s" "Some ''alice''" "Some ''k2''" 100 demo3 p]
    by (simp add: current_user_id_def)
qed





end
