(* ===== verification/QueueContract.thy ===== *)
theory QueueContract
  imports Scheduler "HOL-Library.Multiset"
begin

text \<open>
  What the queue promises to the dispatcher and the workers, as an abstract priority queue: one line
  of job ids per priority. The locale \<open>job_queue\<close> is the interface, with the one law that an
  operation that succeeds acts on the lines as the abstract one; sequences of operations, in any
  interleaving of publishers and consumers, follow. \<open>redis_lists\<close> gives it for the queue of
  \<^verbatim>\<open>app/queue/redis_queue.py\<close>.
\<close>

section \<open>Priorities\<close>

text \<open>The order in which a worker polls: \<open>p < q\<close> when \<open>p\<close> is taken before \<open>q\<close>.\<close>

primrec poll_rank :: "JobPriority \<Rightarrow> nat" where
  "poll_rank HIGH = 0"
| "poll_rank NORMAL = 1"
| "poll_rank LOW = 2"

instantiation JobPriority :: linorder
begin

definition less_eq_JobPriority :: "JobPriority \<Rightarrow> JobPriority \<Rightarrow> bool" where
  "less_eq_JobPriority p q \<longleftrightarrow> poll_rank p \<le> poll_rank q"

definition less_JobPriority :: "JobPriority \<Rightarrow> JobPriority \<Rightarrow> bool" where
  "less_JobPriority p q \<longleftrightarrow> poll_rank p < poll_rank q"

instance
proof
  fix p q :: JobPriority
  show "p \<le> q \<Longrightarrow> q \<le> p \<Longrightarrow> p = q"
    by (cases p; cases q) (simp_all add: less_eq_JobPriority_def)
qed (auto simp: less_eq_JobPriority_def less_JobPriority_def)

end

lemma priority_order_sorted: "sorted PRIORITY_ORDER" "set PRIORITY_ORDER = UNIV"
proof -
  show "sorted PRIORITY_ORDER" by (simp add: PRIORITY_ORDER_def less_eq_JobPriority_def)
  have "p \<in> set PRIORITY_ORDER" for p by (cases p) (simp_all add: PRIORITY_ORDER_def)
  then show "set PRIORITY_ORDER = UNIV" by blast
qed

section \<open>The abstract queue\<close>

type_synonym lanes = "JobPriority \<Rightarrow> string list"

datatype queue_op = Publish string JobPriority | Consume | DeadLetter string

fun spec_op :: "queue_op \<Rightarrow> lanes \<Rightarrow> string option \<times> lanes" where
  "spec_op (Publish i p) q = (None, q(p := q p @ [i]))"
| "spec_op Consume q =
     (if q HIGH \<noteq> [] then (Some (hd (q HIGH)), q(HIGH := tl (q HIGH)))
      else if q NORMAL \<noteq> [] then (Some (hd (q NORMAL)), q(NORMAL := tl (q NORMAL)))
      else if q LOW \<noteq> [] then (Some (hd (q LOW)), q(LOW := tl (q LOW)))
      else (None, q))"
| "spec_op (DeadLetter i) q = (None, q)"

text \<open>The ids a sequence of operations consumes, and the lines it leaves.\<close>

fun spec_ops :: "queue_op list \<Rightarrow> lanes \<Rightarrow> string list \<times> lanes" where
  "spec_ops [] q = ([], q)"
| "spec_ops (op # ops) q = (case spec_op op q of (x, q1) \<Rightarrow>
     (case spec_ops ops q1 of (ids, q2) \<Rightarrow> ((case x of None \<Rightarrow> ids | Some i \<Rightarrow> i # ids), q2)))"

fun published :: "queue_op list \<Rightarrow> string multiset" where
  "published [] = {#}"
| "published (Publish i p # ops) = add_mset i (published ops)"
| "published (_ # ops) = published ops"

definition in_line :: "lanes \<Rightarrow> string multiset" where
  "in_line q = mset (q HIGH) + mset (q NORMAL) + mset (q LOW)"

text \<open>What is consumed is the head of its line, and no line polled before has anything.\<close>

lemma consume_first:
  assumes "spec_op Consume q = (Some i, q')"
  shows "\<exists>p. q p = i # q' p \<and> (\<forall>p' < p. q p' = []) \<and> (\<forall>p'. p' \<noteq> p \<longrightarrow> q' p' = q p')"
proof -
  have all: "(\<forall>p' < p. q p' = []) \<longleftrightarrow> (p \<noteq> HIGH \<longrightarrow> q HIGH = []) \<and> (p = LOW \<longrightarrow> q NORMAL = [])" for p
    by (cases p) (auto simp: less_JobPriority_def, (metis JobPriority.exhaust less_one less_numeral_extra(3)
        poll_rank.simps not_less_zero zero_neq_one less_irrefl numeral_2_eq_2 less_Suc_eq)+)
  show ?thesis using assms unfolding all
    by (auto split: if_splits intro: exI [of _ HIGH] exI [of _ NORMAL] exI [of _ LOW])
qed

lemma mset_hd_tl: "xs \<noteq> [] \<Longrightarrow> add_mset (hd xs) (mset (tl xs)) = mset xs"
  by (cases xs) simp_all

lemma spec_op_conserves:
  "spec_op op q = (x, q') \<Longrightarrow>
     in_line q' + (case x of None \<Rightarrow> {#} | Some i \<Rightarrow> {#i#}) = in_line q + published [op]"
proof (cases op)
  case (Publish i p)
  then show "spec_op op q = (x, q') \<Longrightarrow> ?thesis" by (cases p) (auto simp: in_line_def)
next
  case Consume
  then show "spec_op op q = (x, q') \<Longrightarrow> ?thesis"
    by (auto simp: in_line_def mset_hd_tl [symmetric] split: if_splits)
qed auto

lemma spec_ops_conserves: "spec_ops ops q = (ids, q') \<Longrightarrow> mset ids + in_line q' = in_line q + published ops"
proof (induction ops arbitrary: q ids)
  case (Cons op ops)
  obtain x q1 where step: "spec_op op q = (x, q1)" by (cases "spec_op op q")
  obtain rest where run: "spec_ops ops q1 = (rest, q')" and ids: "ids = (case x of None \<Rightarrow> rest | Some i \<Rightarrow> i # rest)"
    using Cons.prems step by (auto split: prod.splits)
  have "published (op # ops) = published [op] + published ops" by (cases op) simp_all
  moreover have "mset ids = (case x of None \<Rightarrow> {#} | Some i \<Rightarrow> {#i#}) + mset rest" by (simp add: ids split: option.split)
  ultimately show ?case using Cons.IH [OF run] spec_op_conserves [OF step] by (metis add.assoc add.commute)
qed simp

section \<open>The interface\<close>

fun run_ops :: "(queue_op \<Rightarrow> ('r, exn, string option) io) \<Rightarrow> queue_op list \<Rightarrow> ('r, exn, string list) io" where
  "run_ops f [] = io_return []"
| "run_ops f (op # ops) = io_bind (f op) (\<lambda>x. io_bind (run_ops f ops) (\<lambda>ids.
     io_return (case x of None \<Rightarrow> ids | Some i \<Rightarrow> i # ids)))"

locale job_queue =
  fixes perform :: "queue_op \<Rightarrow> ('r, exn, string option) io" and lines :: "'r \<Rightarrow> lanes"
  assumes perform: "perform op r = (Inr x, r') \<Longrightarrow> spec_op op (lines r) = (x, lines r')"
begin

lemma run_ops_refine: "run_ops perform ops r = (Inr ids, r') \<Longrightarrow> spec_ops ops (lines r) = (ids, lines r')"
proof (induction ops arbitrary: r ids)
  case (Cons op ops)
  obtain x r1 rest where step: "perform op r = (Inr x, r1)" and run: "run_ops perform ops r1 = (Inr rest, r')"
    and ids: "ids = (case x of None \<Rightarrow> rest | Some i \<Rightarrow> i # rest)"
    using Cons.prems by (auto simp: txn_simps split: prod.splits sum.splits)
  show ?case using perform [OF step] Cons.IH [OF run] by (simp add: ids)
qed (simp add: txn_simps)

lemma run_ops_conserve:
  "run_ops perform ops r = (Inr ids, r') \<Longrightarrow> mset ids + in_line (lines r') = in_line (lines r) + published ops"
  using run_ops_refine spec_ops_conserves by blast

end

section \<open>The queue on Redis\<close>

definition redis_op :: "'r redis \<Rightarrow> string \<Rightarrow> int \<Rightarrow> queue_op \<Rightarrow> ('r, exn, string option) io" where
  "redis_op rc ns timeout op = (case op of
       Publish i p \<Rightarrow> io_bind (publish rc ns i p) (\<lambda>_. io_return None)
     | Consume \<Rightarrow> consume rc ns timeout
     | DeadLetter i \<Rightarrow> io_bind (dead_letter rc ns i) (\<lambda>_. io_return None))"

text \<open>The queue's lines: new ids enter a Redis list at its head and leave at its tail.\<close>

definition redis_lanes :: "('r \<Rightarrow> string \<Rightarrow> string list) \<Rightarrow> string \<Rightarrow> 'r \<Rightarrow> lanes" where
  "redis_lanes contents ns r p = rev (contents r (queue_key ns p))"

lemma rev_pop: "xs \<noteq> [] \<Longrightarrow> hd (rev xs) = last xs \<and> tl (rev xs) = rev (butlast xs)"
  by (metis append_butlast_last_id list.sel(1,3) rev.simps(2) rev_append append_Cons append_Nil rev_singleton_conv rev_rev_ident)

sublocale redis_lists \<subseteq> jobs: job_queue "redis_op rc ns timeout" "redis_lanes contents ns" for ns timeout
proof
  fix op r x r' assume run: "redis_op rc ns timeout op r = (Inr x, r')"
  show "spec_op op (redis_lanes contents ns r) = (x, redis_lanes contents ns r')"
  proof (cases op)
    case (Publish i p)
    with run have "publish rc ns i p r = (Inr (), r')" "x = None"
      by (auto simp: redis_op_def txn_simps split: prod.splits sum.splits)
    with publish_lists [OF this(1)] Publish show ?thesis
      by (auto simp: redis_lanes_def queue_key_inj fun_eq_iff)
  next
    case Consume
    show ?thesis
    proof (cases x)
      case None
      with run Consume have "rc_brpop rc (priority_keys ns) timeout r = (Inr None, r')"
        by (auto simp: redis_op_def consume_def txn_simps split: prod.splits sum.splits option.splits)
      from brpop_None [OF this] None Consume show ?thesis
        by (auto simp: redis_lanes_def first_nonempty_def priority_keys_def PRIORITY_ORDER_def fun_eq_iff split: if_splits)
    next
      case (Some i)
      with run Consume obtain key where "rc_brpop rc (priority_keys ns) timeout r = (Inr (Some (key, i)), r')"
        by (auto simp: redis_op_def consume_def bytes_decode_def txn_simps
            split: prod.splits sum.splits option.splits if_splits)
      from brpop_Some [OF this] Some Consume show ?thesis
        by (auto simp: redis_lanes_def first_nonempty_def priority_keys_def PRIORITY_ORDER_def fun_eq_iff queue_key_inj
            rev_pop split: if_splits)
    qed
  next
    case (DeadLetter i)
    with run have "dead_letter rc ns i r = (Inr (), r')" "x = None"
      by (auto simp: redis_op_def txn_simps split: prod.splits sum.splits)
    with lpush [OF this(1) [unfolded dead_letter_def]] DeadLetter show ?thesis
      by (simp add: redis_lanes_def fun_eq_iff queue_key_dead_letter)
  qed
qed

context redis_lists begin

lemmas redis_ops_refine = jobs.run_ops_refine and redis_ops_conserve = jobs.run_ops_conserve

end

text \<open>
  C34. The queue is a queue by priority: any sequence of publications, consumptions and
  dead-letterings that Redis answers without an error hands out the ids that the abstract queue
  hands out, the highest priority first and within a priority the oldest first; and each id that
  was published is handed out once or still in line.
\<close>

theorem queue_refines:
  assumes "redis_lists rc contents" and "run_ops (redis_op rc ns timeout) ops r = (Inr ids, r')"
  shows "spec_ops ops (redis_lanes contents ns r) = (ids, redis_lanes contents ns r') \<and>
    mset ids + in_line (redis_lanes contents ns r') = in_line (redis_lanes contents ns r) + published ops"
proof
  show "spec_ops ops (redis_lanes contents ns r) = (ids, redis_lanes contents ns r')"
    using assms by (rule redis_lists.redis_ops_refine)
  show "mset ids + in_line (redis_lanes contents ns r') = in_line (redis_lanes contents ns r) + published ops"
    using assms by (rule redis_lists.redis_ops_conserve)
qed

theorem queue_refines_witness:
  "\<exists>r. run_ops (redis_op mem_redis ''ns'' 5)
     [Publish ''a'' LOW, Publish ''b'' HIGH, Publish ''c'' LOW, Consume, DeadLetter ''d'', Consume, Consume, Consume] (\<lambda>_. [])
       = (Inr [''b'', ''a'', ''c''], r) \<and>
     mset [''b'', ''a'', ''c''] + in_line (redis_lanes (\<lambda>r. r) ''ns'' r) = {#''a'', ''b'', ''c''#}"
proof -
  let ?ops = "[Publish ''a'' LOW, Publish ''b'' HIGH, Publish ''c'' LOW, Consume, DeadLetter ''d'', Consume, Consume, Consume]"
  obtain r where run: "run_ops (redis_op mem_redis ''ns'' 5) ?ops (\<lambda>_. []) = (Inr [''b'', ''a'', ''c''], r)"
    by (simp add: redis_op_def publish_def consume_def dead_letter_def mem_redis_def mem_brpop_def first_nonempty_def
        priority_keys_def PRIORITY_ORDER_def queue_key_def dead_letter_key_def txn_simps)
  from queue_refines [OF mem.redis_lists_axioms run]
  show ?thesis using run by (auto simp: in_line_def redis_lanes_def)
qed

end
