(* ===== verification/Schema.thy ===== *)
theory Schema
  imports Idempotency
begin

text \<open>
  The column types and CHECK constraints of \<^verbatim>\<open>app/db/models.py\<close> as a typing of the store:
  every row of a reachable store is within them. It is an instance of the locale
  \<open>identity_invariant\<close>, whose laws are about the statements alone. An update of a row that is
  within them fails only where the new values are not.
\<close>

definition rows_typed :: "store \<Rightarrow> bool" where
  "rows_typed s \<longleftrightarrow> (\<forall>j \<in> set (jobs s). job_row_check j = None) \<and>
     (\<forall>a \<in> set (job_attempts s). attempt_types_ok a) \<and> (\<forall>e \<in> set (job_events s). dict_ok (e_detail e)) \<and>
     (\<forall>n \<in> set (notification_outbox s). notification_types_ok n)"

interpretation typed: identity_invariant rows_typed
  by unfold_locales
    (auto simp: preserves_def txn_simps rows_typed_def in_set_upd_where split: if_splits)

lemma reachable_typed: "reachable s \<Longrightarrow> rows_typed s"
  by (rule typed.reachable_keeps) (simp_all add: rows_typed_def empty_store_def)

end
