(* ===== verification/SchedulerFacts.thy ===== *)
theory SchedulerFacts
  imports Demo
begin

text \<open>
  What the scheduler's batches do to the jobs table. Each batch claims rows with a scan and runs
  its loop body on each of them; the locale \<open>row_batch\<close> is the contract of a loop body that
  writes the row it was given and no other, and shows that the whole batch then rewrites exactly
  the claimed rows. The four bodies that write jobs are instances.
\<close>

section \<open>Batches\<close>

text \<open>A scan: the rows that satisfy the condition and are not locked, in an order, at most
  \<open>n\<close> of them.\<close>

lemma scan_rows:
  assumes "rows = take n (filter (\<lambda>x. \<not> locked x) (sort_key k (filter c xs)))" and "distinct xs"
  shows "distinct rows" "\<And>x. x \<in> set rows \<Longrightarrow> x \<in> set xs \<and> c x \<and> \<not> locked x"
    "(\<And>x. x \<in> set xs \<Longrightarrow> \<not> locked x) \<Longrightarrow> length xs \<le> n \<Longrightarrow> set rows = {x \<in> set xs. c x}"
proof -
  show "distinct rows" using assms by (simp add: distinct_take)
  show "x \<in> set xs \<and> c x \<and> \<not> locked x" if "x \<in> set rows" for x
    using that unfolding assms(1) by (auto dest: in_set_takeD)
  assume *: "\<And>x. x \<in> set xs \<Longrightarrow> \<not> locked x" "length xs \<le> n"
  have "length (filter (\<lambda>x. \<not> locked x) (sort_key k (filter c xs))) \<le> length (sort_key k (filter c xs))"
    by (rule length_filter_le)
  also have "\<dots> \<le> n" using order_trans [OF length_filter_le [of c xs] *(2)] by simp
  finally have "rows = filter (\<lambda>x. \<not> locked x) (sort_key k (filter c xs))" unfolding assms(1) by (rule take_all)
  then show "set rows = {x \<in> set xs. c x}" using *(1) by auto
qed

locale row_batch =
  fixes body :: "job \<Rightarrow> 'a \<Rightarrow> 'a db_txn" and pick :: "job \<Rightarrow> bool" and new :: "job \<Rightarrow> job" and add :: "job \<Rightarrow> 'a \<Rightarrow> 'a"
  assumes keeps_id: "j_id (new j) = j_id j"
    and body_effect: "body r acc s = Inr (acc', s') \<Longrightarrow> r \<in> set (jobs s) \<Longrightarrow> distinct (map j_id (jobs s)) \<Longrightarrow>
      pick r \<Longrightarrow> jobs s' = upd_where (\<lambda>j. j = r) new (jobs s) \<and> acc' = add r acc"
begin

lemma batch_effect:
  assumes "txn_fold body rows acc s = Inr (acc', t)" and "distinct (map j_id (jobs s))"
    and "set rows \<subseteq> set (jobs s)" and "distinct rows" and "\<forall>r \<in> set rows. pick r"
  shows "jobs t = upd_where (\<lambda>j. j \<in> set rows) new (jobs s) \<and> acc' = fold add rows acc"
  using assms
proof (induction rows arbitrary: acc s)
  case Nil
  then show ?case by (simp add: txn_simps upd_where_id)
next
  case (Cons r rows)
  from Cons.prems(1) obtain acc1 s1 where step: "body r acc s = Inr (acc1, s1)"
    and rest: "txn_fold body rows acc1 s1 = Inr (acc', t)" by (auto simp: txn_bind_Inr)
  have s1: "jobs s1 = upd_where (\<lambda>j. j = r) new (jobs s)" "acc1 = add r acc"
    using body_effect [OF step] Cons.prems by auto
  have other: "x \<noteq> r \<and> x \<noteq> new r" if "x \<in> set rows" for x
    using that Cons.prems(2-4) keeps_id same_row [of j_id "jobs s" x r] by auto
  have ids: "distinct (map j_id (jobs s1))"
    using Cons.prems(2) map_upd_where [of "jobs s" "\<lambda>j. j = r" j_id new] keeps_id by (simp add: s1)
  have rows: "set rows \<subseteq> set (jobs s1)"
  proof
    fix x assume "x \<in> set rows"
    then have "x \<in> set (jobs s)" "x \<noteq> r" using Cons.prems(3) other by auto
    then show "x \<in> set (jobs s1)" using upd_where_mem [of x "jobs s" "\<lambda>j. j = r" new] by (simp add: s1)
  qed
  have "jobs t = upd_where (\<lambda>j. j \<in> set rows) new (jobs s1) \<and> acc' = fold add rows acc1"
    using Cons.IH [OF rest ids rows] Cons.prems(4,5) by auto
  moreover have "upd_where (\<lambda>j. j \<in> set rows) new (upd_where (\<lambda>j. j = r) new (jobs s)) =
      upd_where (\<lambda>j. j \<in> set (r # rows)) new (jobs s)"
    using other by (auto simp: upd_where_def)
  ultimately show ?case by (simp add: s1)
qed

end

text \<open>A guarded update by id is an update of the one row with that id.\<close>

lemma update_one_row:
  assumes "r \<in> set (jobs s)" and "distinct (map j_id (jobs s))" and "q r"
  shows "upd_where (\<lambda>j. j_id j = j_id r \<and> q j) f (jobs s) = upd_where (\<lambda>j. j = r) f (jobs s)"
  using assms same_row [OF assms(2)] by (auto simp: upd_where_def)

lemma event_record_jobs: "event_record ev i ty a b d s = Inr (x, t) \<Longrightarrow> jobs t = jobs s"
  using quiet_steps(2) by (auto simp: quiet_def)

lemma enqueue_jobs: "enqueue_terminal_notification ev job ety st res c msg now s = Inr (x, t) \<Longrightarrow> jobs t = jobs s"
  unfolding enqueue_terminal_notification_def notification_enqueue_def Let_def
  by (auto simp: txn_simps split: prod.splits if_splits)

section \<open>The bodies\<close>

definition promoted :: "datetime \<Rightarrow> job \<Rightarrow> job" where
  "promoted now j = j\<lparr>j_status := QUEUED, j_queued_at := Some now, j_last_dispatched_at := Some now,
     j_next_attempt_at := None, j_updated_at := now\<rparr>"

definition message :: "job \<Rightarrow> string \<times> JobPriority" where
  "message j = (uuid_str (j_id j), j_priority j)"

definition requeued :: "datetime \<Rightarrow> job \<Rightarrow> job" where
  "requeued now j = j\<lparr>j_status := QUEUED, j_queued_at := Some now, j_last_dispatched_at := Some now,
     j_locked_by := None, j_lock_expires_at := None, j_updated_at := now\<rparr>"

definition given_up :: "datetime \<Rightarrow> job \<Rightarrow> job" where
  "given_up now j = j\<lparr>j_status := FAILED, j_error_code := Some LEASE_EXPIRED_CODE,
     j_error_message := Some LEASE_EXPIRED_MESSAGE, j_completed_at := Some now, j_locked_by := None,
     j_lock_expires_at := None, j_dead_lettered_at := Some now, j_updated_at := now\<rparr>"

definition exhausted :: "job \<Rightarrow> bool" where
  "exhausted j \<longleftrightarrow> j_attempts j \<ge> j_max_attempts j"

definition expired :: "datetime \<Rightarrow> job \<Rightarrow> job" where
  "expired now j = j\<lparr>j_status := EXPIRED, j_completed_at := Some now, j_updated_at := now\<rparr>"

definition redispatched :: "(uuid \<Rightarrow> datetime) \<Rightarrow> job \<Rightarrow> job" where
  "redispatched now_at j = j\<lparr>j_last_dispatched_at := Some (now_at (j_id j)), j_updated_at := now_at (j_id j)\<rparr>"

interpretation promote_batch: row_batch "promote_row ev now" "\<lambda>j. j_status j = RETRYING" "promoted now"
    "\<lambda>j acc. acc @ [message j]" for ev now
proof unfold_locales
  fix r acc s acc' s'
  assume run: "promote_row ev now r acc s = Inr (acc', s')" and r: "r \<in> set (jobs s)" "distinct (map j_id (jobs s))"
    and pick: "j_status r = RETRYING"
  have "update_job_where (\<lambda>j. j_id j = j_id r \<and> j_status j = RETRYING) (promoted now) s = move_retry_to_queued (j_id r) now s"
    by (simp add: move_retry_to_queued_def promoted_def [abs_def])
  with run r pick update_one_row [OF r, of "\<lambda>j. j_status j = RETRYING" "promoted now"]
  show "jobs s' = upd_where (\<lambda>j. j = r) (promoted now) (jobs s) \<and> acc' = acc @ [message r]"
    unfolding promote_row_def message_def
    by (auto simp: txn_bind_Inr update_job_where_Inr txn_return_apply split: if_splits dest!: event_record_jobs)
qed (simp add: promoted_def)

definition reaped_job :: "datetime \<Rightarrow> job \<Rightarrow> job" where
  "reaped_job now j = (if exhausted j then given_up now j else requeued now j)"

fun reap_report :: "job \<Rightarrow> reaped \<Rightarrow> reaped" where
  "reap_report j (rq, dl) = (if exhausted j then (rq, dl @ [uuid_str (j_id j)]) else (rq @ [message j], dl))"

interpretation reap_batch: row_batch "reap_row ev now" "\<lambda>j. j_status j = RUNNING" "reaped_job now" reap_report for ev now
proof unfold_locales
  fix r s acc' s' and acc :: reaped
  assume run: "reap_row ev now r acc s = Inr (acc', s')" and r: "r \<in> set (jobs s)" "distinct (map j_id (jobs s))"
    and pick: "j_status r = RUNNING"
  obtain rq dl where acc: "acc = (rq, dl)" by (cases acc)
  note upd = update_one_row [OF r, where q = "\<lambda>j. j_status j = RUNNING"]
  have eq: "fail_expired_lease (j_id r) LEASE_EXPIRED_CODE LEASE_EXPIRED_MESSAGE now True s =
        update_job_where (\<lambda>j. j_id j = j_id r \<and> j_status j = RUNNING) (given_up now) s"
      "requeue_expired_lease (j_id r) now s =
        update_job_where (\<lambda>j. j_id j = j_id r \<and> j_status j = RUNNING) (requeued now) s"
    by (simp_all add: fail_expired_lease_def requeue_expired_lease_def given_up_def [abs_def] requeued_def [abs_def])
  have new: "upd_where (\<lambda>j. j = r) (reaped_job now) (jobs s) =
      upd_where (\<lambda>j. j = r) (if exhausted r then given_up now else requeued now) (jobs s)"
    by (auto simp: upd_where_def reaped_job_def)
  show "jobs s' = upd_where (\<lambda>j. j = r) (reaped_job now) (jobs s) \<and> acc' = reap_report r acc"
    using run r pick upd [OF pick] unfolding reap_row_def acc new
    by (auto simp: txn_bind_Inr eq update_job_where_Inr txn_return_apply message_def exhausted_def
        split: if_splits dest!: event_record_jobs enqueue_jobs)
qed (simp add: reaped_job_def given_up_def requeued_def)

interpretation expire_batch: row_batch "expire_row ev now" "\<lambda>j. j_status j \<in> set EXPIRABLE" "expired now" "\<lambda>_. Suc"
  for ev now
proof unfold_locales
  fix r n s n' s'
  assume run: "expire_row ev now r n s = Inr (n', s')" and r: "r \<in> set (jobs s)" "distinct (map j_id (jobs s))"
    and pick: "j_status r \<in> set EXPIRABLE"
  have "job_expire (j_id r) now s = update_job_where (\<lambda>j. j_id j = j_id r \<and> j_status j \<in> set EXPIRABLE) (expired now) s"
    by (simp add: job_expire_def expired_def [abs_def])
  with run r pick update_one_row [OF r, of "\<lambda>j. j_status j \<in> set EXPIRABLE" "expired now"]
  show "jobs s' = upd_where (\<lambda>j. j = r) (expired now) (jobs s) \<and> n' = Suc n"
    unfolding expire_row_def
    by (auto simp: txn_bind_Inr update_job_where_Inr txn_return_apply split: if_splits
        dest!: event_record_jobs enqueue_jobs orm_view_Inr)
qed (simp add: expired_def)

interpretation redeliver_batch: row_batch "redeliver_row now_at" "\<lambda>j. j_status j = QUEUED" "redispatched now_at"
    "\<lambda>j acc. acc @ [message j]" for now_at
proof unfold_locales
  fix r acc s acc' s'
  assume run: "redeliver_row now_at r acc s = Inr (acc', s')" and r: "r \<in> set (jobs s)" "distinct (map j_id (jobs s))"
    and pick: "j_status r = QUEUED"
  note upd = update_one_row [OF r, of "\<lambda>j. j_status j = QUEUED" "redispatched now_at"]
  have "upd_where (\<lambda>j. j_id j = j_id r \<and> j_status j = QUEUED)
      (\<lambda>j. j\<lparr>j_last_dispatched_at := Some (now_at (j_id r)), j_updated_at := now_at (j_id r)\<rparr>) (jobs s) =
      upd_where (\<lambda>j. j_id j = j_id r \<and> j_status j = QUEUED) (redispatched now_at) (jobs s)"
    by (auto simp: upd_where_def redispatched_def)
  with run pick upd show "jobs s' = upd_where (\<lambda>j. j = r) (redispatched now_at) (jobs s) \<and> acc' = acc @ [message r]"
    unfolding redeliver_row_def mark_redispatched_def message_def
    by (auto simp: txn_bind_Inr update_jobs_Inr txn_return_apply)
qed (simp add: redispatched_def)

lemma fold_append: "fold (\<lambda>j acc. acc @ [f j]) rows acc = acc @ map f rows"
  by (induction rows arbitrary: acc) simp_all

lemma fold_reap_report:
  "fold reap_report rows (rq, dl) =
     (rq @ map message (filter (\<lambda>j. \<not> exhausted j) rows), dl @ map (\<lambda>j. uuid_str (j_id j)) (filter exhausted rows))"
  by (induction rows arbitrary: rq dl) simp_all

section \<open>What each batch does\<close>

text \<open>The rows a scan may have claimed: all that satisfy the condition when nothing is locked and the
  batch is large enough.\<close>

definition unobstructed :: "session_env \<Rightarrow> nat \<Rightarrow> store \<Rightarrow> bool" where
  "unobstructed ev n s \<longleftrightarrow> (\<forall>j \<in> set (jobs s). \<not> row_locked ev (j_id j)) \<and> length (jobs s) \<le> n"

lemma scan_jobs:
  assumes "distinct (map j_id (jobs s))"
    and "rows = take n (filter (\<lambda>j. \<not> row_locked ev (j_id j)) (sort_key k (filter c (jobs s))))"
  shows "distinct rows" "set rows \<subseteq> set (jobs s)" "\<forall>j \<in> set rows. c j"
    "unobstructed ev n s \<Longrightarrow> set rows = {j \<in> set (jobs s). c j}"
proof -
  have "distinct (jobs s)" using assms(1) by (simp add: distinct_map)
  note scan = scan_rows [OF assms(2) this]
  show "distinct rows" by (rule scan(1))
  show "set rows \<subseteq> set (jobs s)" "\<forall>j \<in> set rows. c j" using scan(2) by auto
  show "set rows = {j \<in> set (jobs s). c j}" if "unobstructed ev n s"
    using that scan(3) by (simp add: unobstructed_def)
qed

lemma scan_all:
  assumes "rows = take n (filter (\<lambda>j. \<not> row_locked ev (j_id j)) (sort_key k (filter c (jobs s))))"
    and "unobstructed ev n s"
  shows "rows = sort_key k (filter c (jobs s))"
proof -
  have "length (sort_key k (filter c (jobs s))) \<le> n"
    using assms(2) order_trans [OF length_filter_le] by (auto simp: unobstructed_def)
  moreover have "filter (\<lambda>j. \<not> row_locked ev (j_id j)) (sort_key k (filter c (jobs s))) = sort_key k (filter c (jobs s))"
    using assms(2) by (intro filter_True) (simp add: unobstructed_def)
  ultimately show ?thesis unfolding assms(1) by simp
qed

lemma upd_where_members: "set rows = {x \<in> set xs. c x} \<Longrightarrow> upd_where (\<lambda>x. x \<in> set rows) f xs = upd_where c f xs"
  by (auto simp: upd_where_def)

lemma reap_rows:
  assumes "reap_txn ev now n s = Inr (x, t)" and "distinct (map j_id (jobs s))"
  obtains rows where "jobs t = upd_where (\<lambda>j. j \<in> set rows) (reaped_job now) (jobs s)" "x = fold reap_report rows ([], [])"
    "\<forall>j \<in> set rows. j_status j = RUNNING \<and> sql_lt (j_lock_expires_at j) now"
    "unobstructed ev n s \<Longrightarrow> set rows = {j \<in> set (jobs s). j_status j = RUNNING \<and> sql_lt (j_lock_expires_at j) now}"
    "unobstructed ev n s \<Longrightarrow> rows = sort_key j_lock_expires_at (filter (\<lambda>j. j_status j = RUNNING \<and> sql_lt (j_lock_expires_at j) now) (jobs s))"
proof -
  from assms(1) obtain rows where run: "txn_fold (reap_row ev now) rows ([], []) s = Inr (x, t)"
    and rows: "rows = take n (filter (\<lambda>j. \<not> row_locked ev (j_id j)) (sort_key j_lock_expires_at
       (filter (\<lambda>j. j_status j = RUNNING \<and> sql_lt (j_lock_expires_at j) now) (jobs s))))"
    unfolding reap_txn_def find_expired_leases_def by (simp add: txn_simps)
  note scan = scan_jobs [OF assms(2) rows]
  have "\<forall>j \<in> set rows. j_status j = RUNNING" using scan(3) by blast
  note effect = reap_batch.batch_effect [OF run assms(2) scan(2,1) this]
  show thesis by (rule that [OF conjunct1 [OF effect] conjunct2 [OF effect] scan(3,4) scan_all [OF rows]])
qed

lemma promote_rows:
  assumes "promote_txn ev now n s = Inr (x, t)" and "distinct (map j_id (jobs s))"
  obtains rows where "jobs t = upd_where (\<lambda>j. j \<in> set rows) (promoted now) (jobs s)" "x = map message rows"
    "\<forall>j \<in> set rows. j_status j = RETRYING \<and> sql_le (j_next_attempt_at j) now"
    "unobstructed ev n s \<Longrightarrow> set rows = {j \<in> set (jobs s). j_status j = RETRYING \<and> sql_le (j_next_attempt_at j) now}"
    "unobstructed ev n s \<Longrightarrow> rows = sort_key j_next_attempt_at (filter (\<lambda>j. j_status j = RETRYING \<and> sql_le (j_next_attempt_at j) now) (jobs s))"
proof -
  from assms(1) obtain rows where run: "txn_fold (promote_row ev now) rows [] s = Inr (x, t)"
    and rows: "rows = take n (filter (\<lambda>j. \<not> row_locked ev (j_id j)) (sort_key j_next_attempt_at
       (filter (\<lambda>j. j_status j = RETRYING \<and> sql_le (j_next_attempt_at j) now) (jobs s))))"
    unfolding promote_txn_def find_due_retries_def by (simp add: txn_simps)
  note scan = scan_jobs [OF assms(2) rows]
  have "\<forall>j \<in> set rows. j_status j = RETRYING" using scan(3) by blast
  note effect = promote_batch.batch_effect [OF run assms(2) scan(2,1) this, unfolded fold_append append_Nil]
  show thesis by (rule that [OF conjunct1 [OF effect] conjunct2 [OF effect] scan(3,4) scan_all [OF rows]])
qed

lemma expire_rows:
  assumes "expire_txn ev cfg now n s = Inr (x, t)" and "distinct (map j_id (jobs s))"
  defines "stale \<equiv> \<lambda>j. j_status j \<in> set EXPIRABLE \<and> j_created_at j < now - timedelta_seconds (job_queue_max_age_seconds cfg)"
  obtains rows where "jobs t = upd_where (\<lambda>j. j \<in> set rows) (expired now) (jobs s)"
    "\<forall>j \<in> set rows. stale j" "unobstructed ev n s \<Longrightarrow> set rows = {j \<in> set (jobs s). stale j}"
proof -
  from assms(1) obtain rows where run: "txn_fold (expire_row ev now) rows 0 s = Inr (x, t)"
    and rows: "rows = take n (filter (\<lambda>j. \<not> row_locked ev (j_id j)) (sort_key j_created_at (filter stale (jobs s))))"
    unfolding expire_txn_def find_expirable_def stale_def by (simp add: txn_simps)
  note scan = scan_jobs [OF assms(2) rows]
  have "\<forall>j \<in> set rows. j_status j \<in> set EXPIRABLE" using scan(3) by (simp add: stale_def)
  note effect = expire_batch.batch_effect [OF run assms(2) scan(2,1) this]
  show thesis by (rule that [OF conjunct1 [OF effect] scan(3,4)])
qed

end
