(* ===== verification/WorkerContracts.thy ===== *)
theory WorkerContracts
  imports Demo CodecFacts
begin

text \<open>
  What a worker promises: only one worker wins a claim, only the worker that holds a job writes its
  outcome, a message of the dispatcher is read by a worker as the job it names, and the statuses of
  jobs move along the edges of the transition table and two more.
\<close>

section \<open>Claims and fencing\<close>

lemma no_row_update: "\<forall>j \<in> set (jobs s). \<not> p j \<Longrightarrow> update_job_where p f s = Inr (False, s)"
  by (auto simp: update_job_where_Inr upd_where_id)

text \<open>
  C19. A claim is exclusive: once one attempt has claimed a job, no claim of that job by any worker
  succeeds until something releases it; the losing claim changes nothing.
\<close>

theorem claim_exclusive:
  assumes "exec_claim ev cfg w i now s = Inr (Some c, t)"
  shows "exec_claim ev' cfg' w' i now' t = Inr (None, t)"
proof -
  from assms obtain j where j: "j \<in> set (jobs s)" "claim_guard i j"
    and t: "jobs t = upd_where (claim_guard i) (claimed w (worker_lease_seconds cfg) now) (jobs s)"
  proof (cases rule: exec_claim_cases)
    case (2 j n aid s1 s2)
    obtain a where "s2 = s1\<lparr>uuid_calls := Suc (uuid_calls s1), job_attempts := job_attempts s1 @ [a]\<rparr>"
      using attempt_start_Inr [OF 2(5)] by auto
    moreover have "jobs t = jobs s2" using quiet_steps(2) [OF 2(6)] by (simp add: quiet_def)
    ultimately have "jobs t = upd_where (claim_guard i) (claimed w (worker_lease_seconds cfg) now) (jobs s)"
      by (simp add: 2(4))
    with 2(1,2) show ?thesis by (rule that)
  qed simp
  have running: "\<not> claim_guard i (claimed w l now y)" for l y
    by (simp add: claimed_def claim_guard_def CLAIMABLE_def)
  have none: "\<not> claim_guard i x" if x: "x \<in> set (jobs t)" for x
  proof -
    obtain y where "x = (if claim_guard i y then claimed w (worker_lease_seconds cfg) now y else y)"
      using x unfolding t in_set_upd_where by blast
    then show ?thesis using running by (cases "claim_guard i y") simp_all
  qed
  have "map j_id (jobs t) = map j_id (jobs s)"
    unfolding t by (rule map_upd_where) (simp add: claimed_def)
  moreover have "i \<in> set (map j_id (jobs s))" using j by (auto simp: claim_guard_def)
  ultimately have "i \<in> j_id ` set (jobs t)" by (metis list.set_map)
  then obtain job where "row_of j_id i (jobs t) = Some job"
    by (cases "row_of j_id i (jobs t)") (auto simp: row_of_None_iff)
  moreover have "claim_for_execution i w' (worker_lease_seconds cfg') now' t = Inr (None, t)"
  proof -
    have "filter (claim_guard i) (jobs t) = []" using none by (simp add: filter_empty_conv)
    moreover have "upd_where (claim_guard i) f (jobs t) = jobs t" for f using none by (rule upd_where_id)
    ultimately show ?thesis using none by (simp add: claim_for_execution_Inr)
  qed
  ultimately show ?thesis
    unfolding exec_claim_def by (simp add: txn_bind_step [where m = "job_get i"] txn_bind_step job_get_Inr txn_return_apply)
qed

theorem claim_exclusive_witness: "exec_claim demo_env default_settings ''w2'' 1 301 demo3 = Inr (None, demo3)"
  by (rule claim_exclusive [OF demo_runs(3) [unfolded demo_claim_def]])

text \<open>
  C20. A worker that does not hold a job cannot finish it: none of the four outcomes it may report
  changes a row of the jobs table or of the notifications; only the attempt is closed, as superseded.
\<close>

theorem outcome_needs_lock:
  assumes "\<forall>j \<in> set (jobs s). j_id j = i \<longrightarrow> j_locked_by j \<noteq> Some w"
    and "finalize_succeeded ev w i aid res now s = Inr (u1, t) \<or>
      finalize_failed ev w i aid c msg dl now s = Inr (u2, t) \<or>
      exec_schedule_retry ev w i aid c msg due now s = Inr (u3, t) \<or>
      finalize_cancelled ev w i aid now s = Inr (u4, t)"
  shows "jobs t = jobs s \<and> notification_outbox t = notification_outbox s"
proof -
  have lost: "mark_succeeded i w res now s = Inr (False, s)" "job_mark_failed i w c msg now dl s = Inr (False, s)"
      "job_schedule_retry i w c msg due now s = Inr (False, s)" "finalize_cancelled_by_worker i w now s = Inr (False, s)"
    unfolding mark_succeeded_def job_mark_failed_def job_schedule_retry_def finalize_cancelled_by_worker_def
    by (rule no_row_update, use assms(1) in blast)+
  have "quiet s t"
    using assms(2) unfolding finalize_succeeded_def finalize_failed_def exec_schedule_retry_def finalize_cancelled_def
    by (auto simp: service_simps lost txn_return_apply split: option.splits dest!: quiet_steps(3))
  then show ?thesis by (simp add: quiet_def)
qed

definition demo_superseded :: store where
  "demo_superseded = demo3\<lparr>job_attempts := [demo_attempt\<lparr>a_status := FAILED, a_completed_at := Some 500,
     a_error_code := Some ''SUPERSEDED'', a_error_message := Some ''attempt superseded before finalize''\<rparr>]\<rparr>"

theorem outcome_needs_lock_witness:
  "finalize_succeeded demo_env ''w2'' 1 5 [] 500 demo3 = Inr ((), demo_superseded) \<and>
   jobs demo_superseded = jobs demo3 \<and> notification_outbox demo_superseded = notification_outbox demo3"
proof
  show run: "finalize_succeeded demo_env ''w2'' 1 5 [] 500 demo3 = Inr ((), demo_superseded)" by code_simp
  show "jobs demo_superseded = jobs demo3 \<and> notification_outbox demo_superseded = notification_outbox demo3"
    by (rule outcome_needs_lock [OF _ disjI1 [OF run]])
       (simp add: demo3_def running_job_def)
qed

section \<open>A worker and a delivery to try things on\<close>

definition demo_worker :: "(string \<Rightarrow> string list) execution_env" where
  "demo_worker = \<lparr>x_worker_id = ''w1'', x_others = \<lambda>w. w, x_clock = \<lambda>_. 300, x_session = \<lambda>_. demo_env,
     x_random = \<lambda>_. Finite 0, x_error_text = \<lambda>_. [], x_heartbeat = \<lambda>_. Inr (), x_cancelled = \<lambda>_. False\<rparr>"

definition demo_delivery :: delivery_env where
  "demo_delivery = \<lparr>d_post = \<lambda>_. Inr 200, d_hmac = \<lambda>_ _. [], d_jsonb = \<lambda>d. d, d_now_at = \<lambda>_. 500, d_random = \<lambda>_. Finite 0\<rparr>"

section \<open>Messages\<close>

text \<open>
  What the dispatcher writes into the queue is what the worker reads from it: the text of a job
  id, consumed by a worker, starts the execution of that job.
\<close>

lemma message_roundtrip: "snd (process rc x cfg (uuid_str i) w) = snd (execute rc x cfg i w)"
  by (simp add: process_def uuid_roundtrip split: prod.split sum.split exn.split)

section \<open>The transition table\<close>

text \<open>The statements of \<^verbatim>\<open>job_repository.py\<close> that update the jobs table, each as its method
  runs it, with any arguments.\<close>

inductive job_update :: "store \<Rightarrow> store \<Rightarrow> bool" where
  redispatches: "mark_redispatched i now s = Inr (x0, t) \<Longrightarrow> job_update s t"
| claims: "claim_for_execution i w lease now s = Inr (x1, t) \<Longrightarrow> job_update s t"
| beats: "heartbeat i w lease now s = Inr (x2, t) \<Longrightarrow> job_update s t"
| progresses: "update_progress i w p lease now s = Inr (x2, t) \<Longrightarrow> job_update s t"
| succeeds: "mark_succeeded i w res now s = Inr (x2, t) \<Longrightarrow> job_update s t"
| fails: "job_mark_failed i w c msg now dl s = Inr (x2, t) \<Longrightarrow> job_update s t"
| retries: "job_schedule_retry i w c msg due now s = Inr (x2, t) \<Longrightarrow> job_update s t"
| worker_cancels: "finalize_cancelled_by_worker i w now s = Inr (x2, t) \<Longrightarrow> job_update s t"
| cancels: "cancel_inactive i reason now s = Inr (x2, t) \<Longrightarrow> job_update s t"
| asks_to_cancel: "request_running_cancellation i reason now s = Inr (x2, t) \<Longrightarrow> job_update s t"
| queues: "mark_queued i now s = Inr (x2, t) \<Longrightarrow> job_update s t"
| requeues: "requeue_expired_lease i now s = Inr (x2, t) \<Longrightarrow> job_update s t"
| gives_up: "fail_expired_lease i c msg now dl s = Inr (x2, t) \<Longrightarrow> job_update s t"
| promotes: "move_retry_to_queued i now s = Inr (x2, t) \<Longrightarrow> job_update s t"
| expires: "job_expire i now s = Inr (x2, t) \<Longrightarrow> job_update s t"

text \<open>An update takes a row of a reachable store from one status to another.\<close>

definition status_edge :: "JobStatus \<Rightarrow> JobStatus \<Rightarrow> bool" where
  "status_edge a b \<longleftrightarrow> a \<noteq> b \<and> (\<exists>s t j j'. reachable s \<and> job_update s t \<and>
     (j, j') \<in> set (zip (jobs s) (jobs t)) \<and> j_status j = a \<and> j_status j' = b)"

lemma zip_upd_where: "(j, j') \<in> set (zip xs (upd_where p f xs)) \<Longrightarrow> j' = (if p j then f j else j)"
  by (induction xs) auto

lemma job_update_edges:
  assumes "job_update s t" and "(j, j') \<in> set (zip (jobs s) (jobs t))" and "j_status j \<noteq> j_status j'"
  shows "can_transition (j_status j) (j_status j') \<or> j_status j = RETRYING \<and> j_status j' = RUNNING \<or>
    j_status j = RUNNING \<and> j_status j' = CANCELLED"
  using assms
  by (cases; (unfold mark_redispatched_def claim_for_execution_def heartbeat_def update_progress_def mark_succeeded_def
        job_mark_failed_def job_schedule_retry_def finalize_cancelled_by_worker_def cancel_inactive_def
        request_running_cancellation_def mark_queued_def requeue_expired_lease_def fail_expired_lease_def
        move_retry_to_queued_def job_expire_def)?;
      auto simp: update_job_where_def txn_simps guard_simps can_transition_def CLAIMABLE_def FINALIZABLE_def
        INACTIVE_CANCELLABLE_def EXPIRABLE_def dest!: zip_upd_where split: if_splits)

text \<open>The statuses an update leaves in a store.\<close>

definition statuses_after :: "'a db_txn \<Rightarrow> store \<Rightarrow> JobStatus list" where
  "statuses_after m s = (case m s of Inl _ \<Rightarrow> [] | Inr (x, t) \<Rightarrow> map j_status (jobs t))"

lemma status_edgeI:
  assumes "statuses_after m s = [b]" and "map j_status (jobs s) = [a]" and "a \<noteq> b" and "reachable s"
    and "\<And>x t. m s = Inr (x, t) \<Longrightarrow> job_update s t"
  shows "status_edge a b"
proof -
  from assms(1) obtain x t where run: "m s = Inr (x, t)" and b: "map j_status (jobs t) = [b]"
    by (auto simp: statuses_after_def split: sum.splits)
  from b assms(2) obtain j j' where "jobs s = [j]" "j_status j = a" "jobs t = [j']" "j_status j' = b" by auto
  with assms(3,4) assms(5) [OF run] show ?thesis unfolding status_edge_def by (intro conjI exI) auto
qed

lemma demo_updates:
  "statuses_after (mark_queued 1 500) demo1 = [QUEUED]"
  "statuses_after (cancel_inactive 1 None 500) demo1 = [CANCELLED]"
  "statuses_after (job_expire 1 500) demo1 = [EXPIRED]"
  "statuses_after (claim_for_execution 1 ''w'' 60 500) demo2 = [RUNNING]"
  "statuses_after (cancel_inactive 1 None 500) demo2 = [CANCELLED]"
  "statuses_after (job_expire 1 500) demo2 = [EXPIRED]"
  "statuses_after (mark_succeeded 1 ''w1'' [] 500) demo3 = [SUCCEEDED]"
  "statuses_after (job_mark_failed 1 ''w1'' [] [] 500 False) demo3 = [FAILED]"
  "statuses_after (job_schedule_retry 1 ''w1'' [] [] 900 500) demo3 = [RETRYING]"
  "statuses_after (request_running_cancellation 1 None 500) demo3 = [CANCELLING]"
  "statuses_after (requeue_expired_lease 1 500) demo3 = [QUEUED]"
  "statuses_after (finalize_cancelled_by_worker 1 ''w1'' 500) demo3 = [CANCELLED]"
  "statuses_after (finalize_cancelled_by_worker 1 ''w1'' 500) demo_cancelling = [CANCELLED]"
  "statuses_after (mark_succeeded 1 ''w1'' [] 500) demo_cancelling = [SUCCEEDED]"
  "statuses_after (job_mark_failed 1 ''w1'' [] [] 500 False) demo_cancelling = [FAILED]"
  by code_simp+

lemma statuses_after_update:
  assumes "jobs s = [j]" and "p j" and "job_row_check (f j) = None" and "j_status (f j) = b"
  shows "statuses_after (update_job_where p f) s = [b]"
    "statuses_after (txn_bind (txn_gets g) (\<lambda>rows. txn_bind (update_jobs p f) (\<lambda>_. txn_return (h rows)))) s = [b]"
  using assms by (simp_all add: statuses_after_def update_job_where_def update_jobs_def txn_bind_def txn_gets_def txn_return_def)

lemma demo_retrying_updates:
  "statuses_after (move_retry_to_queued 1 500) demo_retrying = [QUEUED]"
  "statuses_after (cancel_inactive 1 None 500) demo_retrying = [CANCELLED]"
  "statuses_after (claim_for_execution 1 ''w'' 60 500) demo_retrying = [RUNNING]"
  unfolding move_retry_to_queued_def cancel_inactive_def claim_for_execution_def
  by (rule statuses_after_update [where j = retrying_job], simp add: demo_retrying_def, code_simp, code_simp, code_simp)+

lemma demo_statuses:
  "map j_status (jobs demo1) = [PENDING]" "map j_status (jobs demo2) = [QUEUED]" "map j_status (jobs demo3) = [RUNNING]"
  "map j_status (jobs demo_retrying) = [RETRYING]" "map j_status (jobs demo_cancelling) = [CANCELLING]"
  by (simp_all add: demo1_def demo2_def demo3_def demo_retrying_def demo_cancelling_def demo_job_def new_job_def
      queued_job_def running_job_def retrying_job_def cancelling_job_def)

lemma demo_edges:
  "status_edge PENDING QUEUED" "status_edge PENDING CANCELLED" "status_edge PENDING EXPIRED"
  "status_edge QUEUED RUNNING" "status_edge QUEUED CANCELLED" "status_edge QUEUED EXPIRED"
  "status_edge RUNNING SUCCEEDED" "status_edge RUNNING FAILED" "status_edge RUNNING RETRYING"
  "status_edge RUNNING CANCELLING" "status_edge RUNNING QUEUED" "status_edge RUNNING CANCELLED"
  "status_edge RETRYING QUEUED" "status_edge RETRYING CANCELLED" "status_edge RETRYING RUNNING"
  "status_edge CANCELLING CANCELLED" "status_edge CANCELLING SUCCEEDED" "status_edge CANCELLING FAILED"
  by (rule status_edgeI, rule demo_updates demo_retrying_updates, rule demo_statuses, simp, rule demo_reachable,
      rule job_update.intros, assumption)+

text \<open>
  C22. The transition table and the program agree but for two edges. The updates of the jobs table take
  a row of a reachable store from one status to another exactly along the table's edges, and besides
  from RETRYING straight to RUNNING (a claim does not wait for the backoff) and from RUNNING straight
  to CANCELLED: there is no other, and each of them is taken.
\<close>

theorem lifecycle_edges:
  "status_edge a b \<longleftrightarrow> can_transition a b \<or> a = RETRYING \<and> b = RUNNING \<or> a = RUNNING \<and> b = CANCELLED"
proof
  assume "status_edge a b"
  then show "can_transition a b \<or> a = RETRYING \<and> b = RUNNING \<or> a = RUNNING \<and> b = CANCELLED"
    unfolding status_edge_def by (auto dest: job_update_edges)
next
  assume "can_transition a b \<or> a = RETRYING \<and> b = RUNNING \<or> a = RUNNING \<and> b = CANCELLED"
  then show "status_edge a b"
    using demo_edges by (cases a) (auto simp: can_transition_def)
qed

end
