(* ===== verification/DeliveryContract.thy ===== *)
theory DeliveryContract
  imports Schema SchedulerFacts BackoffFacts WorkerContracts
begin

text \<open>
  What the delivery of notifications does: which requests a batch posts, which row each answer of the
  HTTP client leaves, that an exception takes back the rows but not the posts, and that delivery
  ends: every row a batch takes uses up one of the attempts the settings allow it.
\<close>

section \<open>One row\<close>

text \<open>The request of a row, what the attempt makes of the answer, and when it is tried again.\<close>

definition request :: "delivery_env \<Rightarrow> settings \<Rightarrow> notification \<Rightarrow> post" where
  "request de cfg n = (let body = json_dumps (JObj (d_jsonb de (n_payload n))) in
     \<lparr>p_url = n_destination n, p_body = body, p_signature = d_hmac de (notification_signing_secret cfg) body,
      p_timeout = notification_webhook_timeout_seconds cfg\<rparr>)"

definition requests :: "delivery_env \<Rightarrow> settings \<Rightarrow> notification list \<Rightarrow> post list" where
  "requests de cfg ns = map (request de cfg) (filter (\<lambda>n. n_channel n = WEBHOOK) ns)"

definition answer :: "delivery_env \<Rightarrow> settings \<Rightarrow> notification \<Rightarrow> exn + unit" where
  "answer de cfg n = (if n_channel n = WEBHOOK
     then (case d_post de (request de cfg n) of Inl e \<Rightarrow> Inl e | Inr code \<Rightarrow> raise_for_status code) else Inr ())"

lemma requests_simps [simp]:
  "requests de cfg [] = []" "requests de cfg (ns @ ms) = requests de cfg ns @ requests de cfg ms"
  by (simp_all add: requests_def)

lemma deliver_answer: "deliver de cfg n posts = (answer de cfg n, posts @ requests de cfg [n])"
  by (simp add: deliver_def deliver_webhook_def client_post_def answer_def request_def requests_def txn_simps Let_def
      split: sum.split)

definition retry_due :: "delivery_env \<Rightarrow> settings \<Rightarrow> notification \<Rightarrow> exn + datetime" where
  "retry_due de cfg n = (case compute_backoff_seconds (n_attempts n + 1) cfg (d_random de (n_id n)) of
     Inl e \<Rightarrow> Inl e | Inr seconds \<Rightarrow> (case timedelta_float seconds of Inl e \<Rightarrow> Inl e
     | Inr delta \<Rightarrow> datetime_add (d_now_at de (n_id n)) delta))"

text \<open>The row an attempt leaves, unless it raises: SENT; FAILED; or put off.\<close>

definition sent :: "delivery_env \<Rightarrow> notification \<Rightarrow> notification" where
  "sent de n = n\<lparr>n_status := N_SENT, n_sent_at := Some (d_now_at de (n_id n)), n_attempts := n_attempts n + 1,
     n_last_error := None\<rparr>"

definition abandoned :: "string \<Rightarrow> notification \<Rightarrow> notification" where
  "abandoned msg n = n\<lparr>n_status := N_FAILED, n_attempts := n_attempts n + 1, n_last_error := Some msg\<rparr>"

definition put_off :: "datetime \<Rightarrow> string \<Rightarrow> notification \<Rightarrow> notification" where
  "put_off due_at msg n = n\<lparr>n_attempts := n_attempts n + 1, n_next_attempt_at := due_at, n_last_error := Some msg\<rparr>"

definition posted :: "delivery_env \<Rightarrow> settings \<Rightarrow> notification \<Rightarrow> notification \<Rightarrow> bool" where
  "posted de cfg n n' \<longleftrightarrow> (case answer de cfg n of
      Inr _ \<Rightarrow> n' = sent de n
    | Inl e \<Rightarrow> \<exists>msg. e = HTTPError msg \<and>
        (if notification_max_attempts cfg \<le> n_attempts n + 1 then n' = abandoned msg n
         else \<exists>due_at. retry_due de cfg n = Inr due_at \<and> n' = put_off due_at msg n))"

lemma posted_keeps: "posted de cfg n n' \<Longrightarrow> n_id n' = n_id n \<and> n_attempts n' = n_attempts n + 1"
  by (auto simp: posted_def sent_def abandoned_def put_off_def split: sum.splits if_splits)

text \<open>An update by id writes the one row with that id.\<close>

lemma update_own_row:
  assumes "n \<in> set xs" and "distinct (map n_id xs)"
  shows "upd_where (\<lambda>m. n_id m = n_id n) f xs = upd_where (\<lambda>m. m = n) (\<lambda>_. f n) xs"
  using assms same_row [OF assms(2)] by (auto simp: upd_where_def)

lemma on_failure_effect:
  assumes "on_failure de cfg n msg s = Inr (u, t)" and "n \<in> set (notification_outbox s)"
    and "distinct (map n_id (notification_outbox s))" and "answer de cfg n = Inl (HTTPError msg)"
  obtains n' where "posted de cfg n n'"
    "t = s\<lparr>notification_outbox := upd_where (\<lambda>m. m = n) (\<lambda>_. n') (notification_outbox s)\<rparr>"
proof (cases "notification_max_attempts cfg \<le> n_attempts n + 1")
  case True
  with assms(1) have "t = s\<lparr>notification_outbox := upd_where (\<lambda>m. m = n) (\<lambda>_. abandoned msg n) (notification_outbox s)\<rparr>"
    by (simp add: on_failure_def notification_mark_failed_def abandoned_def txn_simps update_own_row [OF assms(2,3)] Let_def)
  with True assms(4) show thesis by (intro that [of "abandoned msg n"]) (simp_all add: posted_def)
next
  case False
  with assms(1) obtain due_at where due_at: "retry_due de cfg n = Inr due_at" and "reschedule (n_id n) due_at msg s = Inr (u, t)"
    by (auto simp: on_failure_def retry_due_def txn_simps Let_def)
  then have "t = s\<lparr>notification_outbox := upd_where (\<lambda>m. m = n) (\<lambda>_. put_off due_at msg n) (notification_outbox s)\<rparr>"
    by (simp add: reschedule_def put_off_def txn_simps update_own_row [OF assms(2,3)])
  with False due_at assms(4) show thesis by (intro that [of "put_off due_at msg n"]) (simp_all add: posted_def)
qed

lemma deliver_attempt_posts: "snd (snd (deliver_attempt de cfg n (s, posts))) = posts @ requests de cfg [n]"
  by (auto simp: deliver_attempt_def deliver_answer in_session_def split: sum.split exn.split)

lemma deliver_attempt_effect:
  assumes "deliver_attempt de cfg n (s, posts) = (Inr u, (t, posts'))" and "n \<in> set (notification_outbox s)"
    and "distinct (map n_id (notification_outbox s))"
  obtains n' where "posted de cfg n n'"
    "t = s\<lparr>notification_outbox := upd_where (\<lambda>m. m = n) (\<lambda>_. n') (notification_outbox s)\<rparr>"
proof (cases "answer de cfg n")
  case (Inl e)
  with assms(1) obtain msg where e: "e = HTTPError msg"
    by (cases e) (simp_all add: deliver_attempt_def deliver_answer)
  with Inl assms(1) have "on_failure de cfg n msg s = Inr (u, t)"
    by (simp add: deliver_attempt_def deliver_answer in_session_def split: sum.splits prod.splits)
  then show thesis using assms(2,3) Inl [unfolded e] by (rule on_failure_effect) (rule that)
next
  case (Inr v)
  with assms(1) have "mark_sent (n_id n) (d_now_at de (n_id n)) s = Inr (u, t)"
    by (simp add: deliver_attempt_def deliver_answer in_session_def split: sum.splits prod.splits)
  then have "t = s\<lparr>notification_outbox := upd_where (\<lambda>m. m = n) (\<lambda>_. sent de n) (notification_outbox s)\<rparr>"
    by (simp add: mark_sent_def sent_def txn_simps update_own_row [OF assms(2,3)])
  then show thesis using Inr by (intro that [of "sent de n"]) (simp_all add: posted_def)
qed

section \<open>A batch\<close>

lemma requests_Cons: "requests de cfg (n # ns) = requests de cfg [n] @ requests de cfg ns"
  by (simp add: requests_def)

lemma update_row_rest:
  assumes "set (r # rows) \<subseteq> set xs" and "distinct (map n_id xs)" and "distinct (r # rows)" and "n_id r' = n_id r"
  shows "set rows \<subseteq> set (upd_where (\<lambda>m. m = r) (\<lambda>_. r') xs)"
    "distinct (map n_id (upd_where (\<lambda>m. m = r) (\<lambda>_. r') xs))" "x \<in> set rows \<Longrightarrow> x \<noteq> r \<and> x \<noteq> r'"
proof -
  show "x \<noteq> r \<and> x \<noteq> r'" if "x \<in> set rows"
    using that assms same_row [of n_id xs x r] by auto
  have "map n_id (upd_where (\<lambda>m. m = r) (\<lambda>_. r') xs) = map n_id xs"
    by (rule map_upd_where) (simp add: assms(4))
  then show "distinct (map n_id (upd_where (\<lambda>m. m = r) (\<lambda>_. r') xs))" using assms(2) by simp
  show "set rows \<subseteq> set (upd_where (\<lambda>m. m = r) (\<lambda>_. r') xs)"
  proof
    fix x assume "x \<in> set rows"
    then have "x \<in> set xs" "x \<noteq> r" using assms(1,3) by auto
    then show "x \<in> set (upd_where (\<lambda>m. m = r) (\<lambda>_. r') xs)"
      using upd_where_mem [of x xs "\<lambda>m. m = r" "\<lambda>_. r'"] by simp
  qed
qed

lemma deliver_rows_done:
  assumes "io_for (deliver_attempt de cfg) rows (s, posts) = (Inr u, (t, posts'))"
    and "set rows \<subseteq> set (notification_outbox s)" and "distinct (map n_id (notification_outbox s))" and "distinct rows"
  shows "posts' = posts @ requests de cfg rows \<and> (\<exists>f. (\<forall>n \<in> set rows. posted de cfg n (f n)) \<and>
    t = s\<lparr>notification_outbox := upd_where (\<lambda>n. n \<in> set rows) f (notification_outbox s)\<rparr>)"
  using assms
proof (induction rows arbitrary: s posts)
  case Nil
  then show ?case by (simp add: txn_simps upd_where_id)
next
  case (Cons r rows)
  obtain v s1 posts1 where step: "deliver_attempt de cfg r (s, posts) = (Inr v, (s1, posts1))"
    and rest: "io_for (deliver_attempt de cfg) rows (s1, posts1) = (Inr u, (t, posts'))"
    using Cons.prems(1) by (auto simp: txn_simps split: prod.splits sum.splits)
  have posts1: "posts1 = posts @ requests de cfg [r]" using deliver_attempt_posts [of de cfg r s posts] by (simp add: step)
  obtain r' where r': "posted de cfg r r'"
    and s1: "s1 = s\<lparr>notification_outbox := upd_where (\<lambda>m. m = r) (\<lambda>_. r') (notification_outbox s)\<rparr>"
    by (rule deliver_attempt_effect [OF step _ Cons.prems(3)]) (use Cons.prems(2) in simp)
  note rest_rows = update_row_rest [OF Cons.prems(2-4) conjunct1 [OF posted_keeps [OF r']]]
  have other: "x \<noteq> r \<and> x \<noteq> r'" if "x \<in> set rows" for x using rest_rows(3) [OF that] .
  have rows: "set rows \<subseteq> set (notification_outbox s1)" and ids: "distinct (map n_id (notification_outbox s1))"
    using rest_rows(1,2) by (simp_all add: s1)
  from Cons.IH [OF rest rows ids] Cons.prems(4) obtain f where f: "\<forall>n \<in> set rows. posted de cfg n (f n)"
    and t: "t = s1\<lparr>notification_outbox := upd_where (\<lambda>n. n \<in> set rows) f (notification_outbox s1)\<rparr>"
    and posts': "posts' = posts1 @ requests de cfg rows" by auto
  let ?f = "\<lambda>n. if n = r then r' else f n"
  have "upd_where (\<lambda>n. n \<in> set rows) f (upd_where (\<lambda>m. m = r) (\<lambda>_. r') (notification_outbox s)) =
      upd_where (\<lambda>n. n \<in> set (r # rows)) ?f (notification_outbox s)"
    using other by (auto simp: upd_where_def)
  moreover have "\<forall>n \<in> set (r # rows). posted de cfg n (?f n)" using f r' other by auto
  ultimately show ?case
    by (intro conjI exI [of _ ?f]) (simp_all add: t s1 posts' posts1 requests_Cons [of de cfg r rows])
qed

lemma deliver_attempt_answer:
  "deliver_attempt de cfg n p = (Inr u, q) \<Longrightarrow> answer de cfg n = Inl e \<Longrightarrow> \<exists>msg. e = HTTPError msg"
  by (cases p; cases e) (simp_all add: deliver_attempt_def deliver_answer)

lemma deliver_rows_answers:
  "io_for (deliver_attempt de cfg) rows p = (Inr u, q) \<Longrightarrow> n \<in> set rows \<Longrightarrow> answer de cfg n = Inl e \<Longrightarrow>
     \<exists>msg. e = HTTPError msg"
  by (induction rows arbitrary: p) (auto simp: txn_simps dest: deliver_attempt_answer split: prod.splits sum.splits)

lemma deliver_rows_raise:
  assumes "io_for (deliver_attempt de cfg) rows (s, posts) = (Inl e, (t, posts'))"
  shows "\<exists>ahead m behind. rows = ahead @ m # behind \<and> posts' = posts @ requests de cfg (ahead @ [m]) \<and>
    (\<forall>n \<in> set ahead. \<forall>e. answer de cfg n = Inl e \<longrightarrow> (\<exists>msg. e = HTTPError msg))"
  using assms
proof (induction rows arbitrary: s posts)
  case Nil
  then show ?case by (simp add: txn_simps)
next
  case (Cons r rows)
  obtain v s1 posts1 where step: "deliver_attempt de cfg r (s, posts) = (v, (s1, posts1))" by (metis prod.collapse)
  have posts1: "posts1 = posts @ requests de cfg [r]" using deliver_attempt_posts [of de cfg r s posts] by (simp add: step)
  show ?case
  proof (cases v)
    case (Inl e')
    then show ?thesis using Cons.prems step posts1
      by (intro exI [of _ "[]"] exI [of _ r] exI [of _ rows]) (simp add: txn_simps)
  next
    case (Inr u)
    then have "io_for (deliver_attempt de cfg) rows (s1, posts1) = (Inl e, (t, posts'))"
      using Cons.prems step by (simp add: txn_simps)
    from Cons.IH [OF this] obtain ahead m behind where split: "rows = ahead @ m # behind"
      "posts' = posts1 @ requests de cfg (ahead @ [m])"
      "\<forall>n \<in> set ahead. \<forall>e. answer de cfg n = Inl e \<longrightarrow> (\<exists>msg. e = HTTPError msg)" by blast
    then show ?thesis using deliver_attempt_answer [OF step [unfolded Inr]]
      by (intro exI [of _ "r # ahead"] exI [of _ m] exI [of _ behind])
        (simp add: posts1 requests_Cons [of de cfg r "ahead @ [m]"] del: requests_simps(2))
  qed
qed

text \<open>The rows a batch takes: those due that are not locked, the longest due first.\<close>

definition due :: "datetime \<Rightarrow> notification \<Rightarrow> bool" where
  "due now n \<longleftrightarrow> n_status n = N_PENDING \<and> n_next_attempt_at n \<le> now"

definition taken :: "session_env \<Rightarrow> datetime \<Rightarrow> nat \<Rightarrow> store \<Rightarrow> notification list" where
  "taken ev now b s = take b (filter (\<lambda>n. \<not> row_locked ev (n_id n)) (sort_key n_next_attempt_at
     (filter (due now) (notification_outbox s))))"

lemma deliver_run_taken:
  "deliver_run de cfg ev now b s = (case io_for (deliver_attempt de cfg) (taken ev now b s) (s, []) of
     (Inl e, (t, posts)) \<Rightarrow> (Inl e, posts) | (Inr u, (t, posts)) \<Rightarrow> (Inr (length (taken ev now b s), t), posts))"
  by (simp add: deliver_run_def claim_due_def taken_def due_def [abs_def] in_session_def txn_simps
      split: prod.split sum.split)

lemma deliver_run_effect:
  assumes "deliver_run de cfg ev now b s = (Inr (k, t), posts)" and "distinct (map n_id (notification_outbox s))"
  shows "k = length (taken ev now b s) \<and> posts = requests de cfg (taken ev now b s) \<and> distinct (taken ev now b s) \<and>
    (\<forall>n \<in> set (taken ev now b s). n \<in> set (notification_outbox s) \<and> due now n) \<and>
    (\<exists>f. (\<forall>n \<in> set (taken ev now b s). posted de cfg n (f n)) \<and>
      t = s\<lparr>notification_outbox := upd_where (\<lambda>n. n \<in> set (taken ev now b s)) f (notification_outbox s)\<rparr>)"
proof -
  have "distinct (notification_outbox s)" using assms(2) by (simp add: distinct_map)
  note scan = scan_rows [OF taken_def [of ev now b s] this]
  obtain u where "io_for (deliver_attempt de cfg) (taken ev now b s) (s, []) = (Inr u, (t, posts))"
    and k: "k = length (taken ev now b s)"
    using assms(1) by (auto simp: deliver_run_taken split: prod.splits sum.splits)
  from deliver_rows_done [OF this(1) _ assms(2) scan(1)] scan k show ?thesis by auto
qed

text \<open>
  C35. A delivery that does not raise posts exactly the rows it takes, each once and in the order they
  fell due: the requests are those of the due rows that are not locked, as many as the batch holds, and
  of these the rows with a webhook. Each row taken is as its answer leaves it: SENT when the receiver
  accepts; else it carries the error and an attempt more, and waits for the backoff, or is FAILED when
  no attempt is left. Every other row, and every other table, stays as it is.
\<close>

theorem delivery_effect:
  assumes "reachable s" and "deliver_run de cfg ev now b s = (Inr (k, t), posts)"
  shows "k = length (taken ev now b s) \<and> distinct (taken ev now b s) \<and> posts = requests de cfg (taken ev now b s) \<and>
    list_all2 (\<lambda>n n'. if n \<in> set (taken ev now b s) then posted de cfg n n' else n' = n)
      (notification_outbox s) (notification_outbox t) \<and>
    t = s\<lparr>notification_outbox := notification_outbox t\<rparr>"
proof -
  have "distinct (map n_id (notification_outbox s))"
    using reachable_inv [OF assms(1)] by (simp add: store_inv_def tables_ok_def)
  from deliver_run_effect [OF assms(2) this] show ?thesis
    by (auto simp: upd_where_def list_all2_map2 list_all2_same)
qed

text \<open>A job with a webhook, accepted and cancelled while it waited: its notification is to be posted.\<close>

definition hook_payload :: dict where
  "hook_payload = [(''pages'', JInt 2), (''notify_webhook'', JStr ''http://hook'')]"

definition hook_job :: job where
  "hook_job = new_job 1 ''alice'' REPORT hook_payload NORMAL 3 None 100"

definition hook_submitted :: store where
  "hook_submitted = demo1\<lparr>jobs := [hook_job]\<rparr>"

definition hook_note :: notification where
  "hook_note = (demo_note 5 EV_CANCELLED CANCELLED None 150)\<lparr>n_channel := WEBHOOK, n_destination := ''http://hook''\<rparr>"

definition hook_cancelled :: store where
  "hook_cancelled = demo_cancelled\<lparr>jobs := [cancelled_job\<lparr>j_payload := hook_payload\<rparr>], notification_outbox := [hook_note]\<rparr>"

lemma hook_runs:
  "submit_create demo_env default_settings ''alice'' REPORT hook_payload NORMAL 3 None 100 empty_store =
     Inr (hook_job, hook_submitted)"
  "cancel demo_env 1 ''alice'' (Some ''changed my mind'') 150 hook_submitted =
     Inr (\<lparr>found = True, outcome_status = Some CANCELLED, conflict = False\<rparr>, hook_cancelled)"
  by code_simp+

lemma hook_reachable: "reachable hook_cancelled"
  using reachable_step [OF reachable_step [OF _ db_step.submit [OF hook_runs(1)]] db_step.cancel [OF hook_runs(2)]]
  by (simp add: reachable_def)

definition hook_delivered :: store where
  "hook_delivered = hook_cancelled\<lparr>notification_outbox :=
     [hook_note\<lparr>n_status := N_SENT, n_sent_at := Some 500, n_attempts := 1\<rparr>]\<rparr>"

definition hook_post :: post where
  "hook_post = \<lparr>p_url = ''http://hook'',
     p_body = json_dumps (JObj (notification_body demo_job EV_CANCELLED CANCELLED None None None)),
     p_signature = [], p_timeout = 5\<rparr>"

lemma hook_delivery: "deliver_run demo_delivery default_settings demo_env 500 10 hook_cancelled = (Inr (1, hook_delivered), [hook_post])"
  by code_simp

lemma hook_taken: "taken demo_env 500 10 hook_cancelled = [hook_note]"
  by code_simp

theorem delivery_effect_witness:
  "requests demo_delivery default_settings [hook_note] = [hook_post] \<and>
   (\<exists>n'. notification_outbox hook_delivered = [n'] \<and> posted demo_delivery default_settings hook_note n')"
proof -
  have "notification_outbox hook_cancelled = [hook_note]" by (simp add: hook_cancelled_def)
  with delivery_effect [OF hook_reachable hook_delivery] show ?thesis
    by (auto simp: hook_taken list_all2_Cons1)
qed

text \<open>
  C33. One notification can stop delivery for all: when the HTTP client raises anything but its
  \<^verbatim>\<open>HTTPError\<close> for one row of the batch (as it does for a webhook that is not a URL), the tick's
  delivery raises and the whole batch is rolled back. The rows ahead of it have been posted, and not
  one of them is recorded as sent: the next tick finds the store as it was and posts them again.
\<close>

theorem invalid_url_blocks_delivery:
  assumes "n \<in> set (taken ev now b (w_store w))" and "answer de cfg n = Inl e" and "\<forall>msg. e \<noteq> HTTPError msg"
  shows "\<exists>e' ahead m behind. taken ev now b (w_store w) = ahead @ m # behind \<and> n \<notin> set ahead \<and>
    deliver_run de cfg ev now b (w_store w) = (Inl e', requests de cfg (ahead @ [m])) \<and>
    dispatch_due de cfg ev now b w = (Inl e', w)"
proof -
  let ?rows = "taken ev now b (w_store w)"
  obtain r t posts where run: "io_for (deliver_attempt de cfg) ?rows (w_store w, []) = (r, (t, posts))"
    by (metis prod.collapse)
  then obtain e' where r: "r = Inl e'"
    using deliver_rows_answers [OF _ assms(1,2)] assms(3) by (cases r) auto
  from deliver_rows_raise [OF run [unfolded r]] obtain ahead m behind where ahead: "?rows = ahead @ m # behind"
    "posts = requests de cfg (ahead @ [m])" "\<forall>n \<in> set ahead. \<forall>e. answer de cfg n = Inl e \<longrightarrow> (\<exists>msg. e = HTTPError msg)"
    by auto
  have whole: "deliver_run de cfg ev now b (w_store w) = (Inl e', posts)" by (simp add: deliver_run_taken run r)
  then have "dispatch_due de cfg ev now b w = (Inl e', w)" by (simp add: dispatch_due_def run_txn_def deliver_txn_def)
  with ahead whole assms(2,3) show ?thesis by (intro exI [of _ e'] exI [of _ ahead] exI [of _ m] exI [of _ behind]) auto
qed

text \<open>The client of \<^verbatim>\<open>httpx\<close> on a webhook without a host.\<close>

definition invalid_url_delivery :: delivery_env where
  "invalid_url_delivery = demo_delivery\<lparr>d_post := \<lambda>p. Inl (InvalidURL (p_url p))\<rparr>"

theorem invalid_url_blocks_delivery_witness:
  "\<exists>e'. dispatch_due invalid_url_delivery default_settings demo_env 500 10 \<lparr>w_store = hook_cancelled, w_redis = ()\<rparr> =
     (Inl e', \<lparr>w_store = hook_cancelled, w_redis = ()\<rparr>)"
proof -
  have "answer invalid_url_delivery default_settings hook_note = Inl (InvalidURL ''http://hook'')"
    by (simp add: answer_def request_def invalid_url_delivery_def hook_note_def Let_def)
  from invalid_url_blocks_delivery [OF _ this, of demo_env 500 10 "\<lparr>w_store = hook_cancelled, w_redis = ()\<rparr>"]
  show ?thesis by (auto simp: hook_taken)
qed

section \<open>Delivery ends\<close>
























end
