(* ===== verification/SchedulerContracts.thy ===== *)
theory SchedulerContracts
  imports SchedulerFacts
begin

text \<open>
  What a scheduler's tick promises: each scan moves exactly the jobs it is for, a job whose worker
  sends heartbeats is not reaped, and every job that waits to be dispatched is published.
\<close>

section \<open>The scans on the demonstration stores\<close>

definition demo_reaped :: store where
  "demo_reaped = demo3\<lparr>jobs := [requeued 60000400 running_job],
     job_events := job_events demo3 @ [demo_event 7 EV_REQUEUED (Some RUNNING) (Some QUEUED)
       [(''reason'', JStr ''lease_expired'')]], uuid_calls := 7\<rparr>"

definition demo_promoted :: store where
  "demo_promoted = demo_retrying\<lparr>jobs := [promoted 5000 retrying_job],
     job_events := job_events demo_retrying @ [demo_event 8 EV_QUEUED (Some RETRYING) (Some QUEUED)
       [(''attempt'', JInt 1)]], uuid_calls := 8\<rparr>"

definition demo_expired :: store where
  "demo_expired = demo2\<lparr>jobs := [expired 3600000101 queued_job],
     job_events := job_events demo2 @ [demo_event 5 EV_EXPIRED (Some EXPIRED) (Some EXPIRED) []],
     notification_outbox := [(demo_note 6 EV_EXPIRED EXPIRED None 3600000101)\<lparr>n_payload :=
       notification_body demo_job EV_EXPIRED EXPIRED None (Some EXPIRED_CODE) (Some EXPIRED_MESSAGE)\<rparr>],
     uuid_calls := 6\<rparr>"

section \<open>Leases and retries\<close>

text \<open>The jobs whose lease has run out, and those whose backoff has passed, in the order of the scans.\<close>

definition leases_expired :: "datetime \<Rightarrow> store \<Rightarrow> job list" where
  "leases_expired now s = sort_key j_lock_expires_at
     (filter (\<lambda>j. j_status j = RUNNING \<and> sql_lt (j_lock_expires_at j) now) (jobs s))"

definition retries_due :: "datetime \<Rightarrow> store \<Rightarrow> job list" where
  "retries_due now s = sort_key j_next_attempt_at
     (filter (\<lambda>j. j_status j = RETRYING \<and> sql_le (j_next_attempt_at j) now) (jobs s))"

lemma publish_all_store: "w_store (snd (publish_all rc cfg msgs w)) = w_store w"
  unfolding publish_all_def
  by (rule io_for_invariant [where I = "\<lambda>u. w_store u = w_store w"]) (auto simp: run_redis_def split: prod.split)

text \<open>A batch of messages that was published without an error: each is at the head of its list, the
  later ones in front.\<close>

context redis_lists begin

lemma publish_all_contents:
  assumes "publish_all rc cfg msgs w = (Inr (), w')"
  shows "w_store w' = w_store w \<and> contents (w_redis w') = (\<lambda>k.
    rev (map fst (filter (\<lambda>m. queue_key (redis_queue_namespace cfg) (snd m) = k) msgs)) @ contents (w_redis w) k)"
  using assms unfolding publish_all_def
proof (induction msgs arbitrary: w)
  case Nil
  then show ?case by (simp add: txn_simps)
next
  case (Cons m msgs)
  obtain i p where m: "m = (i, p)" by (cases m)
  from Cons.prems obtain r where pub: "publish rc (redis_queue_namespace cfg) i p (w_redis w) = (Inr (), r)"
    and rest: "io_for (\<lambda>(job_id, priority). run_redis (publish rc (redis_queue_namespace cfg) job_id priority)) msgs
      (w\<lparr>w_redis := r\<rparr>) = (Inr (), w')"
    by (auto simp: m txn_simps run_redis_def split: prod.splits sum.splits)
  have "contents r = (contents (w_redis w))(queue_key (redis_queue_namespace cfg) p :=
      i # contents (w_redis w) (queue_key (redis_queue_namespace cfg) p))" using pub by (rule publish_lists)
  with Cons.IH [OF rest] show ?case by (simp add: m fun_eq_iff)
qed

end

text \<open>
  C15. The lease reaper, when nothing obstructs it, moves exactly the running jobs whose lease has
  expired: back to the queue while attempts remain, to FAILED and the dead-letter list when they
  are used up. Every other job keeps its row. The messages and the dead letters it returns to be
  published are those of the jobs it moved, in the order of their leases.
\<close>

theorem reaper_effect:
  assumes "reachable s" and "unobstructed ev n s" and "reap_txn ev now n s = Inr (x, t)"
  shows "jobs t = map (\<lambda>j. if j_status j = RUNNING \<and> sql_lt (j_lock_expires_at j) now
     then (if j_attempts j \<ge> j_max_attempts j then given_up now j else requeued now j) else j) (jobs s) \<and>
    x = (map message (filter (\<lambda>j. j_attempts j < j_max_attempts j) (leases_expired now s)),
      map (\<lambda>j. uuid_str (j_id j)) (filter (\<lambda>j. j_attempts j \<ge> j_max_attempts j) (leases_expired now s)))"
proof -
  have "distinct (map j_id (jobs s))" using reachable_inv [OF assms(1)] by (rule store_inv_distinct)
  from assms(3) this obtain rows where rows: "jobs t = upd_where (\<lambda>j. j \<in> set rows) (reaped_job now) (jobs s)"
    "set rows = {j \<in> set (jobs s). j_status j = RUNNING \<and> sql_lt (j_lock_expires_at j) now}"
    "x = fold reap_report rows ([], [])" "rows = leases_expired now s"
    unfolding leases_expired_def by (rule reap_rows) (use assms(2) in blast)
  then show ?thesis
    by (simp add: upd_where_def reaped_job_def exhausted_def [abs_def] fold_reap_report not_le cong: map_cong)
qed

theorem reaper_effect_witness:
  "reap_txn demo_env 60000400 10 demo3 = Inr (([(uuid_str 1, NORMAL)], []), demo_reaped) \<and>
   jobs demo_reaped = [requeued 60000400 running_job]"
proof
  show run: "reap_txn demo_env 60000400 10 demo3 = Inr (([(uuid_str 1, NORMAL)], []), demo_reaped)" by code_simp
  have "unobstructed demo_env 10 demo3" by (simp add: unobstructed_def demo_env_def demo3_def)
  from reaper_effect [OF demo_reachable(3) this run] show "jobs demo_reaped = [requeued 60000400 running_job]"
    by (simp add: demo3_def running_job_def queued_job_def demo_job_def new_job_def)
qed

text \<open>
  C17. The retry scan, when nothing obstructs it, returns to the queue exactly the retrying jobs
  whose backoff has passed; a job whose due time lies ahead keeps waiting. In the jobs table, their
  rows become QUEUED and the others stay. In Redis, their ids are put, in the order they fell due, in
  front of the list of their priority, and nothing else changes.
\<close>

theorem promotion_effect:
  assumes "reachable (w_store w)" and "unobstructed ev n (w_store w)"
    and "promote_txn ev now n (w_store w) = Inr (x, t)" and "redis_lists rc contents"
    and "promote_due rc cfg ev now n w = (r, w')"
  shows "jobs (w_store w') = map (\<lambda>j. if j_status j = RETRYING \<and> sql_le (j_next_attempt_at j) now
       then promoted now j else j) (jobs (w_store w)) \<and>
    (\<forall>k. r = Inr k \<longrightarrow> k = length (retries_due now (w_store w)) \<and>
      (\<forall>key. contents (w_redis w') key = rev (map (\<lambda>j. uuid_str (j_id j))
         (filter (\<lambda>j. queue_key (redis_queue_namespace cfg) (j_priority j) = key) (retries_due now (w_store w)))) @
         contents (w_redis w) key))"
proof -
  let ?s = "w_store w"
  have "distinct (map j_id (jobs ?s))" using reachable_inv [OF assms(1)] by (rule store_inv_distinct)
  from assms(3) this obtain rows where rows: "jobs t = upd_where (\<lambda>j. j \<in> set rows) (promoted now) (jobs ?s)"
    "set rows = {j \<in> set (jobs ?s). j_status j = RETRYING \<and> sql_le (j_next_attempt_at j) now}"
    "x = map message rows" "rows = retries_due now ?s"
    unfolding retries_due_def by (rule promote_rows) (use assms(2) in blast)
  have t: "jobs t = map (\<lambda>j. if j_status j = RETRYING \<and> sql_le (j_next_attempt_at j) now
      then promoted now j else j) (jobs ?s)" using rows(1,2) by (simp add: upd_where_def cong: map_cong)
  obtain r1 w1 where pub: "publish_all rc cfg x (w\<lparr>w_store := t\<rparr>) = (r1, w1)" by fastforce
  have due: "promote_due rc cfg ev now n w = (case r1 of Inl e \<Rightarrow> (Inl e, w1) | Inr _ \<Rightarrow> (Inr (length x), w1))"
    by (simp add: promote_due_def run_txn_def assms(3) txn_simps pub split: sum.split)
  have "w_store w1 = t" using publish_all_store [of rc cfg x "w\<lparr>w_store := t\<rparr>"] by (simp add: pub)
  then have jobs: "jobs (w_store w') = jobs t" using due assms(5) by (auto split: sum.splits)
  show ?thesis
  proof (cases r1)
    case (Inl e)
    then show ?thesis using due assms(5) jobs t by auto
  next
    case (Inr u)
    then have "r = Inr (length x)" "w' = w1" using due assms(5) by auto
    with redis_lists.publish_all_contents [OF assms(4)] pub Inr jobs t show ?thesis
      by (simp add: rows(3,4) message_def filter_map o_def)
  qed
qed

theorem promotion_effect_witness:
  "\<exists>w'. promote_due mem_redis default_settings demo_env 5000 10 \<lparr>w_store = demo_retrying, w_redis = (\<lambda>_. [''x''])\<rparr> = (Inr 1, w') \<and>
   jobs (w_store w') = [promoted 5000 retrying_job] \<and>
   w_redis w' (queue_key ''job_orchestrator'' NORMAL) = [uuid_str 1, ''x''] \<and>
   w_redis w' (queue_key ''job_orchestrator'' HIGH) = [''x'']"
proof -
  let ?w = "\<lparr>w_store = demo_retrying, w_redis = (\<lambda>_. [''x''])\<rparr> :: (string \<Rightarrow> string list) world"
  have run: "promote_txn demo_env 5000 10 (w_store ?w) = Inr ([(uuid_str 1, NORMAL)], demo_promoted)"
    unfolding demo_promoted_def demo_retrying_def demo_due world.simps by code_simp
  have free: "unobstructed demo_env 10 (w_store ?w)" by (simp add: unobstructed_def demo_env_def demo_retrying_def)
  have reach: "reachable (w_store ?w)" using demo_reachable(5) by simp
  obtain w' where due: "promote_due mem_redis default_settings demo_env 5000 10 ?w = (Inr 1, w')"
    using run by (simp add: promote_due_def run_txn_def txn_simps publish_all_def run_redis_def publish_def mem_redis_def)
  have table: "jobs demo_retrying = [retrying_job]" by (simp add: demo_retrying_def)
  have job: "j_status retrying_job = RETRYING" "j_next_attempt_at retrying_job = Some 5000" "j_id retrying_job = 1"
    "j_priority retrying_job = NORMAL"
    by (simp_all add: retrying_job_def running_job_def queued_job_def demo_job_def new_job_def)
  have rows: "retries_due 5000 demo_retrying = [retrying_job]" by (simp add: retries_due_def table job)
  from promotion_effect [OF reach free run mem.redis_lists_axioms due] due show ?thesis
    by (simp add: rows table job default_settings_def queue_key_inj)
qed

text \<open>
  C18. Expiry, when nothing obstructs it, ends exactly the jobs that wait to start and were created
  longer ago than the configured age; a job that has started in time is not among them.
\<close>

theorem expiry_effect:
  assumes "reachable s" and "unobstructed ev n s" and "expire_txn ev cfg now n s = Inr (x, t)"
  shows "jobs t = map (\<lambda>j. if j_status j \<in> {PENDING, QUEUED} \<and>
       j_created_at j < now - job_queue_max_age_seconds cfg * microseconds then expired now j else j) (jobs s)"
proof -
  have "distinct (map j_id (jobs s))" using reachable_inv [OF assms(1)] by (rule store_inv_distinct)
  from assms(3) this obtain rows where "jobs t = upd_where (\<lambda>j. j \<in> set rows) (expired now) (jobs s)"
    "set rows = {j \<in> set (jobs s). j_status j \<in> set EXPIRABLE \<and>
       j_created_at j < now - timedelta_seconds (job_queue_max_age_seconds cfg)}"
    by (rule expire_rows) (use assms(2) in blast)
  then show ?thesis by (simp add: upd_where_def EXPIRABLE_def timedelta_seconds_def cong: map_cong)
qed

theorem expiry_effect_witness:
  "expire_txn demo_env default_settings 3600000101 10 demo2 = Inr (1, demo_expired) \<and>
   jobs demo_expired = [expired 3600000101 queued_job]"
proof
  show run: "expire_txn demo_env default_settings 3600000101 10 demo2 = Inr (1, demo_expired)" by code_simp
  have "unobstructed demo_env 10 demo2" by (simp add: unobstructed_def demo_env_def demo2_def)
  from expiry_effect [OF demo_reachable(2) this run] show "jobs demo_expired = [expired 3600000101 queued_job]"
    by (simp add: demo2_def queued_job_def demo_job_def new_job_def default_settings_def)
qed

text \<open>
  C16. A heartbeat protects its job: while the lease it wrote has not run out, no reaper touches the
  job, whatever else the reaper's batch contains.
\<close>

theorem heartbeat_protects:
  assumes "reachable s" and "exec_heartbeat cfg w i now s = Inr (True, s1)"
    and "j \<in> set (jobs s1)" and "j_id j = i" and "later \<le> now + worker_lease_seconds cfg * microseconds"
    and "reap_txn ev later n s1 = Inr (x, t)"
  shows "j \<in> set (jobs t)"
proof -
  have inv: "store_inv s" using assms(1) by (rule reachable_inv)
  have "store_inv s1" using inv_worker_updates(1) inv assms(2) by (rule preservesD)
  then have d: "distinct (map j_id (jobs s1))" by (rule store_inv_distinct)
  define g where "g = (\<lambda>j :: job. j_id j = i \<and> j_locked_by j = Some w \<and> j_status j = RUNNING)"
  define f where "f = (\<lambda>j :: job. j\<lparr>j_heartbeat_at := Some now,
      j_lock_expires_at := Some (now + timedelta_seconds (worker_lease_seconds cfg)), j_updated_at := now\<rparr>)"
  have s1: "jobs s1 = upd_where g f (jobs s)" and "\<exists>j0 \<in> set (jobs s). g j0"
    using assms(2) by (auto simp: exec_heartbeat_def heartbeat_def update_job_where_Inr g_def f_def)
  then obtain j0 where j0: "j0 \<in> set (jobs s)" "g j0" by blast
  then have "f j0 \<in> set (jobs s1)" using upd_where_mem [of j0 "jobs s" g f] by (simp add: s1)
  moreover have "j_id (f j0) = i" using j0(2) by (simp add: f_def g_def)
  ultimately have "j = f j0" using same_row [OF d assms(3)] assms(4) by metis
  then have live: "\<not> sql_lt (j_lock_expires_at j) later" using assms(5) by (simp add: f_def timedelta_seconds_def)
  from assms(6) d obtain rows where "jobs t = upd_where (\<lambda>j. j \<in> set rows) (reaped_job later) (jobs s1)"
    "\<forall>j \<in> set rows. j_status j = RUNNING \<and> sql_lt (j_lock_expires_at j) later" by (rule reap_rows)
  then show ?thesis using live upd_where_mem [OF assms(3), of "\<lambda>j. j \<in> set rows" "reaped_job later"] by auto
qed

definition beating_job :: job where
  "beating_job = running_job\<lparr>j_heartbeat_at := Some 1000, j_lock_expires_at := Some 60001000, j_updated_at := 1000\<rparr>"

theorem heartbeat_protects_witness:
  "reap_txn demo_env 60000400 10 (demo3\<lparr>jobs := [beating_job]\<rparr>) = Inr (([], []), demo3\<lparr>jobs := [beating_job]\<rparr>) \<and>
   beating_job \<in> set (jobs (demo3\<lparr>jobs := [beating_job]\<rparr>))"
proof
  show run: "reap_txn demo_env 60000400 10 (demo3\<lparr>jobs := [beating_job]\<rparr>) = Inr (([], []), demo3\<lparr>jobs := [beating_job]\<rparr>)"
    by code_simp
  have "exec_heartbeat default_settings ''w1'' 1 1000 demo3 = Inr (True, demo3\<lparr>jobs := [beating_job]\<rparr>)" by code_simp
  from heartbeat_protects [OF demo_reachable(3) this _ _ _ run]
  show "beating_job \<in> set (jobs (demo3\<lparr>jobs := [beating_job]\<rparr>))"
    by (simp add: beating_job_def running_job_def queued_job_def demo_job_def new_job_def default_settings_def)
qed

section \<open>Dispatch\<close>

definition dispatched :: "job \<Rightarrow> job \<Rightarrow> bool" where
  "dispatched a b \<longleftrightarrow> j_id b = j_id a \<and> j_priority b = j_priority a \<and>
     (j_status b = j_status a \<or> j_status a = PENDING \<and> j_status b = QUEUED)"

lemma dispatched_trans: "dispatched a b \<Longrightarrow> dispatched b c \<Longrightarrow> dispatched a c"
  by (auto simp: dispatched_def)

lemma dispatch_row_effect:
  assumes "store_inv u" and "outbox_row u r" and "dispatch_row ev now r acc u = Inr (acc', u')"
  shows "\<exists>j \<in> set (jobs u). j_id j = o_job_id r \<and> acc' = acc @ [message j]"
    "\<forall>d \<in> set (dispatch_outbox u'). o_status d = O_PENDING \<longrightarrow> o_id d \<noteq> o_id r \<and> d \<in> set (dispatch_outbox u)"
    "\<forall>d \<in> set (dispatch_outbox u). o_id d \<noteq> o_id r \<longrightarrow> d \<in> set (dispatch_outbox u')"
    "\<forall>j \<in> set (jobs u). \<exists>j' \<in> set (jobs u'). dispatched j j'"
proof -
  have "o_job_id r \<in> job_ids u" using assms(1,2) by (auto simp: outbox_row_def store_inv_def tables_ok_def)
  then obtain job where job: "row_of j_id (o_job_id r) (jobs u) = Some job"
    by (cases "row_of j_id (o_job_id r) (jobs u)") (auto simp: row_of_None_iff job_ids_def)
  with assms(3) obtain s1 s2 b where steps: "mark_published (o_id r) now u = Inr ((), s1)"
      "mark_queued (o_job_id r) now s1 = Inr (b, s2)"
      "event_record ev (o_job_id r) EV_QUEUED (Some PENDING) (Some QUEUED) [] s2 = Inr ((), u')"
      "acc' = acc @ [(uuid_str (o_job_id r), j_priority job)]"
    by (auto simp: dispatch_row_def service_simps txn_return_apply)
  show "\<exists>j \<in> set (jobs u). j_id j = o_job_id r \<and> acc' = acc @ [message j]"
    using row_of_SomeD [OF job] steps(4) by (auto simp: message_def)
  have "dispatch_outbox u' = upd_where (\<lambda>d. o_id d = o_id r)
      (\<lambda>d. d\<lparr>o_status := O_PUBLISHED, o_published_at := Some now, o_attempts := o_attempts d + 1\<rparr>) (dispatch_outbox u)"
    using steps(1-3) by (auto simp: mark_published_def mark_queued_def event_record_def txn_simps)
  then show "\<forall>d \<in> set (dispatch_outbox u'). o_status d = O_PENDING \<longrightarrow> o_id d \<noteq> o_id r \<and> d \<in> set (dispatch_outbox u)"
    "\<forall>d \<in> set (dispatch_outbox u). o_id d \<noteq> o_id r \<longrightarrow> d \<in> set (dispatch_outbox u')"
    by (auto simp: upd_where_def split: if_splits)
  let ?g = "\<lambda>j :: job. j_id j = o_job_id r \<and> j_status j = PENDING"
    and ?f = "\<lambda>j :: job. j\<lparr>j_status := QUEUED, j_queued_at := Some now, j_last_dispatched_at := Some now, j_updated_at := now\<rparr>"
  have "jobs u' = upd_where ?g ?f (jobs u)"
    using steps(1-3) by (auto simp: mark_published_def mark_queued_def event_record_def txn_simps)
  moreover have "dispatched j (if ?g j then ?f j else j)" for j by (simp add: dispatched_def)
  ultimately show "\<forall>j \<in> set (jobs u). \<exists>j' \<in> set (jobs u'). dispatched j j'"
    using upd_where_mem [of _ "jobs u" ?g ?f] by (intro ballI bexI) (assumption, simp)
qed

text \<open>
  The loop over the batch: the rows done so far are published and their jobs are in the list of
  messages, the rows of the outbox that are not in the batch are as they were.
\<close>

definition pending :: "store \<Rightarrow> dispatch_outbox_row set" where
  "pending s = {d \<in> set (dispatch_outbox s). o_status d = O_PENDING}"

definition dispatch_progress ::
  "store \<Rightarrow> dispatch_outbox_row list \<Rightarrow> dispatch_outbox_row list \<Rightarrow> (string \<times> JobPriority) list \<Rightarrow> store \<Rightarrow> bool" where
  "dispatch_progress s rows rs acc u \<longleftrightarrow> store_inv u \<and> (\<forall>r \<in> set rs. outbox_row u r) \<and> set rs \<subseteq> set rows \<and>
     (\<forall>d \<in> pending u. d \<in> pending s \<and> (d \<in> set rows \<longrightarrow> d \<in> set rs)) \<and> pending s - set rows \<subseteq> pending u \<and>
     (\<forall>j \<in> set (jobs s). \<exists>j' \<in> set (jobs u). dispatched j j') \<and>
     (\<forall>r \<in> set rows. r \<in> set rs \<or> (\<exists>j \<in> set (jobs u). j_id j = o_job_id r \<and> message j \<in> set acc))"

lemma dispatch_progress_step:
  assumes "distinct (map o_id (dispatch_outbox s))" and "set rows \<subseteq> pending s"
    and "dispatch_progress s rows (r # rs) acc u" and "dispatch_row ev now r acc u = Inr (acc', u')"
  shows "dispatch_progress s rows rs acc' u'"
proof -
  note I = assms(3) [unfolded dispatch_progress_def]
  have u: "store_inv u" "outbox_row u r" using I by simp_all
  note effect = dispatch_row_effect [OF u assms(4)]
  have next_: "store_inv u'" "\<forall>k. outbox_row u k \<longrightarrow> outbox_row u' k" using inv_dispatch_row [OF u assms(4)] by auto
  obtain j0 where j0: "j0 \<in> set (jobs u)" "j_id j0 = o_job_id r" "acc' = acc @ [message j0]" using effect(1) by blast
  have carried: "\<exists>j' \<in> set (jobs u'). j_id j' = j_id j \<and> message j' = message j" if "j \<in> set (jobs u)" for j
    using that effect(4) by (fastforce simp: dispatched_def message_def)
  have "\<exists>j \<in> set (jobs u'). j_id j = o_job_id r' \<and> message j \<in> set acc'"
    if r': "r' \<in> set rows" "r' \<notin> set rs" for r'
  proof (cases "r' = r")
    case True
    then show ?thesis using carried [OF j0(1)] j0 by auto
  next
    case False
    have "r' \<in> set (r # rs) \<or> (\<exists>j \<in> set (jobs u). j_id j = o_job_id r' \<and> message j \<in> set acc)"
      using I r'(1) by blast
    then obtain j where "j \<in> set (jobs u)" "j_id j = o_job_id r'" "message j \<in> set acc" using False r'(2) by auto
    then show ?thesis using carried [of j] j0(3) by force
  qed
  moreover have "\<exists>j' \<in> set (jobs u'). dispatched j j'" if "j \<in> set (jobs s)" for j
  proof -
    obtain k where k: "k \<in> set (jobs u)" "dispatched j k" using I \<open>j \<in> set (jobs s)\<close> by blast
    moreover obtain j' where "j' \<in> set (jobs u')" "dispatched k j'" using effect(4) k(1) by blast
    ultimately show ?thesis using dispatched_trans by blast
  qed
  moreover have "d \<in> pending s \<and> (d \<in> set rows \<longrightarrow> d \<in> set rs)" if "d \<in> pending u'" for d
  proof -
    have d: "o_id d \<noteq> o_id r" "d \<in> pending u" using that effect(2) by (simp_all add: pending_def)
    then have "d \<noteq> r" by blast
    moreover have "d \<in> pending s \<and> (d \<in> set rows \<longrightarrow> d \<in> set (r # rs))" using I d(2) by blast
    ultimately show ?thesis by simp
  qed
  moreover have "pending s - set rows \<subseteq> pending u'"
  proof
    fix d assume d: "d \<in> pending s - set rows"
    have "r \<in> pending s" using I assms(2) by auto
    have "o_id d \<noteq> o_id r"
    proof
      assume "o_id d = o_id r"
      then have "d = r" using same_row [OF assms(1), of d r] d \<open>r \<in> pending s\<close> by (simp add: pending_def)
      then show False using d I by simp
    qed
    then show "d \<in> pending u'" using d I effect(3) by (auto simp: pending_def)
  qed
  ultimately show ?thesis using I next_ unfolding dispatch_progress_def by auto
qed

text \<open>A job waits to be dispatched exactly while its outbox row does.\<close>

lemma pending_row:
  assumes "store_inv s" and "j \<in> set (jobs s)" and "j_status j = PENDING"
  obtains d where "d \<in> pending s" "o_job_id d = j_id j"
proof -
  have "outbox_agrees PENDING (outbox s (j_id j))"
    using assms by (auto simp: store_inv_def rows_inv_def job_inv_def)
  then have "O_PENDING \<in> set (outbox s (j_id j))" by (auto simp: outbox_agrees_def split: list.splits OutboxStatus.splits)
  then obtain d where "d \<in> set (dispatch_outbox s)" "o_status d = O_PENDING" "o_job_id d = j_id j"
    by (auto simp: outbox_def)
  then show thesis by (intro that [of d]) (simp_all add: pending_def)
qed

lemma queued_row:
  assumes "store_inv s" and "j \<in> set (jobs s)" and "j_status j = QUEUED" and "d \<in> pending s"
  shows "o_job_id d \<noteq> j_id j"
proof
  assume "o_job_id d = j_id j"
  then have "O_PENDING \<in> set (outbox s (j_id j))" using assms(4) by (force simp: outbox_def pending_def)
  moreover have "outbox_agrees QUEUED (outbox s (j_id j))"
    using assms(1-3) by (auto simp: store_inv_def rows_inv_def job_inv_def)
  ultimately show False by (auto simp: outbox_agrees_def split: list.splits OutboxStatus.splits)
qed

text \<open>
  One dispatch: it publishes a row of the outbox for each place in its batch, as long as there are
  any, and a job that waited is published and QUEUED, or waits still.
\<close>

lemma dispatch_batch:
  assumes "store_inv s" and "\<And>i. \<not> row_locked ev i" and "dispatch_txn ev now n s = Inr (msgs, t)"
  shows "card (pending t) \<le> card (pending s) - n"
    and "\<And>j. j \<in> set (jobs s) \<Longrightarrow> \<exists>j' \<in> set (jobs t). dispatched j j'"
    and "\<And>j j'. j \<in> set (jobs s) \<Longrightarrow> j_status j = PENDING \<Longrightarrow> j' \<in> set (jobs t) \<Longrightarrow> dispatched j j' \<Longrightarrow>
      j_status j' = QUEUED \<Longrightarrow> message j \<in> set msgs"
proof -
  define rows where "rows = take n (filter (\<lambda>d. \<not> row_locked ev (o_id d)) (sort_key o_created_at
        (filter (\<lambda>d. o_status d = O_PENDING) (dispatch_outbox s))))"
  have run: "txn_fold (dispatch_row ev now) rows [] s = Inr (msgs, t)"
    using assms(3) unfolding dispatch_txn_def claim_pending_def rows_def by (simp add: txn_simps)
  have ids: "distinct (map o_id (dispatch_outbox s))" using assms(1) by (simp add: store_inv_def tables_ok_def)
  then have d: "distinct (dispatch_outbox s)" by (simp add: distinct_map)
  note scan = scan_rows [OF rows_def d]
  have sub: "set rows \<subseteq> pending s" using scan(2) by (auto simp: pending_def)
  have card_s: "card (pending s) = length (filter (\<lambda>d. o_status d = O_PENDING) (dispatch_outbox s))"
    using distinct_card [OF distinct_filter [OF d, of "\<lambda>d. o_status d = O_PENDING"]] by (simp add: pending_def)
  have "length rows = min n (card (pending s))" using assms(2) by (simp add: rows_def card_s min.commute)
  then have card: "card (set rows) = min n (card (pending s))" using scan(1) by (simp add: distinct_card)
  have "dispatch_progress s rows rows [] s"
    using assms(1) sub by (auto simp: dispatch_progress_def outbox_row_def dispatched_def pending_def)
  with run have final: "dispatch_progress s rows [] msgs t"
    by (rule txn_fold_rule [where I = "dispatch_progress s rows"]) (rule dispatch_progress_step [OF ids sub])
  then have left: "pending t = pending s - set rows" by (auto simp: dispatch_progress_def)
  have "finite (pending s)" by (simp add: pending_def)
  then show "card (pending t) \<le> card (pending s) - n" using card sub by (simp add: left card_Diff_subset)
  show "\<And>j. j \<in> set (jobs s) \<Longrightarrow> \<exists>j' \<in> set (jobs t). dispatched j j'" using final by (simp add: dispatch_progress_def)
  fix j j' assume j: "j \<in> set (jobs s)" "j_status j = PENDING" and j': "j' \<in> set (jobs t)" "dispatched j j'" "j_status j' = QUEUED"
  have t: "store_inv t" using final by (simp add: dispatch_progress_def)
  obtain r where r: "r \<in> pending s" "o_job_id r = j_id j" using assms(1) j by (rule pending_row)
  have "r \<notin> pending t" using queued_row [OF t j'(1,3), of r] j'(2) r(2) by (auto simp: dispatched_def)
  then have "r \<in> set rows" using r(1) left by blast
  then obtain j1 where j1: "j1 \<in> set (jobs t)" "j_id j1 = j_id j" "message j1 \<in> set msgs"
    using final r(2) by (auto simp: dispatch_progress_def)
  have "j1 = j'"
    by (rule same_row [OF store_inv_distinct [OF t] j1(1) j'(1)]) (use j1(2) j'(2) in \<open>simp add: dispatched_def\<close>)
  then show "message j \<in> set msgs" using j1 j' by (simp add: message_def dispatched_def)
qed

context redis_lists begin

lemma publish_all_lists:
  assumes "publish_all rc cfg msgs w = (Inr (), w')"
  shows "w_store w' = w_store w" "set (contents (w_redis w) k) \<subseteq> set (contents (w_redis w') k)"
    "(i, p) \<in> set msgs \<Longrightarrow> i \<in> set (contents (w_redis w') (queue_key (redis_queue_namespace cfg) p))"
  using publish_all_contents [OF assms] by force+

end

text \<open>One dispatch after another, by one scheduler or several in turn.\<close>

primrec dispatch_rounds ::
  "'r redis \<Rightarrow> settings \<Rightarrow> (nat \<Rightarrow> session_env) \<Rightarrow> (nat \<Rightarrow> datetime) \<Rightarrow> nat \<Rightarrow> nat \<Rightarrow> ('r world, exn, unit) io" where
  "dispatch_rounds rc cfg evs nows n 0 = io_return ()"
| "dispatch_rounds rc cfg evs nows n (Suc m) =
     io_bind (dispatch_pending rc cfg (evs m) (nows m) n) (\<lambda>_. dispatch_rounds rc cfg evs nows n m)"

definition in_queue :: "('r \<Rightarrow> string \<Rightarrow> string list) \<Rightarrow> settings \<Rightarrow> 'r world \<Rightarrow> job \<Rightarrow> bool" where
  "in_queue contents cfg w j \<longleftrightarrow>
     uuid_str (j_id j) \<in> set (contents (w_redis w) (queue_key (redis_queue_namespace cfg) (j_priority j)))"

lemma dispatched_alike: "dispatched j j' \<Longrightarrow> in_queue contents cfg w j' = in_queue contents cfg w j"
  by (auto simp: dispatched_def in_queue_def)

context redis_lists begin

lemma dispatch_pending_effect:
  assumes "store_inv (w_store w)" and "\<And>i. \<not> row_locked ev i" and "dispatch_pending rc cfg ev now n w = (Inr k, w')"
  shows "store_inv (w_store w')" and "card (pending (w_store w')) \<le> card (pending (w_store w)) - n"
    and "\<And>j. j \<in> set (jobs (w_store w)) \<Longrightarrow> \<exists>j' \<in> set (jobs (w_store w')). dispatched j j' \<and>
      (in_queue contents cfg w j \<longrightarrow> in_queue contents cfg w' j) \<and>
      (j_status j = PENDING \<and> j_status j' = QUEUED \<longrightarrow> in_queue contents cfg w' j)"
proof -
  obtain msgs t where txn: "dispatch_txn ev now n (w_store w) = Inr (msgs, t)"
    and pub: "publish_all rc cfg msgs (w\<lparr>w_store := t\<rparr>) = (Inr (), w')"
    using assms(3) by (auto simp: dispatch_pending_def run_txn_def txn_simps split: sum.splits prod.splits)
  note batch = dispatch_batch [OF assms(1,2) txn] and lists = publish_all_lists [OF pub]
  have t: "w_store w' = t" using lists(1) by simp
  have "preserves store_inv (dispatch_txn ev now n)" by (rule preserves_intros)
  with assms(1) txn show "store_inv (w_store w')" unfolding t by (rule preservesD [rotated])
  show "card (pending (w_store w')) \<le> card (pending (w_store w)) - n" using batch(1) by (simp add: t)
  fix j assume j: "j \<in> set (jobs (w_store w))"
  obtain j' where j': "j' \<in> set (jobs t)" "dispatched j j'" using batch(2) [OF j] by blast
  have "in_queue contents cfg w j \<longrightarrow> in_queue contents cfg w' j" using lists(2) by (auto simp: in_queue_def)
  moreover have "j_status j = PENDING \<and> j_status j' = QUEUED \<longrightarrow> in_queue contents cfg w' j"
    using batch(3) [OF j _ j'] lists(3) by (auto simp: in_queue_def message_def)
  ultimately show "\<exists>j' \<in> set (jobs (w_store w')). dispatched j j' \<and>
      (in_queue contents cfg w j \<longrightarrow> in_queue contents cfg w' j) \<and>
      (j_status j = PENDING \<and> j_status j' = QUEUED \<longrightarrow> in_queue contents cfg w' j)"
    using j' unfolding t by blast
qed

lemma dispatch_rounds_effect:
  assumes "dispatch_rounds rc cfg evs nows n m w = (Inr (), w')" and "store_inv (w_store w)"
    and "\<And>k i. \<not> row_locked (evs k) i" and "card (pending (w_store w)) \<le> m * n"
    and "j \<in> set (jobs (w_store w))" and "j_status j = PENDING \<or> j_status j = QUEUED \<and> in_queue contents cfg w j"
  shows "in_queue contents cfg w' j \<and> (\<exists>j' \<in> set (jobs (w_store w')). j_id j' = j_id j \<and> j_status j' = QUEUED)"
  using assms(1,2,4-6)
proof (induction m arbitrary: w j)
  case 0
  have "finite (pending (w_store w))" by (simp add: pending_def)
  then have "pending (w_store w) = {}" using "0.prems"(3) by simp
  then have "j_status j \<noteq> PENDING" using "0.prems"(2,4) pending_row by blast
  then show ?case using 0 by (auto simp: txn_simps)
next
  case (Suc m)
  obtain k w1 where one: "dispatch_pending rc cfg (evs m) (nows m) n w = (Inr k, w1)"
    and rest: "dispatch_rounds rc cfg evs nows n m w1 = (Inr (), w')"
    using Suc.prems(1) by (auto simp: txn_simps split: prod.splits sum.splits)
  note effect = dispatch_pending_effect [OF Suc.prems(2) assms(3) one]
  have few: "card (pending (w_store w1)) \<le> m * n" using effect(2) Suc.prems(3) by simp
  obtain j1 where j1: "j1 \<in> set (jobs (w_store w1))" "dispatched j j1"
    "in_queue contents cfg w j \<longrightarrow> in_queue contents cfg w1 j"
    "j_status j = PENDING \<and> j_status j1 = QUEUED \<longrightarrow> in_queue contents cfg w1 j"
    using effect(3) [OF Suc.prems(4)] by blast
  have "j_status j1 = PENDING \<or> j_status j1 = QUEUED \<and> in_queue contents cfg w1 j1"
    using j1 Suc.prems(5) dispatched_alike [OF j1(2)] by (auto simp: dispatched_def)
  from Suc.IH [OF rest effect(1) few j1(1) this] show ?case
    using j1(2) dispatched_alike [OF j1(2)] by (auto simp: dispatched_def)
qed

end

text \<open>
  C14. Every accepted job gets to the queue, however small the batches: after as many dispatches as
  their batch size takes to cover the rows that wait in the outbox, each job that was PENDING is
  QUEUED and its id is in the queue of its priority. Each dispatch publishes as many rows as its
  batch holds, so none waits for ever behind the others.
\<close>

theorem pending_jobs_published:
  assumes "redis_lists rc contents" and "reachable (w_store w)" and "\<forall>k i. \<not> row_locked (evs k) i"
    and "dispatch_rounds rc cfg evs nows n m w = (Inr (), w')" and "card (pending (w_store w)) \<le> m * n"
    and "j \<in> set (jobs (w_store w))" and "j_status j = PENDING"
  shows "uuid_str (j_id j) \<in> set (contents (w_redis w') (queue_key (redis_queue_namespace cfg) (j_priority j))) \<and>
    (\<exists>j' \<in> set (jobs (w_store w')). j_id j' = j_id j \<and> j_status j' = QUEUED)"
  using redis_lists.dispatch_rounds_effect [OF assms(1,4) reachable_inv [OF assms(2)] _ assms(5,6)] assms(3,7)
  by (simp add: in_queue_def)

text \<open>Two jobs, and two dispatches of one row each.\<close>

definition second_job :: job where
  "second_job = new_job 21 ''alice'' REPORT [(''pages'', JInt 2)] HIGH 3 None 150"

definition demo_env2 :: session_env where
  "demo_env2 = demo_env\<lparr>server_now := 150, uuid7 := \<lambda>n. of_nat (n + 18)\<rparr>"

definition demo_two :: store where
  "demo_two = (case submit_create demo_env2 default_settings ''alice'' REPORT [(''pages'', JInt 2)] HIGH 3 None 150 demo1 of
     Inl _ \<Rightarrow> demo1 | Inr (_, s) \<Rightarrow> s)"

lemma demo_two_runs:
  "submit_create demo_env2 default_settings ''alice'' REPORT [(''pages'', JInt 2)] HIGH 3 None 150 demo1 =
     Inr (second_job, demo_two)"
  "jobs demo_two = [demo_job, second_job]" "map o_status (dispatch_outbox demo_two) = [O_PENDING, O_PENDING]"
  by code_simp+

theorem pending_jobs_published_witness:
  "\<exists>w'. dispatch_rounds mem_redis default_settings (\<lambda>_. demo_env) (\<lambda>_. 200) 1 2 \<lparr>w_store = demo_two, w_redis = (\<lambda>_. [])\<rparr> =
       (Inr (), w') \<and>
     uuid_str 21 \<in> set (w_redis w' (queue_key ''job_orchestrator'' HIGH)) \<and>
     (\<exists>j' \<in> set (jobs (w_store w')). j_id j' = 21 \<and> j_status j' = QUEUED)"
proof -
  let ?w = "\<lparr>w_store = demo_two, w_redis = (\<lambda>_. [])\<rparr> :: (string \<Rightarrow> string list) world"
  let ?run = "dispatch_rounds mem_redis default_settings (\<lambda>_. demo_env) (\<lambda>_. 200) 1 2 ?w"
  have r: "reachable (w_store ?w)"
    using reachable_step [OF demo_reachable(1) db_step.submit [OF demo_two_runs(1)]] by simp
  have "(case fst ?run of Inr _ \<Rightarrow> True | Inl _ \<Rightarrow> False)" by code_simp
  then obtain w' where run: "?run = (Inr (), w')" by (cases ?run) (auto split: sum.splits)
  have unlocked: "\<forall>k i. \<not> row_locked ((\<lambda>_ :: nat. demo_env) k) i" by (simp add: demo_env_def)
  have "card (pending (w_store ?w)) \<le> length (dispatch_outbox demo_two)"
    using order_trans [OF card_mono card_length, of "dispatch_outbox demo_two" "pending demo_two"] by (auto simp: pending_def)
  also have "\<dots> = 2 * 1" using arg_cong [OF demo_two_runs(3), of length] by simp
  finally have few: "card (pending (w_store ?w)) \<le> 2 * 1" .
  have "second_job \<in> set (jobs (w_store ?w))" "j_status second_job = PENDING"
    by (simp_all add: demo_two_runs(2) second_job_def new_job_def)
  from pending_jobs_published [OF mem.redis_lists_axioms r unlocked run few this] run show ?thesis
    by (simp add: second_job_def new_job_def default_settings_def)
qed

end
