(* ===== verification/Hazards.thy ===== *)
theory Hazards
  imports SchedulerContracts WorkerContracts
begin

text \<open>
  Where the program does not do what its documentation says, as theorems about the model: what a
  crashed worker leaves behind when its job was being cancelled, what the dispatcher does with a
  cancelled job, what the expiry scan records, and a row that stops a whole batch.
\<close>

section \<open>Jobs being cancelled\<close>

text \<open>A property of the store that every transaction of the scheduler keeps is kept by its ticks.\<close>

definition always :: "(store \<Rightarrow> bool) \<Rightarrow> ('r world, exn, 'a) io \<Rightarrow> bool" where
  "always P m \<longleftrightarrow> (\<forall>w. P (w_store w) \<longrightarrow> P (w_store (snd (m w))))"

named_theorems always_intros "programs that keep a property of the store"

lemma always_pure [always_intros]: "always P (io_return x)" "always P (run_redis m)"
  by (auto simp: always_def txn_simps run_redis_def split: prod.splits)

lemma always_bind [always_intros]:
  fixes m :: "('r world, exn, 'a) io"
  assumes "always P m" and "\<And>x. always P (f x)"
  shows "always P (io_bind m f)"
  unfolding always_def
proof (intro allI impI)
  fix w :: "'r world" assume "P (w_store w)"
  then have "P (w_store (snd (m w)))" using assms(1) by (simp add: always_def)
  then show "P (w_store (snd (io_bind m f w)))"
    using assms(2) by (cases "m w"; cases "fst (m w)") (auto simp: always_def txn_simps)
qed

lemma always_for [always_intros]: "(\<And>x. always P (f x)) \<Longrightarrow> always P (io_for f xs)"
  by (induction xs) (auto intro: always_intros)

lemma always_case_prod [always_intros]: "(\<And>x y. always P (f x y)) \<Longrightarrow> always P (case p of (x, y) \<Rightarrow> f x y)"
  by (cases p) simp

lemma always_txn [always_intros]: "preserves P m \<Longrightarrow> always P (run_txn m)"
  by (auto simp: always_def run_txn_def preserves_def split: sum.splits)

text \<open>The scheduler's statements pass over a row that is CANCELLING.\<close>

definition keeps :: "job \<Rightarrow> store \<Rightarrow> bool" where
  "keeps j s \<longleftrightarrow> j \<in> set (jobs s)"

lemma always_update_jobs: "\<not> p j \<Longrightarrow> preserves (keeps j) (update_jobs p f)"
  using upd_where_mem [of j _ p f] by (auto simp: preserves_def keeps_def txn_simps)

lemma always_other_tables [preserves_intros]:
  "preserves (keeps j) (generate_uuid7 ev)" "preserves (keeps j) (insert_attempt a)"
  "preserves (keeps j) (insert_event e)" "preserves (keeps j) (insert_dispatch d)"
  "preserves (keeps j) (insert_notification_on_conflict n)" "preserves (keeps j) (update_attempts pa fa)"
  "preserves (keeps j) (update_dispatch pd fd)" "preserves (keeps j) (update_notifications pn fn)"
  by (auto simp: preserves_def txn_simps keeps_def split: if_splits)

lemma keeps_cancelling_updates:
  assumes "j_status j = CANCELLING"
  shows "preserves (keeps j) (mark_redispatched jid now)" "preserves (keeps j) (mark_queued jid now)"
    "preserves (keeps j) (requeue_expired_lease jid now)" "preserves (keeps j) (fail_expired_lease jid c msg now dl)"
    "preserves (keeps j) (move_retry_to_queued jid now)" "preserves (keeps j) (job_expire jid now)"
  unfolding mark_redispatched_def mark_queued_def requeue_expired_lease_def fail_expired_lease_def
    move_retry_to_queued_def job_expire_def update_job_where_def
  by (intro preserves_intros always_update_jobs; use assms in \<open>simp add: EXPIRABLE_def\<close>)+

lemma always_outboxes [preserves_intros]:
  "preserves (keeps j) (event_record ev jid ty from to detail)"
  "preserves (keeps j) (mark_published oid now)" "preserves (keeps j) (mark_sent nid now)"
  "preserves (keeps j) (reschedule nid due err)" "preserves (keeps j) (notification_mark_failed nid err)"
  "preserves (keeps j) (enqueue_terminal_notification ev job ety st res c msg now)"
  unfolding event_record_def mark_published_def mark_sent_def reschedule_def notification_mark_failed_def
    enqueue_terminal_notification_def notification_enqueue_def Let_def
  by (intro preserves_intros)+

lemma keeps_cancelling:
  assumes "j_status j = CANCELLING"
  shows "preserves (keeps j) (dispatch_txn ev now n)" "preserves (keeps j) (redeliver_txn ev cutoff now_at n)"
    "preserves (keeps j) (promote_txn ev now n)" "preserves (keeps j) (reap_txn ev now n)"
    "preserves (keeps j) (expire_txn ev cfg now n)"
  unfolding dispatch_txn_def redeliver_txn_def promote_txn_def reap_txn_def expire_txn_def
    dispatch_row_def redeliver_row_def promote_row_def reap_row_def expire_row_def
  by (intro preserves_intros keeps_cancelling_updates [OF assms])+

lemma keeps_deliver: "preserves (keeps j) (deliver_txn de cfg ev now n)"
  by (intro preserves_deliver_txn preserves_intros) (unfold on_failure_def Let_def, intro preserves_intros)

lemma tick_keeps_cancelling:
  assumes "j_status j = CANCELLING"
  shows "always (keeps j) (tick rc cfg de evs nows now_at)"
  unfolding tick_def dispatch_pending_def promote_due_def reap_expired_def redeliver_stuck_def expire_stale_def
    dispatch_due_def publish_all_def
  by (intro always_intros keeps_cancelling [OF assms] keeps_deliver)

lemma scheduler_keeps_cancelling:
  assumes "j \<in> set (jobs (w_store w))" and "j_status j = CANCELLING"
  shows "j \<in> set (jobs (w_store (scheduler_run n (\<lambda>w. w)
    (\<lambda>k. tick rc cfg (de k) (evs k) (nows k) (now_at k)) w)))"
  using assms(1)
proof (induction n arbitrary: w)
  case (Suc n)
  have "j \<in> set (jobs (w_store (snd (tick rc cfg (de n) (evs n) (nows n) (now_at n) w))))"
    using tick_keeps_cancelling [OF assms(2)] Suc.prems by (fastforce simp: always_def keeps_def)
  then show ?case using Suc.IH by simp
qed simp

text \<open>
  C29. A job that is being cancelled when its worker dies stays that way: no tick of the scheduler
  changes its row, however long its lease has expired, so without its worker it never ends. (The
  design document counts such jobs among those the reaper finds.)
\<close>

theorem cancelling_never_reaped:
  assumes "j \<in> set (jobs (w_store w))" and "j_status j = CANCELLING"
  shows "j \<in> set (jobs (w_store (scheduler_run n (\<lambda>w. w)
    (\<lambda>k. tick rc cfg (de k) (evs k) (nows k) (now_at k)) w)))"
  using assms by (rule scheduler_keeps_cancelling)

theorem cancelling_never_reaped_witness:
  "cancelling_job \<in> set (jobs (w_store (scheduler_run 3 (\<lambda>w. w)
     (\<lambda>k. tick mem_redis default_settings demo_delivery (\<lambda>_. demo_env) (\<lambda>_. 10 ^ 12) (\<lambda>_. 10 ^ 12))
     \<lparr>w_store = demo_cancelling, w_redis = \<lambda>_. []\<rparr>))) \<and>
   sql_lt (j_lock_expires_at cancelling_job) (10 ^ 12)"
proof
  show "cancelling_job \<in> set (jobs (w_store (scheduler_run 3 (\<lambda>w. w)
     (\<lambda>k. tick mem_redis default_settings demo_delivery (\<lambda>_. demo_env) (\<lambda>_. 10 ^ 12) (\<lambda>_. 10 ^ 12))
     \<lparr>w_store = demo_cancelling, w_redis = \<lambda>_. []\<rparr>)))"
    by (rule cancelling_never_reaped) (simp_all add: demo_cancelling_def cancelling_job_def)
  show "sql_lt (j_lock_expires_at cancelling_job) (10 ^ 12)" by (simp add: cancelling_job_def running_job_def)
qed

section \<open>Cancelled jobs and backoffs\<close>

text \<open>
  C31. The dispatcher does not ask whether it queued anything: for the outbox row of a job that is
  no longer PENDING (one cancelled or expired before its dispatch) it records that the job went from
  PENDING to QUEUED and publishes its id, while the job stays as it was.
\<close>

theorem dispatch_ignores_cancellation:
  assumes "reachable s" and "j \<in> set (jobs s)" and "j_id j = o_job_id row" and "j_status j \<noteq> PENDING"
    and "dispatch_row ev now row acc s = Inr (acc', t)"
  shows "acc' = acc @ [(uuid_str (j_id j), j_priority j)] \<and> jobs t = jobs s \<and>
    (\<exists>e. job_events t = job_events s @ [e] \<and> e_job_id e = j_id j \<and> e_event_type e = EV_QUEUED \<and>
       e_from_status e = Some PENDING \<and> e_to_status e = Some QUEUED)"
proof -
  have d: "distinct (map j_id (jobs s))" using reachable_inv [OF assms(1)] by (rule store_inv_distinct)
  have row: "row_of j_id (o_job_id row) (jobs s) = Some j" using row_of_Some_iff [OF d] assms(2,3) by blast
  have guard: "\<forall>x \<in> set (jobs s). \<not> (j_id x = o_job_id row \<and> j_status x = PENDING)"
  proof
    fix x assume "x \<in> set (jobs s)"
    then have "j_id x = o_job_id row \<Longrightarrow> x = j" using same_row [OF d _ assms(2)] assms(3) by simp
    then show "\<not> (j_id x = o_job_id row \<and> j_status x = PENDING)" using assms(4) by blast
  qed
  obtain s1 where pub: "mark_published (o_id row) now s = Inr ((), s1)"
    and ev: "event_record ev (o_job_id row) EV_QUEUED (Some PENDING) (Some QUEUED) [] s1 = Inr ((), t)"
    and acc: "acc' = acc @ [(uuid_str (o_job_id row), j_priority j)]"
  proof -
    from assms(5) obtain s1 s2 b where steps: "mark_published (o_id row) now s = Inr ((), s1)"
        "mark_queued (o_job_id row) now s1 = Inr (b, s2)"
        "event_record ev (o_job_id row) EV_QUEUED (Some PENDING) (Some QUEUED) [] s2 = Inr ((), t)"
        "acc' = acc @ [(uuid_str (o_job_id row), j_priority j)]"
      by (auto simp: dispatch_row_def service_simps row txn_return_apply)
    have "jobs s1 = jobs s" using steps(1) by (auto simp: mark_published_def txn_simps)
    then have "mark_queued (o_job_id row) now s1 = Inr (False, s1)"
      unfolding mark_queued_def using guard by (intro no_row_update) simp
    then have "s2 = s1" using steps(2) by simp
    with steps show thesis by (intro that) simp_all
  qed
  have "jobs t = jobs s" "job_events s1 = job_events s"
    using pub ev by (auto simp: mark_published_def event_record_def txn_simps)
  moreover obtain e where "job_events t = job_events s1 @ [e]" "e_job_id e = o_job_id row" "e_event_type e = EV_QUEUED"
      "e_from_status e = Some PENDING" "e_to_status e = Some QUEUED"
    using ev by (auto simp: event_record_def txn_simps)
  ultimately show ?thesis using acc assms(3) by auto
qed

theorem dispatch_ignores_cancellation_witness:
  "jobs demo_dead_dispatch = jobs demo_cancelled \<and>
   (\<exists>e. job_events demo_dead_dispatch = job_events demo_cancelled @ [e] \<and> e_to_status e = Some QUEUED)"
proof -
  let ?row = "\<lparr>o_id = 3, o_job_id = 1, o_status = O_PENDING, o_attempts = 0, o_created_at = 100, o_published_at = None\<rparr>"
  have run: "dispatch_row demo_env 200 ?row [] demo_cancelled = Inr ([(uuid_str 1, NORMAL)], demo_dead_dispatch)" by code_simp
  have "cancelled_job \<in> set (jobs demo_cancelled)" "j_id cancelled_job = o_job_id ?row" "j_status cancelled_job \<noteq> PENDING"
    by (simp_all add: demo_cancelled_def cancelled_job_def demo_job_def new_job_def)
  from dispatch_ignores_cancellation [OF demo_reachable(7) this run] show ?thesis by blast
qed

text \<open>
  A claim does not wait for the backoff: a job that is RETRYING is claimed by the first worker
  that reads its id from the queue, however far ahead its due time lies.
\<close>

lemma claim_skips_backoff:
  assumes "reachable s" and "j \<in> set (jobs s)" and "j_id j = i" and "j_status j = RETRYING"
    and "claim_for_execution i w lease now s = Inr (r, t)"
  shows "r = Some (j_attempts j + 1) \<and> (\<exists>j' \<in> set (jobs t). j_id j' = i \<and> j_status j' = RUNNING)"
proof -
  have inv: "store_inv s" using assms(1) by (rule reachable_inv)
  then have "j_cancellation_requested_at j = None"
  proof -
    have "job_wf j" using inv assms(2) by (simp add: store_inv_def rows_wf_def)
    then show ?thesis using assms(4) by (simp add: job_wf_def)
  qed
  then have guard: "claim_guard i j" using assms(3,4) by (simp add: claim_guard_def CLAIMABLE_def)
  have "filter (claim_guard i) (jobs s) \<noteq> []" using assms(2) guard by (simp only: filter_empty_conv) blast
  then obtain y ys where "filter (claim_guard i) (jobs s) = y # ys" by (cases "filter (claim_guard i) (jobs s)") simp_all
  then obtain n where "r = Some n" using assms(5) by (simp add: claim_for_execution_Inr)
  with assms(5) obtain j0 where j0: "j0 \<in> set (jobs s)" "claim_guard i j0" "n = j_attempts j0 + 1"
    and t: "t = s\<lparr>jobs := upd_where (claim_guard i) (claimed w lease now) (jobs s)\<rparr>"
    by (auto elim: claim_won)
  have "j0 = j"
    by (rule same_row [OF store_inv_distinct [OF inv] j0(1) assms(2)]) (use j0(2) assms(3) in \<open>simp add: claim_guard_def\<close>)
  moreover have "claimed w lease now j \<in> set (jobs t)"
    using upd_where_mem [OF assms(2), of "claim_guard i" "claimed w lease now"] guard by (simp add: t)
  moreover have "j_id (claimed w lease now j) = i" "j_status (claimed w lease now j) = RUNNING"
    using assms(3) by (simp_all add: claimed_def)
  ultimately show ?thesis using \<open>r = Some n\<close> j0(3) by blast
qed

lemma claim_skips_backoff_demo:
  "j_next_attempt_at retrying_job = Some 5000 \<and>
   (\<exists>t. claim_for_execution 1 ''w1'' 60 401 demo_retrying = Inr (Some 2, t) \<and>
     (\<exists>j' \<in> set (jobs t). j_id j' = 1 \<and> j_status j' = RUNNING))"
proof
  have mem: "retrying_job \<in> set (jobs demo_retrying)" "j_id retrying_job = 1" "j_status retrying_job = RETRYING"
    "j_attempts retrying_job = 1"
    by (simp_all add: demo_retrying_def retrying_job_def running_job_def queued_job_def demo_job_def new_job_def)
  have "job_row_check (claimed ''w1'' 60 401 retrying_job) = None" by code_simp
  then obtain r t where run: "claim_for_execution 1 ''w1'' 60 401 demo_retrying = Inr (r, t)"
    by (simp add: claim_for_execution_Inr demo_retrying_def)
  from claim_skips_backoff [OF demo_reachable(5) mem(1-3) run] mem(4) run
  show "\<exists>t. claim_for_execution 1 ''w1'' 60 401 demo_retrying = Inr (Some 2, t) \<and>
     (\<exists>j' \<in> set (jobs t). j_id j' = 1 \<and> j_status j' = RUNNING)" by auto
qed (simp add: retrying_job_def)

section \<open>What the expiry scan records\<close>

text \<open>
  The event of an expired job names the wrong status: the loop reads the status of the object
  after its own update, which the session has synchronized, so the event says from EXPIRED to
  EXPIRED and the status the job expired in is lost.
\<close>

lemma expiry_event_status:
  assumes "reachable s" and "orm_synchronize ev" and "r \<in> set (jobs s)" and "j_status r \<in> {PENDING, QUEUED}"
    and "expire_row ev now r n s = Inr (n', t)"
  shows "\<exists>e. job_events t = job_events s @ [e] \<and> e_event_type e = EV_EXPIRED \<and>
    e_from_status e = Some EXPIRED \<and> e_to_status e = Some EXPIRED"
proof -
  have d: "distinct (map j_id (jobs s))" using reachable_inv [OF assms(1)] by (rule store_inv_distinct)
  define g where "g = (\<lambda>j :: job. j_id j = j_id r \<and> j_status j \<in> set EXPIRABLE)"
  have g: "g r" using assms(4) by (auto simp: g_def EXPIRABLE_def)
  define f where "f = (\<lambda>j :: job. j\<lparr>j_status := EXPIRED, j_completed_at := Some now, j_updated_at := now\<rparr>)"
  define u where "u = s\<lparr>jobs := upd_where g f (jobs s)\<rparr>"
  have moved: "b \<and> s1 = u" if "job_expire (j_id r) now s = Inr (b, s1)" for b s1
    using that assms(3) g by (auto simp: job_expire_def update_job_where_Inr u_def g_def f_def)
  have "f r \<in> set (jobs u)" using upd_where_mem [OF assms(3), of g f] g by (simp add: u_def)
  moreover have "distinct (map j_id (jobs u))"
    using d map_upd_where [of "jobs s" g j_id f] by (simp add: u_def f_def)
  ultimately have "row_of j_id (j_id r) (jobs u) = Some (f r)"
    using row_of_Some_iff [of j_id "jobs u"] by (simp add: f_def)
  then have view: "orm_view ev r u = Inr (f r, u)" using assms(2) by (simp add: orm_view_def txn_gets_apply)
  from assms(5) obtain s2 where
      ev: "event_record ev (j_id (f r)) EV_EXPIRED (Some (j_status (f r))) (Some EXPIRED) [] u = Inr ((), s2)"
    and enq: "enqueue_terminal_notification ev (f r) EV_EXPIRED EXPIRED None (Some EXPIRED_CODE) (Some EXPIRED_MESSAGE) now s2 = Inr ((), t)"
    unfolding expire_row_def by (auto simp: txn_bind_Inr view txn_return_apply split: if_splits dest!: moved)
  have "job_events t = job_events s2"
    using enq unfolding enqueue_terminal_notification_def notification_enqueue_def Let_def
    by (auto simp: txn_simps split: prod.splits if_splits)
  moreover have "j_status (f r) = EXPIRED" "job_events u = job_events s" by (simp_all add: f_def u_def)
  ultimately show ?thesis using ev by (auto simp: event_record_def txn_simps)
qed

lemma expiry_event_status_demo:
  "\<exists>e. job_events demo_expired = job_events demo2 @ [e] \<and> e_from_status e = Some EXPIRED"
proof -
  have run: "expire_row demo_env 3600000101 queued_job 0 demo2 = Inr (1, demo_expired)" by code_simp
  have "queued_job \<in> set (jobs demo2)" "j_status queued_job \<in> {PENDING, QUEUED}" "orm_synchronize demo_env"
    by (simp_all add: demo2_def queued_job_def demo_env_def)
  from expiry_event_status [OF demo_reachable(2) this(3,1,2) run] show ?thesis by blast
qed

section \<open>Rows that stop a batch\<close>

lemma txn_fold_raises:
  assumes "I xs acc s" and "\<And>x xs acc s acc' s'. I (x # xs) acc s \<Longrightarrow> f x acc s = Inr (acc', s') \<Longrightarrow> I xs acc' s'"
    and "\<And>acc s. \<not> I [] acc s"
  shows "\<exists>e. txn_fold f xs acc s = Inl e"
proof (cases "txn_fold f xs acc s")
  case (Inr p)
  then obtain r t where run: "txn_fold f xs acc s = Inr (r, t)" by (cases p) auto
  have "I [] r t" by (rule txn_fold_rule [where I = I, OF run assms(1)]) (rule assms(2))
  then show ?thesis using assms(3) by blast
qed simp

text \<open>The destination column holds 255 characters, the payload's webhook any number.\<close>

definition long_webhook :: "job \<Rightarrow> bool" where
  "long_webhook j \<longleftrightarrow> length (snd (notification_target j)) > 255"

lemma enqueue_long_webhook:
  "long_webhook job \<Longrightarrow> enqueue_terminal_notification ev job ety st res c msg now s \<noteq> Inr r"
  unfolding enqueue_terminal_notification_def notification_enqueue_def long_webhook_def
  by (cases "notification_target job")
    (auto simp: txn_simps notification_types_ok_def varchar_ok_def split: if_splits)

lemma reap_row_long_webhook:
  assumes "long_webhook j" and "exhausted j" and "j \<in> set (jobs s)" and "j_status j = RUNNING"
  shows "reap_row ev now j acc s \<noteq> Inr r"
proof
  assume run: "reap_row ev now j acc s = Inr r"
  have "b" if "fail_expired_lease (j_id j) LEASE_EXPIRED_CODE LEASE_EXPIRED_MESSAGE now True s = Inr (b, u)" for b u
    using that assms(3,4) by (auto simp: fail_expired_lease_def update_job_where_Inr)
  with run assms(2) enqueue_long_webhook [OF assms(1)] show False
    unfolding reap_row_def exhausted_def
    by (cases acc; cases r) (auto simp: txn_bind_Inr)
qed

text \<open>
  C32. One job can stop the lease reaper for all: a running job with an expired lease, no attempts
  left and a webhook longer than the notification table's column makes every unobstructed reap fail,
  so that no job at all is reaped, and the next tick meets the same rows again.
\<close>

theorem long_webhook_blocks_reaper:
  assumes "reachable s" and "unobstructed ev n s" and "j \<in> set (jobs s)" and "j_status j = RUNNING"
    and "sql_lt (j_lock_expires_at j) now" and "j_max_attempts j \<le> j_attempts j"
    and "length (snd (notification_target j)) > 255"
  shows "\<exists>e. reap_txn ev now n s = Inl e"
proof -
  have d: "distinct (map j_id (jobs s))" using reachable_inv [OF assms(1)] by (rule store_inv_distinct)
  define c where "c = (\<lambda>j :: job. j_status j = RUNNING \<and> sql_lt (j_lock_expires_at j) now)"
  define rows where "rows = take n (filter (\<lambda>j. \<not> row_locked ev (j_id j)) (sort_key j_lock_expires_at (filter c (jobs s))))"
  note scan = scan_jobs [OF d rows_def]
  let ?I = "\<lambda>rs (_ :: reaped) u. j \<in> set rs \<and> distinct rs \<and> set rs \<subseteq> set (jobs u) \<and> (\<forall>r \<in> set rs. j_status r = RUNNING) \<and>
      distinct (map j_id (jobs u))"
  have "\<exists>e. txn_fold (reap_row ev now) rows ([], []) s = Inl e"
  proof (rule txn_fold_raises [where I = ?I])
    have "j \<in> set rows" using scan(4) [OF assms(2)] assms(3-5) by (simp add: c_def)
    moreover have "\<forall>r \<in> set rows. j_status r = RUNNING" using scan(3) by (simp add: c_def)
    ultimately show "?I rows ([], []) s" using scan(1,2) d by blast
  next
    fix r rs acc u acc' u' assume I: "?I (r # rs) acc u" and run: "reap_row ev now r acc u = Inr (acc', u')"
    then have eff: "jobs u' = upd_where (\<lambda>k. k = r) (reaped_job now) (jobs u)" using reap_batch.body_effect [OF run] by simp
    have "r \<noteq> j"
    proof
      assume "r = j"
      with I run reap_row_long_webhook [of j u ev now acc] assms(6,7) show False
        by (simp add: long_webhook_def exhausted_def)
    qed
    moreover have "set rs \<subseteq> set (jobs u')"
    proof
      fix x assume "x \<in> set rs"
      then have "x \<in> set (jobs u)" "x \<noteq> r" using I by auto
      then show "x \<in> set (jobs u')" using upd_where_mem [of x "jobs u" "\<lambda>k. k = r" "reaped_job now"] by (simp add: eff)
    qed
    moreover have "map j_id (jobs u') = map j_id (jobs u)"
      unfolding eff by (rule map_upd_where) (simp add: reap_batch.keeps_id)
    ultimately show "?I rs acc' u'" using I by simp
  qed simp
  then show ?thesis by (simp add: reap_txn_def find_expired_leases_def txn_bind_gets rows_def c_def)
qed

text \<open>A job with one attempt and a webhook of 256 characters, accepted, dispatched and claimed.\<close>

definition long_payload :: dict where
  "long_payload = [(''pages'', JInt 2), (''notify_webhook'', JStr (replicate 256 CHR ''h''))]"

definition poisoned :: "store \<Rightarrow> store" where
  "poisoned s = s\<lparr>jobs := map (\<lambda>j. j\<lparr>j_payload := long_payload, j_max_attempts := 1\<rparr>) (jobs s)\<rparr>"

lemma poisoned_runs:
  "submit_create demo_env default_settings ''alice'' REPORT long_payload NORMAL 1 None 100 empty_store =
     Inr (demo_job\<lparr>j_payload := long_payload, j_max_attempts := 1\<rparr>, poisoned demo1)"
  "dispatch_txn demo_env 200 10 (poisoned demo1) = Inr ([(uuid_str 1, NORMAL)], poisoned demo2)"
  "exec_claim demo_env default_settings ''w1'' 1 300 (poisoned demo2) =
     Inr (Some (1, 5, \<lparr>snap_type = REPORT, snap_payload = long_payload, snap_max_attempts = 1\<rparr>), poisoned demo3)"
  by code_simp+

lemma poisoned_reachable: "reachable (poisoned demo3)"
proof -
  have "reachable empty_store" by (simp add: reachable_def)
  from reachable_step [OF this db_step.submit [OF poisoned_runs(1)]]
  have "reachable (poisoned demo1)" .
  from reachable_step [OF this db_step.dispatch [OF poisoned_runs(2)]]
  have "reachable (poisoned demo2)" .
  from reachable_step [OF this db_step.claim [OF poisoned_runs(3)]] show ?thesis .
qed

theorem long_webhook_blocks_reaper_witness:
  "reachable (poisoned demo3) \<and> (\<exists>e. reap_txn demo_env 60000400 10 (poisoned demo3) = Inl e)"
proof
  show "reachable (poisoned demo3)" by (rule poisoned_reachable)
  let ?j = "running_job\<lparr>j_payload := long_payload, j_max_attempts := 1\<rparr>"
  have "unobstructed demo_env 10 (poisoned demo3)" by (simp add: unobstructed_def demo_env_def poisoned_def demo3_def)
  moreover have "?j \<in> set (jobs (poisoned demo3))" by (simp add: poisoned_def demo3_def)
  moreover have "length (snd (notification_target ?j)) > 255" by code_simp
  ultimately show "\<exists>e. reap_txn demo_env 60000400 10 (poisoned demo3) = Inl e"
    by (intro long_webhook_blocks_reaper [OF poisoned_reachable, where j = ?j]) (simp_all add: running_job_def)
qed

section \<open>Attempts of one process\<close>

lemma superseded_attempts:
  "attempt_finish aid st now oc om s = Inr (x, t) \<Longrightarrow> a \<in> set (job_attempts s) \<Longrightarrow> a_id a \<noteq> aid \<Longrightarrow> a \<in> set (job_attempts t)"
  using upd_where_mem [of a "job_attempts s" "\<lambda>a. a_id a = aid"] by (auto simp: attempt_finish_def txn_simps)

lemma job_update_attempts: "update_job_where p f s = Inr (b, t) \<Longrightarrow> job_attempts t = job_attempts s"
  by (auto simp: update_job_where_Inr)

lemma report_attempts:
  "event_record ev i ty st st' d s = Inr (x, t) \<Longrightarrow> job_attempts t = job_attempts s"
  "enqueue_terminal_notification ev job ety st2 res c msg now s = Inr (x, t) \<Longrightarrow> job_attempts t = job_attempts s"
  unfolding event_record_def enqueue_terminal_notification_def notification_enqueue_def Let_def
  by (auto simp: txn_simps split: prod.splits if_splits)

text \<open>
  C37. An outcome is fenced by the worker's identity, not by the attempt. All coroutines of a process
  share the identity: when one of them holds a job, another one of the same process that still runs
  an earlier attempt of it ends the job with its own result, and the attempt that holds it stays
  open.
\<close>

theorem stale_attempt_finishes:
  assumes "reachable s" and "j \<in> set (jobs s)" and "j_status j = RUNNING" and "j_locked_by j = Some w"
    and "a \<in> set (job_attempts s)" and "a_id a \<noteq> stale"
    and "finalize_succeeded ev w (j_id j) stale res now s = Inr (u, t)"
  shows "(\<exists>j' \<in> set (jobs t). j_id j' = j_id j \<and> j_status j' = SUCCEEDED \<and> j_result j' = Some res) \<and>
    a \<in> set (job_attempts t)"
proof -
  have row: "row_of j_id (j_id j) (jobs s) = Some j"
    using store_inv_distinct [OF reachable_inv [OF assms(1)]] assms(2) by (simp add: row_of_Some_iff)
  from assms(7) obtain won s1 s2 s3 where mark: "mark_succeeded (j_id j) w res now s = Inr (won, s1)"
    and rest: "won \<Longrightarrow> attempt_finish stale SUCCEEDED now None None s1 = Inr ((), s2)"
      "won \<Longrightarrow> event_record ev (j_id j) EV_SUCCEEDED None (Some SUCCEEDED) [] s2 = Inr ((), s3)"
      "won \<Longrightarrow> enqueue_terminal_notification ev j EV_SUCCEEDED SUCCEEDED (Some res) None None now s3 = Inr (u, t)"
    by (auto simp: finalize_succeeded_def txn_bind_Inr job_get_def txn_gets_apply row split: if_splits)
  have won: "won" using mark assms(2-4) by (auto simp: mark_succeeded_def update_job_where_Inr FINALIZABLE_def)
  have "jobs t = jobs s1"
    using quiet_steps(1) [OF rest(1) [OF won]] event_record_jobs [OF rest(2) [OF won]] enqueue_jobs [OF rest(3) [OF won]]
    by (simp add: quiet_def)
  moreover have "\<exists>j' \<in> set (jobs s1). j_id j' = j_id j \<and> j_status j' = SUCCEEDED \<and> j_result j' = Some res"
    using written_row [OF mark [unfolded mark_succeeded_def] assms(2)] assms(3,4) by (intro bexI) (auto simp: FINALIZABLE_def)
  moreover have "a \<in> set (job_attempts s1)" using assms(5) job_update_attempts [OF mark [unfolded mark_succeeded_def]] by simp
  ultimately show ?thesis
    using superseded_attempts [OF rest(1) [OF won] _ assms(6)] report_attempts(1) [OF rest(2) [OF won]]
      report_attempts(2) [OF rest(3) [OF won]] by simp
qed

text \<open>The lease of attempt 1 runs out, and the same process claims the job again.\<close>

definition demo_reclaimed :: store where
  "demo_reclaimed = (case exec_claim demo_env default_settings ''w1'' 1 60000500 demo_reaped of
     Inl _ \<Rightarrow> demo_reaped | Inr (_, s) \<Rightarrow> s)"

definition second_attempt :: job_attempt where
  "second_attempt = demo_attempt\<lparr>a_id := 8, a_attempt_number := 2, a_started_at := 60000500\<rparr>"

lemma demo_reclaimed_runs:
  "exec_claim demo_env default_settings ''w1'' 1 60000500 demo_reaped =
     Inr (Some (2, 8, \<lparr>snap_type = REPORT, snap_payload = [(''pages'', JInt 2)], snap_max_attempts = 3\<rparr>), demo_reclaimed)"
  "job_attempts demo_reclaimed = [demo_attempt, second_attempt]"
  "map (\<lambda>j. (j_id j, j_status j, j_locked_by j)) (jobs demo_reclaimed) = [(1, RUNNING, Some ''w1'')]"
  by code_simp+

theorem stale_attempt_finishes_witness:
  "\<exists>t. finalize_succeeded demo_env ''w1'' 1 5 [] 60000600 demo_reclaimed = Inr ((), t) \<and>
     (\<exists>j' \<in> set (jobs t). j_id j' = 1 \<and> j_status j' = SUCCEEDED) \<and> second_attempt \<in> set (job_attempts t)"
proof -
  have reap: "reap_txn demo_env 60000400 10 demo3 = Inr (([(uuid_str 1, NORMAL)], []), demo_reaped)" by code_simp
  have r: "reachable demo_reclaimed"
    by (rule reachable_step [OF reachable_step [OF demo_reachable(3) db_step.reap [OF reap]] db_step.claim [OF demo_reclaimed_runs(1)]])
  have "(case finalize_succeeded demo_env ''w1'' 1 5 [] 60000600 demo_reclaimed of Inr _ \<Rightarrow> True | Inl _ \<Rightarrow> False)" by code_simp
  then obtain t where run: "finalize_succeeded demo_env ''w1'' 1 5 [] 60000600 demo_reclaimed = Inr ((), t)"
    by (auto split: sum.splits)
  obtain j where j: "j \<in> set (jobs demo_reclaimed)" "j_id j = 1" "j_status j = RUNNING" "j_locked_by j = Some ''w1''"
    using demo_reclaimed_runs(3) by (cases "jobs demo_reclaimed") auto
  have "second_attempt \<in> set (job_attempts demo_reclaimed)" "a_id second_attempt \<noteq> 5"
    by (simp_all add: demo_reclaimed_runs(2) second_attempt_def)
  from stale_attempt_finishes [OF r j(1,3,4) this run [folded j(2)]] run j(2) show ?thesis by auto
qed

end
