(* ===== verification/ExecutionContract.thy ===== *)
theory ExecutionContract
  imports Hazards BackoffFacts
begin

text \<open>
  What an execution leaves: a job whose claim was won ends its attempt with the row its handler's
  outcome calls for, whatever else happens to the store while the handler runs, as long as nothing
  takes the job from its worker. Then the one gap in it: a cancellation that arrives between
  the last look at the job and the update that puts it off.
\<close>

section \<open>A job its worker holds\<close>

text \<open>\<open>stages\<close> is \<^term>\<open>{RUNNING}\<close> where nobody asks to cancel the job, and
  \<^term>\<open>{RUNNING, CANCELLING}\<close> where its owner may.\<close>

definition held_row :: "JobStatus set \<Rightarrow> string \<Rightarrow> int \<Rightarrow> job \<Rightarrow> bool" where
  "held_row stages w n j \<longleftrightarrow> j_status j \<in> stages \<and> j_locked_by j = Some w \<and> j_attempts j = n \<and>
     (j_cancellation_requested_at j \<noteq> None \<longleftrightarrow> j_status j = CANCELLING)"

definition held :: "JobStatus set \<Rightarrow> uuid \<Rightarrow> string \<Rightarrow> int \<Rightarrow> store \<Rightarrow> bool" where
  "held stages i w n s \<longleftrightarrow> (\<exists>j. row_of j_id i (jobs s) = Some j \<and> held_row stages w n j)"

lemma row_of_upd:
  "(\<And>x. k (f x) = k x) \<Longrightarrow> row_of k v (upd_where p f xs) = map_option (\<lambda>x. if p x then f x else x) (row_of k v xs)"
  by (induction xs) (auto simp: row_of_def)

lemma row_of_append: "row_of k v xs = Some x \<Longrightarrow> row_of k v (xs @ ys) = Some x"
  by (induction xs) (auto simp: row_of_def)

lemma held_update:
  assumes "\<And>j. j_id (f j) = j_id j" and "\<And>j. p j \<Longrightarrow> held_row S w n j \<Longrightarrow> held_row S w n (f j)"
  shows "preserves (held S i w n) (update_jobs p f)"
  unfolding preserves_def
proof (intro allI impI)
  fix s m t assume "held S i w n s" and run: "update_jobs p f s = Inr (m, t)"
  then obtain j where j: "row_of j_id i (jobs s) = Some j" "held_row S w n j" by (auto simp: held_def)
  then have "row_of j_id i (jobs t) = Some (if p j then f j else j)"
    using run assms(1) by (auto simp: txn_simps row_of_upd)
  then show "held S i w n t" using assms(2) j(2) by (auto simp: held_def)
qed

lemma held_report: "preserves (held S i w n) (report_progress cfg w i p now)"
  unfolding report_progress_def update_progress_def update_job_where_def
  by (intro preserves_intros held_update) (simp_all add: held_row_def)

text \<open>The update of a held row succeeds and writes that row.\<close>

lemma update_held:
  assumes "update_job_where p f s = Inr (won, t)" and "row_of j_id i (jobs s) = Some j" and "p j"
    and "\<And>j. j_id (f j) = j_id j"
  shows "won \<and> row_of j_id i (jobs t) = Some (f j)"
  using assms row_of_SomeD [OF assms(2)] by (auto simp: update_job_where_Inr row_of_upd)

lemma jobs_quiet:
  "attempt_finish aid st now oc omsg s = Inr (x, t) \<Longrightarrow> jobs t = jobs s"
  "mark_superseded aid now s = Inr (z, t) \<Longrightarrow> jobs t = jobs s"
  using quiet_steps(1,3) by (fastforce simp: quiet_def)+

lemmas report_jobs = jobs_quiet event_record_jobs enqueue_jobs

section \<open>The row each outcome leaves\<close>

text \<open>The worker puts a failed attempt off when it has looked for a cancellation: the world it meets then
  gives the random reading and the clock reading, and the attempt is due the backoff of its number
  after that instant.\<close>

definition looked :: "'r execution_env \<Rightarrow> uuid \<Rightarrow> 'r world \<Rightarrow> 'r world" where
  "looked x i w = snd (session_begin x (\<lambda>ev now. cancellation_requested i) w)"

definition due_after :: "'r execution_env \<Rightarrow> settings \<Rightarrow> int \<Rightarrow> 'r world \<Rightarrow> datetime \<Rightarrow> bool" where
  "due_after x cfg n v due \<longleftrightarrow> (\<exists>seconds delta. compute_backoff_seconds n cfg (x_random x v) = Inr seconds \<and>
     timedelta_float seconds = Inr delta \<and> datetime_add (x_clock x v) delta = Inr due)"

definition failed_row :: "string \<Rightarrow> string \<Rightarrow> bool \<Rightarrow> job \<Rightarrow> bool" where
  "failed_row c msg dl j \<longleftrightarrow> j_status j = FAILED \<and> j_error_code j = Some c \<and> j_error_message j = Some msg \<and>
     (j_dead_lettered_at j \<noteq> None \<longleftrightarrow> dl)"

definition retry_row ::
  "'r execution_env \<Rightarrow> settings \<Rightarrow> int \<Rightarrow> 'r world \<Rightarrow> string \<Rightarrow> string \<Rightarrow> job \<Rightarrow> bool" where
  "retry_row x cfg n v c msg j \<longleftrightarrow> j_status j = RETRYING \<and> j_error_code j = Some c \<and> j_error_message j = Some msg \<and>
     j_locked_by j = None \<and> (\<exists>due. j_next_attempt_at j = Some due \<and> due_after x cfg n v due)"

text \<open>An error worth another attempt; \<open>w\<close> is the world the handler leaves.\<close>

definition retried_row ::
  "JobStatus set \<Rightarrow> 'r execution_env \<Rightarrow> settings \<Rightarrow> uuid \<Rightarrow> int \<Rightarrow> int \<Rightarrow> 'r world \<Rightarrow> string \<Rightarrow> string \<Rightarrow> job \<Rightarrow> bool" where
  "retried_row stages x cfg i n limit w c msg j \<longleftrightarrow>
     (if limit \<le> n then failed_row c msg True j else retry_row x cfg n (looked x i w) c msg j) \<or>
     CANCELLING \<in> stages \<and> (j_status j = CANCELLED \<or> j_status j = CANCELLING)"

definition outcome_row ::
  "JobStatus set \<Rightarrow> 'r execution_env \<Rightarrow> settings \<Rightarrow> uuid \<Rightarrow> int \<Rightarrow> int \<Rightarrow> 'r world \<Rightarrow> exn + dict \<Rightarrow> job \<Rightarrow> bool" where
  "outcome_row stages x cfg i n limit w outcome j \<longleftrightarrow> (case outcome of
       Inr result \<Rightarrow> j_status j = SUCCEEDED \<and> j_result j = Some result \<and> j_progress j = 100
     | Inl JobCancelledError \<Rightarrow> CANCELLING \<in> stages \<and> j_status j = CANCELLED
     | Inl CancelledError \<Rightarrow> False
     | Inl (NonRetryableError c msg) \<Rightarrow> failed_row c msg False j
     | Inl (RetryableError c msg) \<Rightarrow> retried_row stages x cfg i n limit w c msg j
     | Inl e \<Rightarrow> retried_row stages x cfg i n limit w ''UNEXPECTED_ERROR'' (x_error_text x e) j)"

definition active :: "JobStatus set \<Rightarrow> bool" where
  "active S \<longleftrightarrow> S \<subseteq> {RUNNING, CANCELLING}"

lemma active_final: "active S \<Longrightarrow> held_row S w n j \<Longrightarrow> j_status j \<in> set FINALIZABLE \<and> j_locked_by j = Some w"
  by (auto simp: active_def held_row_def FINALIZABLE_def)

lemma held_succeeds:
  assumes "finalize_succeeded ev w i aid res now s = Inr (u, t)" and "held S i w n s" and "active S"
  shows "\<exists>j. row_of j_id i (jobs t) = Some j \<and> j_status j = SUCCEEDED \<and> j_result j = Some res \<and>
    j_progress j = 100 \<and> j_attempts j = n"
proof -
  obtain j where j: "row_of j_id i (jobs s) = Some j" "held_row S w n j" using assms(2) by (auto simp: held_def)
  from assms(1) obtain won s1 where mark: "mark_succeeded i w res now s = Inr (won, s1)"
    and rest: "won \<Longrightarrow> jobs t = jobs s1"
    by (auto simp: finalize_succeeded_def txn_bind_Inr job_get_def txn_gets_apply j(1) split: if_splits
        dest!: report_jobs)
  have "won \<and> row_of j_id i (jobs s1) = Some (j\<lparr>j_status := SUCCEEDED, j_result := Some res, j_progress := 100,
      j_completed_at := Some now, j_locked_by := None, j_lock_expires_at := None, j_error_code := None,
      j_error_message := None, j_updated_at := now\<rparr>)"
    by (rule update_held [OF mark [unfolded mark_succeeded_def] j(1)])
      (use active_final [OF assms(3) j(2)] row_of_SomeD [OF j(1)] in simp_all)
  then show ?thesis using rest j(2) by (simp add: held_row_def)
qed

lemma held_fails:
  assumes "finalize_failed ev w i aid c msg dl now s = Inr (u, t)" and "held S i w n s" and "active S"
  shows "u \<and> (\<exists>j. row_of j_id i (jobs t) = Some j \<and> failed_row c msg dl j \<and> j_attempts j = n)"
proof -
  obtain j where j: "row_of j_id i (jobs s) = Some j" "held_row S w n j" using assms(2) by (auto simp: held_def)
  from assms(1) obtain won s1 where mark: "job_mark_failed i w c msg now dl s = Inr (won, s1)"
    and rest: "won \<Longrightarrow> u \<and> jobs t = jobs s1"
    by (auto simp: finalize_failed_def txn_bind_Inr job_get_def txn_gets_apply txn_return_apply j(1)
        split: if_splits dest!: report_jobs)
  have "won \<and> row_of j_id i (jobs s1) = Some (j\<lparr>j_status := FAILED, j_error_code := Some c,
      j_error_message := Some msg, j_completed_at := Some now, j_locked_by := None, j_lock_expires_at := None,
      j_dead_lettered_at := (if dl then Some now else None), j_updated_at := now\<rparr>)"
    by (rule update_held [OF mark [unfolded job_mark_failed_def] j(1)])
      (use active_final [OF assms(3) j(2)] row_of_SomeD [OF j(1)] in simp_all)
  then show ?thesis using rest j(2) by (simp add: held_row_def failed_row_def)
qed

lemma held_stops:
  assumes "finalize_cancelled ev w i aid now s = Inr (u, t)" and "held S i w n s" and "active S"
  shows "\<exists>j. row_of j_id i (jobs t) = Some j \<and> j_status j = CANCELLED \<and> j_attempts j = n"
proof -
  obtain j where j: "row_of j_id i (jobs s) = Some j" "held_row S w n j" using assms(2) by (auto simp: held_def)
  from assms(1) obtain won s1 where mark: "finalize_cancelled_by_worker i w now s = Inr (won, s1)"
    and rest: "won \<Longrightarrow> jobs t = jobs s1"
    by (auto simp: finalize_cancelled_def txn_bind_Inr job_get_def txn_gets_apply j(1) split: if_splits
        dest!: report_jobs)
  have "won \<and> row_of j_id i (jobs s1) = Some (j\<lparr>j_status := CANCELLED, j_completed_at := Some now,
      j_locked_by := None, j_lock_expires_at := None, j_updated_at := now\<rparr>)"
    by (rule update_held [OF mark [unfolded finalize_cancelled_by_worker_def] j(1)])
      (use active_final [OF assms(3) j(2)] row_of_SomeD [OF j(1)] in simp_all)
  then show ?thesis using rest j(2) by (simp add: held_row_def)
qed

text \<open>The update that puts a job off is guarded by RUNNING alone.\<close>

lemma held_put_off:
  assumes "exec_schedule_retry ev w i aid c msg due now s = Inr (u, t)" and "held S i w n s" and "active S"
  shows "\<exists>j. row_of j_id i (jobs t) = Some j \<and> j_attempts j = n \<and>
    (j_status j = RETRYING \<and> j_error_code j = Some c \<and> j_error_message j = Some msg \<and> j_locked_by j = None \<and>
       j_next_attempt_at j = Some due \<or>
     CANCELLING \<in> S \<and> j_status j = CANCELLING \<and> row_of j_id i (jobs s) = Some j)"
proof -
  obtain j where j: "row_of j_id i (jobs s) = Some j" "held_row S w n j" using assms(2) by (auto simp: held_def)
  from assms(1) obtain won s1 where mark: "job_schedule_retry i w c msg due now s = Inr (won, s1)"
    and rest: "jobs t = jobs s1"
    by (auto simp: exec_schedule_retry_def txn_bind_Inr split: if_splits dest!: report_jobs)
  show ?thesis
  proof (cases "j_status j = RUNNING")
    case True
    have "won \<and> row_of j_id i (jobs s1) = Some (j\<lparr>j_status := RETRYING, j_error_code := Some c,
        j_error_message := Some msg, j_next_attempt_at := Some due, j_locked_by := None,
        j_lock_expires_at := None, j_updated_at := now\<rparr>)"
      by (rule update_held [OF mark [unfolded job_schedule_retry_def] j(1)])
        (use True j(2) row_of_SomeD [OF j(1)] in \<open>simp_all add: held_row_def\<close>)
    then show ?thesis using rest j(2) by (simp add: held_row_def)
  next
    case False
    then have "j_status j = CANCELLING" "CANCELLING \<in> S" using j(2) assms(3) by (auto simp: held_row_def active_def)
    moreover have "row_of j_id i (jobs s1) = Some j"
      using mark False row_of_SomeD [OF j(1)] j(1)
      by (auto simp: job_schedule_retry_def update_job_where_Inr row_of_upd)
    ultimately show ?thesis using rest j by (auto simp: held_row_def)
  qed
qed

section \<open>While the handler runs\<close>

text \<open>A program keeps a property of the store whatever it raises, and raises \<^verbatim>\<open>JobCancelledError\<close>
  only where that is allowed.\<close>

definition kept :: "(store \<Rightarrow> bool) \<Rightarrow> bool \<Rightarrow> ('r world, exn, 'a) io \<Rightarrow> bool" where
  "kept P c m \<longleftrightarrow> (\<forall>w. P (w_store w) \<longrightarrow>
     P (w_store (snd (m w))) \<and> (fst (m w) = Inl JobCancelledError \<longrightarrow> c))"

named_theorems kept_intros "programs that keep a job with its worker"

lemma keptD: "kept P c m \<Longrightarrow> P (w_store w) \<Longrightarrow> m w = (r, w') \<Longrightarrow> P (w_store w')"
  by (fastforce simp: kept_def)

lemma kept_cancelledD: "kept P c m \<Longrightarrow> P (w_store w) \<Longrightarrow> m w = (Inl JobCancelledError, w') \<Longrightarrow> c"
  by (fastforce simp: kept_def)

lemma kept_pure [kept_intros]:
  "kept P c (io_return x)" "e \<noteq> JobCancelledError \<Longrightarrow> kept P c (io_raise e)"
  "r \<noteq> Inl JobCancelledError \<Longrightarrow> kept P c (io_lift r)"
  by (simp_all add: kept_def txn_simps)

lemma kept_bind [kept_intros]:
  fixes m :: "('r world, exn, 'a) io"
  assumes "kept P c m" and "\<And>x. kept P c (f x)"
  shows "kept P c (io_bind m f)"
  unfolding kept_def
proof (intro allI impI)
  fix w :: "'r world" assume w: "P (w_store w)"
  obtain r v where m: "m w = (r, v)" by (cases "m w")
  have v: "P (w_store v)" by (rule keptD [OF assms(1) w m])
  show "P (w_store (snd (io_bind m f w))) \<and> (fst (io_bind m f w) = Inl JobCancelledError \<longrightarrow> c)"
  proof (cases r)
    case (Inl e)
    then show ?thesis using m v kept_cancelledD [OF assms(1) w] by (auto simp: txn_simps)
  next
    case (Inr x)
    have "kept P c (f x)" by (rule assms(2))
    with v Inr m show ?thesis unfolding kept_def by (simp add: txn_simps)
  qed
qed

lemma kept_for [kept_intros]: "(\<And>x. kept P c (f x)) \<Longrightarrow> kept P c (io_for f xs)"
  by (induction xs) (auto intro: kept_intros)

lemma kept_if [kept_intros]: "kept P c a \<Longrightarrow> kept P c b \<Longrightarrow> kept P c (if d then a else b)"
  by simp

text \<open>Nothing the handlers compute with raises it.\<close>

lemma not_cancelled [kept_intros]:
  "dict_get d k \<noteq> Inl JobCancelledError" "py_int v \<noteq> Inl JobCancelledError"
  "py_float v \<noteq> Inl JobCancelledError" "float_of_int n \<noteq> Inl JobCancelledError"
  "fdiv a b \<noteq> Inl JobCancelledError" "step_progress index n \<noteq> Inl JobCancelledError"
proof -
  show 1: "float_of_int n \<noteq> Inl JobCancelledError" for n by (simp add: float_of_int_def split: pyfloat.split)
  have 2: "int_of_float q \<noteq> Inl JobCancelledError" for q by (cases q) simp_all
  show "dict_get d k \<noteq> Inl JobCancelledError" by (simp add: dict_get_def split: option.split)
  show "py_int v \<noteq> Inl JobCancelledError"
    using 2 by (cases v) (auto simp: int_of_str_def split: option.split prod.split)
  show "py_float v \<noteq> Inl JobCancelledError"
    using 1 by (cases v) (auto simp: float_of_str_def Let_def split: option.split prod.split)
  show "fdiv a b \<noteq> Inl JobCancelledError" by (cases a; cases b) simp_all
  show "step_progress index n \<noteq> Inl JobCancelledError"
    using 2 by (auto simp: step_progress_def int_true_div_def split: pyfloat.split)
qed

lemma update_jobs_errors: "update_jobs p f s \<noteq> Inl JobCancelledError"
proof
  assume "update_jobs p f s = Inl JobCancelledError"
  then obtain j where "find (\<lambda>j. p j \<and> job_row_check (f j) \<noteq> None) (jobs s) = Some j"
      "the (job_row_check (f j)) = JobCancelledError"
    by (auto simp: update_jobs_def split: option.splits)
  moreover from this(1) have "job_row_check (f j) \<noteq> None" by (auto simp: find_Some_iff)
  ultimately show False by (auto simp: job_row_check_def split: if_splits)
qed

lemma session_result:
  assumes "session_begin x m w = (Inr r, w')"
  obtains ev now where "m ev now (w_store (x_others x w)) = Inr (r, w_store w')"
  using assms by (auto simp: session_begin_def run_txn_def Let_def split: if_splits sum.splits prod.splits)

lemma kept_session:
  fixes x :: "'r execution_env"
  assumes "\<And>w :: 'r world. P (w_store w) \<Longrightarrow> P (w_store (x_others x w))"
    and "\<And>ev now. preserves P (m ev now)" and "\<And>ev now s. m ev now s \<noteq> Inl JobCancelledError"
  shows "kept P c (session_begin x m)"
  unfolding kept_def
proof (intro allI impI)
  fix w :: "'r world" assume "P (w_store w)"
  then have v: "P (w_store (x_others x w))" by (rule assms(1))
  let ?m = "m (x_session x (x_others x w)) (x_clock x (x_others x w))"
  show "P (w_store (snd (session_begin x m w))) \<and> (fst (session_begin x m w) = Inl JobCancelledError \<longrightarrow> c)"
  proof (cases "?m (w_store (x_others x w))")
    case (Inl e)
    then show ?thesis using v assms(3)
      by (auto simp: session_begin_def Let_def run_txn_def) 
  next
    case (Inr r)
    then have "P (snd r)" using preservesD [OF assms(2) v, of _ _ "fst r" "snd r"] by simp
    with Inr show ?thesis using v
      by (cases r) (auto simp: session_begin_def Let_def run_txn_def)
  qed
qed

text \<open>What else happens to the store leaves the job with its worker: not the lease reaper, and nobody
  else under the same identity.\<close>

definition left_alone :: "JobStatus set \<Rightarrow> uuid \<Rightarrow> 'r execution_env \<Rightarrow> bool" where
  "left_alone stages i x \<longleftrightarrow> active stages \<and> RUNNING \<in> stages \<and>
     (\<forall>n w. held stages i (x_worker_id x) n (w_store w) \<longrightarrow> held stages i (x_worker_id x) n (w_store (x_others x w)))"

lemma left_aloneD:
  "left_alone S i x \<Longrightarrow> held S i (x_worker_id x) n (w_store w) \<Longrightarrow> held S i (x_worker_id x) n (w_store (x_others x w))"
  by (simp add: left_alone_def)

lemma requested_held:
  assumes "cancellation_requested i s = Inr (b, t)" and "held S i w n s"
  shows "t = s" "b \<Longrightarrow> CANCELLING \<in> S"
  using assms by (auto simp: cancellation_requested_def job_get_def txn_simps held_def held_row_def)

lemma requested_ok: "cancellation_requested i s \<noteq> Inl JobCancelledError"
  by (simp add: cancellation_requested_def job_get_def txn_simps)

lemma report_ok: "report_progress cfg w i p now s \<noteq> Inl JobCancelledError"
  using update_jobs_errors
  by (auto simp: report_progress_def update_progress_def update_job_where_def txn_bind_def txn_return_def split: sum.splits)

lemma kept_requested:
  assumes "left_alone S i x"
  shows "kept (held S i (x_worker_id x) n) c (session_begin x (\<lambda>ev now. cancellation_requested i))"
proof (rule kept_session)
  show "preserves (held S i (x_worker_id x) n) (cancellation_requested i)"
    by (auto simp: preserves_def dest: requested_held)
qed (use left_aloneD [OF assms] requested_ok in auto)

lemma kept_context:
  assumes "left_alone S i x"
  shows "kept (held S i (x_worker_id x) n) (CANCELLING \<in> S) (check_cancelled x i)" (is ?check)
    and "kept (held S i (x_worker_id x) n) (CANCELLING \<in> S) (exec_report_progress x cfg i p)" (is ?report)
    and "kept (held S i (x_worker_id x) n) (CANCELLING \<in> S) (exec_sleep x secs)" (is ?sleep)
proof -
  let ?P = "held S i (x_worker_id x) n"
  let ?look = "session_begin x (\<lambda>ev now. cancellation_requested i)"
  show ?check unfolding kept_def
  proof (intro allI impI)
    fix w :: "'a world" assume w: "?P (w_store w)"
    obtain r v where look: "?look w = (r, v)" by (cases "?look w")
    have v: "?P (w_store v)" by (rule keptD [OF kept_requested [OF assms, where c = True] w look])
    show "?P (w_store (snd (check_cancelled x i w))) \<and>
        (fst (check_cancelled x i w) = Inl JobCancelledError \<longrightarrow> CANCELLING \<in> S)"
    proof (cases r)
      case (Inl e)
      then show ?thesis using v look kept_cancelledD [OF kept_requested [OF assms, where c = False] w]
        by (auto simp: check_cancelled_def txn_simps)
    next
      case (Inr b)
      with look obtain ev :: session_env and now :: datetime
        where "cancellation_requested i (w_store (x_others x w)) = Inr (b, w_store v)"
        by (auto elim: session_result)
      from requested_held(2) [OF this left_aloneD [OF assms w]] show ?thesis
        using v look Inr by (simp add: check_cancelled_def txn_simps)
    qed
  qed
  show ?report unfolding exec_report_progress_def
    by (rule kept_session) (use left_aloneD [OF assms] held_report report_ok in auto)
  show ?sleep using left_aloneD [OF assms] by (auto simp: kept_def exec_sleep_def Let_def)
qed

lemma kept_handler:
  assumes "left_alone S i x"
  shows "kept (held S i (x_worker_id x) n) (CANCELLING \<in> S) (get_handler ty pl (context_of x cfg i k))"
proof -
  have steps: "kept (held S i (x_worker_id x) n) (CANCELLING \<in> S) (run_steps m secs (context_of x cfg i k))" for m secs
    unfolding run_steps_def context_of_def
    by (simp, intro kept_intros kept_context [OF assms])
  have check: "kept (held S i (x_worker_id x) n) (CANCELLING \<in> S) (ctx_check_cancelled (context_of x cfg i k))"
    by (simp add: context_of_def kept_context [OF assms])
  show ?thesis
    by (cases ty; simp add: handle_sleep_def handle_report_def handle_flaky_def handle_always_fail_def
        handle_llm_summary_def, intro kept_intros steps check)
      (auto split: json.split)
qed

section \<open>Who leaves a job alone\<close>

text \<open>
  Every transaction of the program but two kinds: the lease reaper's, and an outcome written under the
  worker's own identity. A cancellation is one of them only where it is allowed.
\<close>

inductive side_step :: "bool \<Rightarrow> string \<Rightarrow> store \<Rightarrow> store \<Rightarrow> bool" for may_cancel own where
  submit: "submit_create ev cfg u ty pl pr mx k now s = Inr (x1, t) \<Longrightarrow> side_step may_cancel own s t"
| cancel: "cancel ev i u why now s = Inr (x2, t) \<Longrightarrow> may_cancel \<Longrightarrow> side_step may_cancel own s t"
| claim: "exec_claim ev cfg w i now s = Inr (x3, t) \<Longrightarrow> side_step may_cancel own s t"
| heartbeat: "exec_heartbeat cfg w i now s = Inr (x4, t) \<Longrightarrow> side_step may_cancel own s t"
| progress: "report_progress cfg w i p now s = Inr (x5, t) \<Longrightarrow> side_step may_cancel own s t"
| succeed: "finalize_succeeded ev w i aid res now s = Inr (x6, t) \<Longrightarrow> w \<noteq> own \<Longrightarrow> side_step may_cancel own s t"
| fail: "finalize_failed ev w i aid c msg dl now s = Inr (x7, t) \<Longrightarrow> w \<noteq> own \<Longrightarrow> side_step may_cancel own s t"
| retry: "exec_schedule_retry ev w i aid c msg due now s = Inr (x8, t) \<Longrightarrow> w \<noteq> own \<Longrightarrow> side_step may_cancel own s t"
| stop: "finalize_cancelled ev w i aid now s = Inr (x9, t) \<Longrightarrow> w \<noteq> own \<Longrightarrow> side_step may_cancel own s t"
| dispatch: "dispatch_txn ev now n s = Inr (x10, t) \<Longrightarrow> side_step may_cancel own s t"
| redeliver: "redeliver_txn ev cutoff now_at n s = Inr (x11, t) \<Longrightarrow> side_step may_cancel own s t"
| promote: "promote_txn ev now n s = Inr (x12, t) \<Longrightarrow> side_step may_cancel own s t"
| expire: "expire_txn ev cfg now n s = Inr (x14, t) \<Longrightarrow> side_step may_cancel own s t"
| deliver: "deliver_txn de cfg ev now n s = Inr (x15, t) \<Longrightarrow> side_step may_cancel own s t"

lemma held_other_tables [preserves_intros]:
  "preserves (held S i w n) (generate_uuid7 ev)" "preserves (held S i w n) (insert_attempt a)"
  "preserves (held S i w n) (insert_event e)" "preserves (held S i w n) (insert_dispatch d)"
  "preserves (held S i w n) (insert_notification_on_conflict ntf)" "preserves (held S i w n) (update_attempts pa fa)"
  "preserves (held S i w n) (update_dispatch pd fd)" "preserves (held S i w n) (update_notifications pn fn)"
  "preserves (held S i w n) (insert_job job)"
  by (auto simp: preserves_def txn_simps held_def row_of_append split: if_splits option.splits)

lemma held_reports [preserves_intros]:
  "preserves (held S i w n) (event_record ev jid ty from to detail)"
  "preserves (held S i w n) (attempt_start ev jid m v now)" "preserves (held S i w n) (attempt_finish aid st now oc omsg)"
  "preserves (held S i w n) (mark_superseded aid now)"
  "preserves (held S i w n) (mark_published oid now)" "preserves (held S i w n) (mark_sent nid now)"
  "preserves (held S i w n) (reschedule nid due err)" "preserves (held S i w n) (notification_mark_failed nid err)"
  "preserves (held S i w n) (enqueue_terminal_notification ev job ety st res c msg now)"
  "preserves (held S i w n) (dispatch_add ev jid)" "preserves (held S i w n) (job_add job)"
  unfolding event_record_def attempt_start_def attempt_finish_def mark_superseded_def mark_published_def mark_sent_def
    reschedule_def notification_mark_failed_def enqueue_terminal_notification_def notification_enqueue_def
    dispatch_add_def job_add_def Let_def
  by (intro preserves_intros)+

text \<open>An update passes over a held row or leaves it held.\<close>

lemma held_updates [preserves_intros]:
  assumes "active S"
  shows "preserves (held S i w n) (mark_redispatched jid now)" "preserves (held S i w n) (mark_queued jid now)"
    "preserves (held S i w n) (move_retry_to_queued jid now)" "preserves (held S i w n) (job_expire jid now)"
    "preserves (held S i w n) (heartbeat jid v lease now)" "preserves (held S i w n) (update_progress jid v p lease now)"
    "preserves (held S i w n) (claim_for_execution jid v lease now)" "preserves (held S i w n) (cancel_inactive jid why now)"
    "CANCELLING \<in> S \<Longrightarrow> preserves (held S i w n) (request_running_cancellation jid why now)"
    "v \<noteq> w \<Longrightarrow> preserves (held S i w n) (mark_succeeded jid v res now)"
    "v \<noteq> w \<Longrightarrow> preserves (held S i w n) (job_mark_failed jid v c msg now dl)"
    "v \<noteq> w \<Longrightarrow> preserves (held S i w n) (job_schedule_retry jid v c msg due now)"
    "v \<noteq> w \<Longrightarrow> preserves (held S i w n) (finalize_cancelled_by_worker jid v now)"
  unfolding mark_redispatched_def mark_queued_def move_retry_to_queued_def job_expire_def heartbeat_def
    update_progress_def claim_for_execution_def cancel_inactive_def request_running_cancellation_def
    mark_succeeded_def job_mark_failed_def job_schedule_retry_def finalize_cancelled_by_worker_def update_job_where_def
  by (intro preserves_intros held_update; use assms in \<open>auto simp: held_row_def active_def guard_simps\<close>)+

lemma held_transactions [preserves_intros]:
  assumes "active S"
  shows "preserves (held S i w n) (dispatch_txn ev now m)" "preserves (held S i w n) (redeliver_txn ev cutoff now_at m)"
    "preserves (held S i w n) (promote_txn ev now m)" "preserves (held S i w n) (expire_txn ev cfg now m)"
    "preserves (held S i w n) (exec_claim ev cfg v jid now)" "preserves (held S i w n) (exec_heartbeat cfg v jid now)"
    "preserves (held S i w n) (report_progress cfg v jid p now)"
    "preserves (held S i w n) (submit_create ev cfg u ty pl pr mx k now)"
    "CANCELLING \<in> S \<Longrightarrow> preserves (held S i w n) (cancel ev jid u why now)"
    "v \<noteq> w \<Longrightarrow> preserves (held S i w n) (finalize_succeeded ev v jid aid res now)"
    "v \<noteq> w \<Longrightarrow> preserves (held S i w n) (finalize_failed ev v jid aid c msg dl now)"
    "v \<noteq> w \<Longrightarrow> preserves (held S i w n) (exec_schedule_retry ev v jid aid c msg due now)"
    "v \<noteq> w \<Longrightarrow> preserves (held S i w n) (finalize_cancelled ev v jid aid now)"
  unfolding dispatch_txn_def redeliver_txn_def promote_txn_def expire_txn_def exec_claim_def exec_heartbeat_def
    dispatch_row_def redeliver_row_def promote_row_def expire_row_def report_progress_def submit_create_def cancel_def
    finalize_succeeded_def finalize_failed_def exec_schedule_retry_def finalize_cancelled_def Let_def
  by (intro preserves_intros assms; assumption)+

lemma held_delivery [preserves_intros]: "preserves (held S i w n) (deliver_txn de cfg ev now m)"
  by (intro preserves_deliver_txn preserves_intros) (unfold on_failure_def Let_def, intro preserves_intros)

lemma side_step_held:
  assumes "side_step may_cancel w s t" and "held S i w n s" and "active S" and "may_cancel \<Longrightarrow> CANCELLING \<in> S"
  shows "held S i w n t"
  using assms(1)
  by cases (erule preservesD [where P = "held S i w n" and s = s, rotated, OF assms(2)], intro preserves_intros assms(3,4); assumption)+

text \<open>So a worker is left alone beside any number of such steps, whoever takes them.\<close>

lemma side_step_db: "side_step may_cancel own s t \<Longrightarrow> db_step s t"
  by (erule side_step.cases) (blast intro: db_step.intros)+

lemma side_steps_leave_alone:
  assumes "\<And>w. (side_step may_cancel (x_worker_id x))\<^sup>*\<^sup>* (w_store w) (w_store (x_others x w))"
  shows "left_alone (if may_cancel then {RUNNING, CANCELLING} else {RUNNING}) i x" (is "left_alone ?S i x")
proof -
  have S: "active ?S" "may_cancel \<Longrightarrow> CANCELLING \<in> ?S" by (auto simp: active_def)
  have "held ?S i (x_worker_id x) n t"
    if "(side_step may_cancel (x_worker_id x))\<^sup>*\<^sup>* s t" "held ?S i (x_worker_id x) n s" for n s t
    using that by (induction rule: rtranclp_induct) (blast intro: side_step_held [OF _ _ S])+
  then show ?thesis using assms S(1) unfolding left_alone_def by (auto split: if_splits)
qed

section \<open>The end of an attempt\<close>

text \<open>Each outcome is written in a session that first meets what the others did.\<close>

lemma session_held:
  assumes "session_begin x m w = (Inr r, w')" and "left_alone S i x" and "held S i (x_worker_id x) n (w_store w)"
  obtains ev now where "m ev now (w_store (x_others x w)) = Inr (r, w_store w')"
    and "held S i (x_worker_id x) n (w_store (x_others x w))" and "active S"
  using assms left_aloneD [OF assms(2,3)] by (elim session_result) (auto simp: left_alone_def)

lemma session_ends:
  assumes "left_alone S i x" and "held S i (x_worker_id x) n (w_store w)"
  shows "session_begin x (\<lambda>ev now. finalize_succeeded ev (x_worker_id x) i aid res now) w = (Inr u1, w') \<Longrightarrow>
      \<exists>j. row_of j_id i (jobs (w_store w')) = Some j \<and> j_status j = SUCCEEDED \<and> j_result j = Some res \<and>
        j_progress j = 100 \<and> j_attempts j = n"
    and "session_begin x (\<lambda>ev now. finalize_failed ev (x_worker_id x) i aid c msg dl now) w = (Inr u2, w') \<Longrightarrow>
      \<exists>j. row_of j_id i (jobs (w_store w')) = Some j \<and> failed_row c msg dl j \<and> j_attempts j = n"
    and "session_begin x (\<lambda>ev now. finalize_cancelled ev (x_worker_id x) i aid now) w = (Inr u3, w') \<Longrightarrow>
      \<exists>j. row_of j_id i (jobs (w_store w')) = Some j \<and> j_status j = CANCELLED \<and> j_attempts j = n"
    and "session_begin x (\<lambda>ev now. exec_schedule_retry ev (x_worker_id x) i aid c msg due now) w = (Inr u4, w') \<Longrightarrow>
      \<exists>j. row_of j_id i (jobs (w_store w')) = Some j \<and> j_attempts j = n \<and>
        (j_status j = RETRYING \<and> j_error_code j = Some c \<and> j_error_message j = Some msg \<and> j_locked_by j = None \<and>
           j_next_attempt_at j = Some due \<or> CANCELLING \<in> S \<and> j_status j = CANCELLING)"
  by (erule session_held [OF _ assms], drule (2) held_succeeds, assumption)
     (erule session_held [OF _ assms], drule (2) held_fails held_stops held_put_off, blast)+

lemma io_bind_result:
  assumes "io_bind m f w = (Inr r, w')"
  obtains y v where "m w = (Inr y, v)" "f y v = (Inr r, w')"
  using assms by (auto simp: txn_simps split: prod.splits sum.splits)

lemma retryable_row:
  assumes run: "handle_retryable rc x cfg i aid n limit c msg w = (Inr u, w')" and x: "left_alone S i x"
    and w: "held S i (x_worker_id x) n (w_store w)"
  shows "\<exists>j. row_of j_id i (jobs (w_store w')) = Some j \<and> j_attempts j = n \<and> retried_row S x cfg i n limit w c msg j"
proof -
  let ?look = "session_begin x (\<lambda>ev now. cancellation_requested i)"
  obtain b v where look: "?look w = (Inr b, v)"
    and rest: "(if b then session_begin x (\<lambda>ev now. finalize_cancelled ev (x_worker_id x) i aid now)
       else if n \<ge> limit then io_bind (session_begin x (\<lambda>ev now. finalize_failed ev (x_worker_id x) i aid c msg True now))
         (\<lambda>won. if won then run_redis (dead_letter rc (redis_queue_namespace cfg) (uuid_str i)) else io_return ())
       else (\<lambda>w. case compute_backoff_seconds n cfg (x_random x w) of Inl e \<Rightarrow> (Inl e, w)
         | Inr backoff \<Rightarrow> (case timedelta_float backoff of Inl e \<Rightarrow> (Inl e, w)
           | Inr delta \<Rightarrow> (case datetime_add (x_clock x w) delta of Inl e \<Rightarrow> (Inl e, w)
             | Inr due \<Rightarrow> session_begin x (\<lambda>ev now. exec_schedule_retry ev (x_worker_id x) i aid c msg due now) w)))) v = (Inr u, w')"
    by (rule io_bind_result [OF run [unfolded handle_retryable_def]])
  have v: "held S i (x_worker_id x) n (w_store v)" by (rule keptD [OF kept_requested [OF x, where c = True] w look])
  note ends = session_ends [OF x v]
  have after: "looked x i w = v" by (simp add: looked_def look)
  show ?thesis
  proof (cases b)
    case True
    obtain ev :: session_env and now :: datetime where "cancellation_requested i (w_store (x_others x w)) = Inr (b, w_store v)"
      by (rule session_result [OF look])
    then have S: "CANCELLING \<in> S" using requested_held(2) [OF _ left_aloneD [OF x w]] True by blast
    from rest True have "session_begin x (\<lambda>ev now. finalize_cancelled ev (x_worker_id x) i aid now) v = (Inr u, w')" by simp
    from ends(3) [OF this] S show ?thesis by (auto simp: retried_row_def)
  next
    case no_request: False
    show ?thesis
    proof (cases "n \<ge> limit")
      case True
      with rest no_request obtain won v' where fail: "session_begin x (\<lambda>ev now.
            finalize_failed ev (x_worker_id x) i aid c msg True now) v = (Inr won, v')"
        and "(if won then run_redis (dead_letter rc (redis_queue_namespace cfg) (uuid_str i)) else io_return ()) v' = (Inr u, w')"
        by (simp, elim io_bind_result, simp)
      then have "w_store w' = w_store v'" by (auto simp: run_redis_def txn_simps split: if_splits prod.splits)
      with ends(2) [OF fail] True show ?thesis by (auto simp: retried_row_def)
    next
      case False
      with rest no_request obtain seconds delta due where due: "compute_backoff_seconds n cfg (x_random x v) = Inr seconds"
          "timedelta_float seconds = Inr delta" "datetime_add (x_clock x v) delta = Inr due"
        and put: "session_begin x (\<lambda>ev now. exec_schedule_retry ev (x_worker_id x) i aid c msg due now) v = (Inr u, w')"
        by (auto split: sum.splits)
      from due have "due_after x cfg n v due" by (auto simp: due_after_def)
      with ends(4) [OF put] show ?thesis
        using False by (auto simp: retried_row_def retry_row_def after)
    qed
  qed
qed

lemma outcome_written:
  assumes run: "on_outcome rc x cfg i aid n limit outcome w = (Inr u, w')" and x: "left_alone S i x"
    and w: "held S i (x_worker_id x) n (w_store w)"
    and cancelled: "outcome = Inl JobCancelledError \<Longrightarrow> CANCELLING \<in> S"
  shows "\<exists>j. row_of j_id i (jobs (w_store w')) = Some j \<and> j_attempts j = n \<and>
    outcome_row S x cfg i n limit w outcome j"
proof (cases outcome)
  case (Inr res)
  with run have "session_begin x (\<lambda>ev now. finalize_succeeded ev (x_worker_id x) i aid res now) w = (Inr u, w')"
    by (simp add: on_outcome_def)
  from session_ends(1) [OF x w this] Inr show ?thesis by (auto simp: outcome_row_def)
next
  case (Inl e)
  consider "e = JobCancelledError" | c msg where "e = NonRetryableError c msg" | "e = CancelledError"
    | c msg where "outcome_row S x cfg i n limit w outcome = retried_row S x cfg i n limit w c msg"
        "handle_retryable rc x cfg i aid n limit c msg w = (Inr u, w')"
    using run Inl by (cases e) (auto simp: on_outcome_def outcome_row_def [abs_def])
  then show ?thesis
  proof cases
    case 1
    with run Inl have "session_begin x (\<lambda>ev now. finalize_cancelled ev (x_worker_id x) i aid now) w = (Inr u, w')"
      by (simp add: on_outcome_def)
    from session_ends(3) [OF x w this] 1 Inl cancelled show ?thesis by (auto simp: outcome_row_def)
  next
    case 2
    with run Inl obtain b where "session_begin x (\<lambda>ev now.
        finalize_failed ev (x_worker_id x) i aid c msg False now) w = (Inr b, w')"
      by (auto simp: on_outcome_def io_apply elim!: io_bind_result)
    from session_ends(2) [OF x w this] 2 Inl show ?thesis by (auto simp: outcome_row_def)
  next
    case 3
    with run Inl show ?thesis by (simp add: on_outcome_def io_apply)
  next
    case 4
    from retryable_row [OF 4(2) x w] 4(1) show ?thesis by simp
  qed
qed

section \<open>A whole execution\<close>

lemma claim_holds:
  assumes "exec_claim ev cfg w i now s = Inr (Some (n, aid, snap), t)" and "distinct (map j_id (jobs s))" and "RUNNING \<in> S"
  shows "held S i w n t"
  using assms(1)
proof (cases rule: exec_claim_cases)
  case (2 j m aid' s1 s2)
  have "jobs s2 = jobs s1" using attempt_start_Inr [OF 2(5)] by auto
  then have t: "jobs t = upd_where (claim_guard i) (claimed w (worker_lease_seconds cfg) now) (jobs s)"
    using event_record_jobs [OF 2(6)] by (simp add: 2(4))
  have "row_of j_id i (jobs s) = Some j"
    using assms(2) 2(1,2) by (auto simp: row_of_Some_iff claim_guard_def)
  then have "row_of j_id i (jobs t) = Some (claimed w (worker_lease_seconds cfg) now j)"
    using 2(2) by (simp add: t row_of_upd claimed_def)
  then show ?thesis using 2(2,3,7) assms(3) by (auto simp: held_def held_row_def claimed_def claim_guard_def)
qed simp

lemma execution_row:
  assumes "left_alone stages i x" and "reachable (w_store (x_others x w))"
    and "execute rc x cfg i w = (Inr True, w')"
  shows "\<exists>n aid snap w1 outcome w2 j.
    session_begin x (\<lambda>ev now. exec_claim ev cfg (x_worker_id x) i now) w = (Inr (Some (n, aid, snap)), w1) \<and>
    get_handler (snap_type snap) (snap_payload snap) (context_of x cfg i n) w1 = (outcome, w2) \<and>
    row_of j_id i (jobs (w_store w')) = Some j \<and> j_attempts j = n \<and>
    outcome_row stages x cfg i n (snap_max_attempts snap) w2 outcome j"
proof -
  let ?P = "\<lambda>n. held stages i (x_worker_id x) n"
  from assms(3) obtain claim w1 where claim: "session_begin x (\<lambda>ev now. exec_claim ev cfg (x_worker_id x) i now) w = (Inr claim, w1)"
    and "(case claim of None \<Rightarrow> io_return False w1 | Some (n, aid, snap) \<Rightarrow>
      (case get_handler (snap_type snap) (snap_payload snap) (context_of x cfg i n) w1 of (outcome, w2) \<Rightarrow>
       (case on_outcome rc x cfg i aid n (snap_max_attempts snap) outcome w2 of (res, w3) \<Rightarrow>
        (case x_heartbeat x w3 of Inl e \<Rightarrow> (Inl e, w3)
         | Inr _ \<Rightarrow> (case res of Inl e \<Rightarrow> (Inl e, w3) | Inr _ \<Rightarrow> (Inr True, w3)))))) = (Inr True, w')"
    unfolding execute_def by (rule io_bind_result) (auto split: option.splits)
  then obtain n aid snap outcome w2 u where won: "claim = Some (n, aid, snap)"
    and handler: "get_handler (snap_type snap) (snap_payload snap) (context_of x cfg i n) w1 = (outcome, w2)"
    and ended: "on_outcome rc x cfg i aid n (snap_max_attempts snap) outcome w2 = (Inr u, w')"
    by (auto simp: io_apply split: option.splits prod.splits sum.splits)
  have "distinct (map j_id (jobs (w_store (x_others x w))))"
    using reachable_inv [OF assms(2)] by (rule store_inv_distinct)
  moreover obtain ev now where "exec_claim ev cfg (x_worker_id x) i now (w_store (x_others x w)) = Inr (claim, w_store w1)"
    by (rule session_result [OF claim])
  ultimately have w1: "?P n (w_store w1)"
    using claim_holds assms(1) won by (simp add: left_alone_def)
  have w2: "?P n (w_store w2)" by (rule keptD [OF kept_handler [OF assms(1)] w1 handler])
  have "CANCELLING \<in> stages" if "outcome = Inl JobCancelledError"
    using kept_cancelledD [OF kept_handler [OF assms(1)] w1] handler that by blast
  from outcome_written [OF ended assms(1) w2 this] show ?thesis using claim won handler by blast
qed

definition stages_of :: "bool \<Rightarrow> JobStatus set" where
  "stages_of may_cancel = (if may_cancel then {RUNNING, CANCELLING} else {RUNNING})"

text \<open>
  C7. An execution that returns True has done what the outcome of its handler calls for. The job it
  claimed is SUCCEEDED with the handler's result, or FAILED with the error's code and message if the
  error is final; after any other error it is RETRYING, due at the clock's reading plus the backoff of
  that attempt (both read when the worker has looked for a cancellation), or FAILED and dead-lettered if the attempts are used up. It is CANCELLED, or still CANCELLING, only where
  the others may ask to cancel it. All the while, at every await, the others take any number
  of transactions of the program, except the reaper's and outcomes under the same worker id.
\<close>

theorem execution_outcome:
  assumes "\<And>w. (side_step may_cancel (x_worker_id x))\<^sup>*\<^sup>* (w_store w) (w_store (x_others x w))"
    and "reachable (w_store w)" and "execute rc x cfg i w = (Inr True, w')"
  shows "\<exists>n aid snap w1 outcome w2 j.
    session_begin x (\<lambda>ev now. exec_claim ev cfg (x_worker_id x) i now) w = (Inr (Some (n, aid, snap)), w1) \<and>
    get_handler (snap_type snap) (snap_payload snap) (context_of x cfg i n) w1 = (outcome, w2) \<and>
    row_of j_id i (jobs (w_store w')) = Some j \<and> j_attempts j = n \<and>
    outcome_row (stages_of may_cancel) x cfg i n (snap_max_attempts snap) w2 outcome j"
proof (rule execution_row [OF _ _ assms(3)])
  show "left_alone (stages_of may_cancel) i x"
    unfolding stages_of_def by (rule side_steps_leave_alone) (rule assms(1))
  have "db_step\<^sup>*\<^sup>* s t" if "(side_step may_cancel own)\<^sup>*\<^sup>* s t" for own s t
    using that by (induction rule: rtranclp_induct) (auto intro: rtranclp.rtrancl_into_rtrancl side_step_db)
  from this [OF assms(1)] show "reachable (w_store (x_others x w))" by (rule reachable_steps [OF assms(2)])
qed

text \<open>A flaky job, submitted and dispatched as in the other runs, whose first attempt succeeds.\<close>

definition demo_flaky1 :: store where
  "demo_flaky1 = (case submit_create demo_env default_settings ''alice'' FLAKY [(''fail_times'', JInt 0)] NORMAL 3
     None 100 empty_store of Inl _ \<Rightarrow> empty_store | Inr (_, s) \<Rightarrow> s)"

definition demo_flaky2 :: store where
  "demo_flaky2 = (case dispatch_txn demo_env 200 10 demo_flaky1 of Inl _ \<Rightarrow> demo_flaky1 | Inr (_, s) \<Rightarrow> s)"

lemma demo_flaky_reachable: "reachable demo_flaky2"
proof -
  have "(case submit_create demo_env default_settings ''alice'' FLAKY [(''fail_times'', JInt 0)] NORMAL 3
      None 100 empty_store of Inl _ \<Rightarrow> False | Inr _ \<Rightarrow> True)" by code_simp
  then obtain j where 1: "submit_create demo_env default_settings ''alice'' FLAKY [(''fail_times'', JInt 0)] NORMAL 3
      None 100 empty_store = Inr (j, demo_flaky1)"
    unfolding demo_flaky1_def by (auto split: sum.splits prod.splits)
  have "(case dispatch_txn demo_env 200 10 demo_flaky1 of Inl _ \<Rightarrow> False | Inr _ \<Rightarrow> True)" by code_simp
  then obtain r where 2: "dispatch_txn demo_env 200 10 demo_flaky1 = Inr (r, demo_flaky2)"
    unfolding demo_flaky2_def by (auto split: sum.splits prod.splits)
  have "reachable empty_store" by (simp add: reachable_def)
  from reachable_step [OF reachable_step [OF this db_step.submit [OF 1]] db_step.dispatch [OF 2]] show ?thesis .
qed

theorem execution_outcome_witness:
  "\<exists>w' n aid snap w1 outcome w2 j.
    execute mem_redis demo_worker default_settings 1 \<lparr>w_store = demo_flaky2, w_redis = \<lambda>_. []\<rparr> = (Inr True, w') \<and>
    session_begin demo_worker (\<lambda>ev now. exec_claim ev default_settings (x_worker_id demo_worker) 1 now)
      \<lparr>w_store = demo_flaky2, w_redis = \<lambda>_. []\<rparr> = (Inr (Some (n, aid, snap)), w1) \<and>
    get_handler (snap_type snap) (snap_payload snap) (context_of demo_worker default_settings 1 n) w1 = (outcome, w2) \<and>
    row_of j_id 1 (jobs (w_store w')) = Some j \<and> j_attempts j = n \<and>
    outcome_row (stages_of False) demo_worker default_settings 1 n (snap_max_attempts snap) w2 outcome j"
proof -
  let ?w = "\<lparr>w_store = demo_flaky2, w_redis = \<lambda>_. []\<rparr>"
  have "fst (execute mem_redis demo_worker default_settings 1 ?w) = Inr True" by code_simp
  then obtain w' where run: "execute mem_redis demo_worker default_settings 1 ?w = (Inr True, w')"
    by (cases "execute mem_redis demo_worker default_settings 1 ?w") simp
  have "(side_step False (x_worker_id demo_worker))\<^sup>*\<^sup>* (w_store w) (w_store (x_others demo_worker w))" for w
    by (simp add: demo_worker_def)
  moreover have "reachable (w_store ?w)" by (simp add: demo_flaky_reachable)
  ultimately show ?thesis using execution_outcome [OF _ _ run] run by blast
qed

section \<open>The gap\<close>

text \<open>The cancellation is accepted while the job is RUNNING, and the update that puts the job off then
  finds it CANCELLING: it changes no row, and nobody looks at the request again.\<close>

lemma put_off_too_late:
  assumes "exec_schedule_retry ev w i aid c msg due now s = Inr (u, t)" and "j_status j = CANCELLING"
    and "j \<in> set (jobs s)" and "distinct (map j_id (jobs s))" and "j_id j = i"
  shows "jobs t = jobs s" and "mark_superseded aid now s = Inr (u, t)"
proof -
  have "\<forall>k \<in> set (jobs s). \<not> (j_id k = i \<and> j_locked_by k = Some w \<and> j_status k = RUNNING)"
    using assms(2,5) same_row [OF assms(4) _ assms(3)] by fastforce
  then have lost: "job_schedule_retry i w c msg due now s = Inr (False, s)"
    unfolding job_schedule_retry_def by (rule no_row_update)
  show late: "mark_superseded aid now s = Inr (u, t)"
    using assms(1) lost by (simp add: exec_schedule_retry_def txn_bind_def)
  show "jobs t = jobs s" using late by (rule jobs_quiet)
qed

lemma superseded_row:
  assumes "mark_superseded aid now s = Inr (u, t)" and "a \<in> set (job_attempts t)" and "a_id a = aid"
  shows "a_status a = FAILED \<and> a_error_code a = Some ''SUPERSEDED''"
proof -
  define f :: "job_attempt \<Rightarrow> job_attempt" where "f = (\<lambda>a. a\<lparr>a_status := FAILED, a_completed_at := Some now, a_error_code := Some ''SUPERSEDED'',
    a_error_message := Some ''attempt superseded before finalize''\<rparr>)"
  have "job_attempts t = upd_where (\<lambda>a. a_id a = aid) f (job_attempts s)"
    using assms(1) by (auto simp: mark_superseded_def attempt_finish_def update_attempts_def f_def split: if_splits)
  then obtain b where "a = (if a_id b = aid then f b else b)" using assms(2) by (auto simp: in_set_upd_where)
  moreover have "a_status (f b) = FAILED" "a_error_code (f b) = Some ''SUPERSEDED''" by (simp_all add: f_def)
  ultimately show ?thesis using assms(3) by (cases "a_id b = aid") simp_all
qed

text \<open>
  C30. A cancellation that is accepted between the worker's last look at the request and the update
  that puts a failed attempt off is lost: the worker leaves the job CANCELLING, its attempt closed as
  superseded, and no tick of the scheduler ever moves it. No process has crashed, and the job never
  ends.
\<close>

theorem cancel_before_retry_strands:
  assumes "session_begin x (\<lambda>ev now. cancellation_requested i) w = (Inr False, v)"
    and "reachable (w_store (x_others x v))" and "j \<in> set (jobs (w_store (x_others x v)))"
    and "j_id j = i" and "j_status j = CANCELLING" and "n < limit"
    and "handle_retryable rc x cfg i aid n limit c msg w = (Inr u, w')"
  shows "j \<in> set (jobs (w_store (scheduler_run k (\<lambda>w. w) (\<lambda>k. tick rc cfg (de k) (evs k) (nows k) (now_at k)) w'))) \<and>
    (\<forall>a \<in> set (job_attempts (w_store w')). a_id a = aid \<longrightarrow>
      a_status a = FAILED \<and> a_error_code a = Some ''SUPERSEDED'')"
proof -
  have d: "distinct (map j_id (jobs (w_store (x_others x v))))"
    using reachable_inv [OF assms(2)] by (rule store_inv_distinct)
  from assms(1,6,7) obtain due where put: "session_begin x (\<lambda>ev now.
      exec_schedule_retry ev (x_worker_id x) i aid c msg due now) v = (Inr u, w')"
    by (auto simp: handle_retryable_def io_bind_apply split: sum.splits)
  obtain ev now where "exec_schedule_retry ev (x_worker_id x) i aid c msg due now
      (w_store (x_others x v)) = Inr (u, w_store w')" by (rule session_result [OF put])
  note late = put_off_too_late [OF this assms(5,3) d assms(4)]
  have "j \<in> set (jobs (w_store w'))" using late(1) assms(3) by simp
  then have "j \<in> set (jobs (w_store (scheduler_run k (\<lambda>w. w) (\<lambda>k. tick rc cfg (de k) (evs k) (nows k) (now_at k)) w')))"
    using assms(5) by (rule scheduler_keeps_cancelling)
  then show ?thesis using superseded_row [OF late(2)] by blast
qed

text \<open>The run on which it happens: alice cancels the job when the worker has just looked. The list under
  one key of the world remembers whether the look is over.\<close>

definition racing_worker :: "(string \<Rightarrow> string list) execution_env" where
  "racing_worker = demo_worker\<lparr>x_others := (\<lambda>w. if w_redis w ''looked'' = []
      then w\<lparr>w_redis := (w_redis w)(''looked'' := [[]])\<rparr>
      else case demo_cancel 350 (w_store w) of Inl _ \<Rightarrow> w | Inr (_, s) \<Rightarrow> w\<lparr>w_store := s\<rparr>)\<rparr>"

text \<open>With a base delay of zero seconds the backoff needs no rounding.\<close>

definition eager_settings :: settings where
  "eager_settings = default_settings\<lparr>retry_base_seconds := Finite 0\<rparr>"

lemma eager_backoff:
  "compute_backoff_seconds 1 eager_settings (Finite 0) = Inr (Finite 0)" "timedelta_float (Finite 0) = Inr 0"
  by (simp_all add: compute_backoff_seconds_def eager_settings_def default_settings_def
      float_of_power [of 0, simplified] round_double_def Let_def fmin_def fmax_def uniform_def fsub_def
      rat_trunc_def round_half_even_def fl_def)

theorem cancel_before_retry_strands_witness:
  "\<exists>w'. handle_retryable mem_redis racing_worker eager_settings 1 5 1 3 ''BUSY'' ''try later''
      \<lparr>w_store = demo3, w_redis = \<lambda>_. []\<rparr> = (Inr (), w') \<and>
    cancelling_job \<in> set (jobs (w_store (scheduler_run 3 (\<lambda>w. w)
      (\<lambda>k. tick mem_redis eager_settings demo_delivery (\<lambda>_. demo_env) (\<lambda>_. 10 ^ 12) (\<lambda>_. 10 ^ 12)) w')))"
proof -
  let ?w = "\<lparr>w_store = demo3, w_redis = \<lambda>_. []\<rparr>"
  let ?v = "\<lparr>w_store = demo3, w_redis = (\<lambda>_. [])(''looked'' := [[]])\<rparr>"
  have look: "session_begin racing_worker (\<lambda>ev now. cancellation_requested 1) ?w = (Inr False, ?v)"
    by (simp add: session_begin_def racing_worker_def demo_worker_def run_txn_def cancellation_requested_def
        job_get_def txn_simps row_of_def demo3_def running_job_def queued_job_def demo_job_def new_job_def)
  have fields: "x_worker_id racing_worker = ''w1''" "x_random racing_worker w = Finite 0" "x_clock racing_worker w = 300" for w
    by (simp_all add: racing_worker_def demo_worker_def)
  have others: "w_store (x_others racing_worker ?v) = demo_cancelling"
    by (simp add: racing_worker_def demo_ends)
  have "handle_retryable mem_redis racing_worker eager_settings 1 5 1 3 ''BUSY'' ''try later'' ?w =
      session_begin racing_worker (\<lambda>ev now. exec_schedule_retry ev ''w1'' 1 5 ''BUSY'' ''try later'' 300 now) ?v"
    unfolding handle_retryable_def io_bind_apply look
    by (simp add: fields eager_backoff datetime_add_def datetime_min_def datetime_max_def del: timedelta_float.simps)
  moreover have "fst (session_begin racing_worker (\<lambda>ev now. exec_schedule_retry ev ''w1'' 1 5 ''BUSY'' ''try later'' 300 now) ?v) =
      Inr ()" by code_simp
  ultimately obtain w' where run: "handle_retryable mem_redis racing_worker eager_settings 1 5 1 3 ''BUSY'' ''try later'' ?w =
      (Inr (), w')" by (metis prod.collapse)
  have row: "cancelling_job \<in> set (jobs demo_cancelling)" "j_id cancelling_job = 1" "j_status cancelling_job = CANCELLING"
    by (simp_all add: demo_cancelling_def cancelling_job_def running_job_def queued_job_def demo_job_def new_job_def)
  have "cancelling_job \<in> set (jobs (w_store (scheduler_run 3 (\<lambda>w. w)
      (\<lambda>k. tick mem_redis eager_settings demo_delivery (\<lambda>_. demo_env) (\<lambda>_. 10 ^ 12) (\<lambda>_. 10 ^ 12)) w')))"
    by (rule cancel_before_retry_strands [OF look, unfolded others, OF demo_reachable(6) row _ run, THEN conjunct1]) simp
  with run show ?thesis by blast
qed

end
