(* ===== verification/Identity.thy ===== *)
theory Identity
  imports Demo
begin

text \<open>
  \<^verbatim>\<open>app/workers/identity.py\<close>, and what becomes of a worker whose identity is longer than
  the columns that hold it: \<^verbatim>\<open>jobs.locked_by\<close> and \<^verbatim>\<open>job_attempts.worker_id\<close> take
  64 characters, and a host name may have as many.
\<close>

definition generate_worker_id :: "string \<Rightarrow> int \<Rightarrow> uuid \<Rightarrow> string" where
  "generate_worker_id hostname pid uuid4 = hostname @ ''-'' @ int_str pid @ ''-'' @ take 8 (uuid_hex uuid4)"

lemma length_worker_id: "length (generate_worker_id host pid u) = length host + length (int_str pid) + 10"
  by (simp add: generate_worker_id_def length_uuid_hex)

lemma length_int_str: "1 \<le> length (int_str n)"
proof -
  have "nat_str m \<noteq> []" for m by (subst nat_str.simps) simp
  then show ?thesis by (cases "int_str n") (auto simp: int_str_def split: if_splits)
qed

lemma claim_needs_short_id:
  assumes "j \<in> set (jobs s)" and "claim_guard i j" and "64 < length w"
  shows "claim_for_execution i w lease now s \<noteq> Inr (r, t)"
proof
  assume "claim_for_execution i w lease now s = Inr (r, t)"
  with assms(1,2) have "job_row_check (claimed w lease now j) = None" unfolding claim_for_execution_Inr by blast
  with assms(3) show False
    by (simp add: job_row_check_def job_types_ok_def claimed_def varchar_ok_def split: if_splits)
qed

text \<open>
  C39. A worker on a host with a long name never runs a job: from 54 characters on, the identity is
  longer than the column, and the claim of any job that waits raises an error instead of taking it;
  the worker has read the id from the queue by then.
\<close>

theorem long_host_name_claims_nothing:
  assumes "54 \<le> length hostname" and "j \<in> set (jobs s)" and "j_status j \<in> set CLAIMABLE"
    and "j_cancellation_requested_at j = None"
  shows "\<exists>e. exec_claim ev cfg (generate_worker_id hostname pid uuid4) (j_id j) now s = Inl e"
proof -
  let ?w = "generate_worker_id hostname pid uuid4"
  have "64 < length ?w" using assms(1) length_int_str [of pid] by (simp add: length_worker_id)
  moreover have "claim_guard (j_id j) j" using assms(3,4) by (simp add: claim_guard_def)
  ultimately obtain e where claim: "claim_for_execution (j_id j) ?w (worker_lease_seconds cfg) now s = Inl e"
    using claim_needs_short_id [OF assms(2)] by (metis sumE surj_pair)
  obtain k where "row_of j_id (j_id j) (jobs s) = Some k"
    using assms(2) by (cases "row_of j_id (j_id j) (jobs s)") (auto simp: row_of_None_iff)
  then have "job_get (j_id j) s = Inr (Some k, s)" by (simp add: job_get_def txn_simps)
  then show ?thesis using claim by (simp add: exec_claim_def txn_bind_def)
qed

theorem long_host_name_claims_nothing_witness:
  "\<exists>e. exec_claim demo_env default_settings (generate_worker_id (replicate 60 CHR ''h'') 7 99) 1 300 demo2 = Inl e"
proof -
  have "queued_job \<in> set (jobs demo2)" "j_id queued_job = 1" "j_status queued_job \<in> set CLAIMABLE"
      "j_cancellation_requested_at queued_job = None"
    by (simp_all add: demo2_def queued_job_def demo_job_def new_job_def CLAIMABLE_def)
  then show ?thesis
    using long_host_name_claims_nothing [of "replicate 60 CHR ''h''" queued_job demo2 demo_env default_settings 7 99 300] by simp
qed

end
