(* ===== verification/Processes.thy ===== *)
theory Processes
  imports Identity WorkerContracts
begin

text \<open>
  How the processes are put together: \<^verbatim>\<open>create_queue\<close> of the queue module,
  \<^verbatim>\<open>build_scheduler\<close> and the class \<^verbatim>\<open>Scheduler\<close>, \<^verbatim>\<open>build_worker\<close> and the
  end of \<^verbatim>\<open>Worker.run\<close>. A service object is what it is called with: one function for each of
  its methods the process calls, with the session factory, the queue and the settings it was built
  with inside. The Redis client's constructor is a parameter.
\<close>

section \<open>The queue\<close>

record 'r queue_handle =
  q_client :: "'r redis"
  q_close :: "('r, exn, unit) io"
  q_namespace :: string

text \<open>\<open>connect\<close> is \<^verbatim>\<open>Redis.from_url\<close>: the client's commands and its \<^verbatim>\<open>aclose\<close>.\<close>

definition create_queue :: "(string \<Rightarrow> 'r redis \<times> ('r, exn, unit) io) \<Rightarrow> settings \<Rightarrow> 'r queue_handle" where
  "create_queue connect cfg = (case connect (redis_url cfg) of (client, aclose) \<Rightarrow>
     \<lparr>q_client = client, q_close = aclose, q_namespace = redis_queue_namespace cfg\<rparr>)"

section \<open>The scheduler\<close>

text \<open>What the services read besides the store. \<open>se_others\<close> is what the rest of the system does
  before a service's turn.\<close>

record 'r scheduler_env =
  se_others :: "'r world \<Rightarrow> 'r world"
  se_session :: "'r world \<Rightarrow> session_env"
  se_clock :: "'r world \<Rightarrow> datetime"
  se_row_clock :: "'r world \<Rightarrow> uuid \<Rightarrow> datetime"
  se_delivery :: "'r world \<Rightarrow> delivery_env"

record 'r scheduler =
  sch_dispatch_pending :: "nat \<Rightarrow> ('r world, exn, nat) io"
  sch_redeliver_stuck :: "nat \<Rightarrow> ('r world, exn, nat) io"
  sch_promote_due :: "nat \<Rightarrow> ('r world, exn, nat) io"
  sch_reap_expired :: "nat \<Rightarrow> ('r world, exn, nat) io"
  sch_expire_stale :: "nat \<Rightarrow> ('r world, exn, nat) io"
  sch_dispatch_due :: "nat \<Rightarrow> ('r world, exn, nat) io"
  sch_queue :: "'r queue_handle"
  sch_interval_seconds :: pyfloat
  sch_batch_size :: nat

text \<open>A service's turn: the others, then its transaction with the readings it takes.\<close>

definition turn ::
  "'r scheduler_env \<Rightarrow> (session_env \<Rightarrow> datetime \<Rightarrow> ('r world, exn, 'a) io) \<Rightarrow> ('r world, exn, 'a) io" where
  "turn e service = (\<lambda>w. let v = se_others e w in service (se_session e v) (se_clock e v) v)"

definition build_scheduler ::
  "(string \<Rightarrow> 'r redis \<times> ('r, exn, unit) io) \<Rightarrow> 'r scheduler_env \<Rightarrow> settings \<Rightarrow> 'r scheduler" where
  "build_scheduler connect e cfg = (let queue = create_queue connect cfg; rc = q_client queue in
     \<lparr>sch_dispatch_pending = (\<lambda>n. turn e (\<lambda>ev now. dispatch_pending rc cfg ev now n)),
      sch_redeliver_stuck = (\<lambda>n. turn e (\<lambda>ev now w. redeliver_stuck rc cfg ev now (se_row_clock e w) n w)),
      sch_promote_due = (\<lambda>n. turn e (\<lambda>ev now. promote_due rc cfg ev now n)),
      sch_reap_expired = (\<lambda>n. turn e (\<lambda>ev now. reap_expired rc cfg ev now n)),
      sch_expire_stale = (\<lambda>n. turn e (\<lambda>ev now. expire_stale cfg ev now n)),
      sch_dispatch_due = (\<lambda>n. turn e (\<lambda>ev now w. dispatch_due (se_delivery e w) cfg ev now n w)),
      sch_queue = queue,
      sch_interval_seconds = scheduler_interval_seconds cfg,
      sch_batch_size = scheduler_batch_size cfg\<rparr>)"

definition scheduler_tick :: "'r scheduler \<Rightarrow> ('r world, exn, unit) io" where
  "scheduler_tick self =
     io_bind (sch_dispatch_pending self (sch_batch_size self)) (\<lambda>_.
     io_bind (sch_promote_due self (sch_batch_size self)) (\<lambda>_.
     io_bind (sch_reap_expired self (sch_batch_size self)) (\<lambda>_.
     io_bind (sch_redeliver_stuck self (sch_batch_size self)) (\<lambda>_.
     io_bind (sch_expire_stale self (sch_batch_size self)) (\<lambda>_.
     io_bind (sch_dispatch_due self (sch_batch_size self)) (\<lambda>_.
     io_return ()))))))"

text \<open>\<^verbatim>\<open>Scheduler.run\<close>: \<open>n\<close> ticks before the stop event is set, the others acting during
  the waits; then the queue is closed.\<close>

definition scheduler_process ::
  "nat \<Rightarrow> ('r world \<Rightarrow> 'r world) \<Rightarrow> 'r scheduler \<Rightarrow> ('r world, exn, unit) io" where
  "scheduler_process n others self =
     (\<lambda>w. run_redis (q_close (sch_queue self)) (scheduler_run n others (\<lambda>_. scheduler_tick self) w))"

section \<open>The worker\<close>

text \<open>\<open>wk_execute\<close> is the execution service's \<^verbatim>\<open>execute\<close>; \<open>wk_sleep\<close> is
  \<^verbatim>\<open>asyncio.sleep\<close>.\<close>

record 'r worker =
  wk_queue :: "'r queue_handle"
  wk_execute :: "uuid \<Rightarrow> ('r world, exn, bool) io"
  wk_sleep :: "pyfloat \<Rightarrow> ('r world, exn, unit) io"
  wk_poll_timeout_seconds :: int
  wk_error_backoff_seconds :: pyfloat
  wk_concurrency :: int
  wk_worker_id :: string

definition worker_process_job :: "'r worker \<Rightarrow> string \<Rightarrow> ('r world, exn, unit) io" where
  "worker_process_job self job_id = (\<lambda>w. case uuid_parse job_id of Inl _ \<Rightarrow> (Inr (), w)
     | Inr i \<Rightarrow> (case wk_execute self i w of
         (Inl CancelledError, v) \<Rightarrow> (Inl CancelledError, v)
       | (_, v) \<Rightarrow> (Inr (), v)))"

primrec worker_consume_loop :: "nat \<Rightarrow> 'r worker \<Rightarrow> ('r world, exn, unit) io" where
  "worker_consume_loop 0 self = io_return ()"
| "worker_consume_loop (Suc n) self = (\<lambda>w.
     case run_redis (consume (q_client (wk_queue self)) (q_namespace (wk_queue self)) (wk_poll_timeout_seconds self)) w of
       (Inl (RedisError _), v) \<Rightarrow>
         io_bind (wk_sleep self (wk_error_backoff_seconds self)) (\<lambda>_. worker_consume_loop n self) v
     | (Inl e, v) \<Rightarrow> (Inl e, v)
     | (Inr None, v) \<Rightarrow> worker_consume_loop n self v
     | (Inr (Some job_id), v) \<Rightarrow> io_bind (worker_process_job self job_id) (\<lambda>_. worker_consume_loop n self) v)"

text \<open>\<^verbatim>\<open>Worker.run\<close>: the consumers, the \<open>k\<close>th with \<open>counts k\<close> iterations before it is
  cancelled; what they raise is gathered and dropped; then the queue is closed.\<close>

definition worker_process :: "(nat \<Rightarrow> nat) \<Rightarrow> 'r worker \<Rightarrow> ('r world, exn, unit) io" where
  "worker_process counts self = (\<lambda>w. run_redis (q_close (wk_queue self))
     (fold (\<lambda>k w. snd (worker_consume_loop (counts k) self w)) [0..<nat (wk_concurrency self)] w))"

text \<open>\<open>x\<close> is what the execution service reads besides the store; its worker id is the generated
  one.\<close>

definition build_worker ::
  "(string \<Rightarrow> 'r redis \<times> ('r, exn, unit) io) \<Rightarrow> 'r execution_env \<Rightarrow> string \<Rightarrow> int \<Rightarrow> uuid \<Rightarrow> settings \<Rightarrow>
   'r worker" where
  "build_worker connect x hostname pid uuid4 cfg =
     (let queue = create_queue connect cfg; worker_id = generate_worker_id hostname pid uuid4;
          service = x\<lparr>x_worker_id := worker_id\<rparr>
      in \<lparr>wk_queue = queue, wk_execute = execute (q_client queue) service cfg, wk_sleep = exec_sleep service,
          wk_poll_timeout_seconds = worker_poll_timeout_seconds cfg,
          wk_error_backoff_seconds = worker_error_backoff_seconds cfg,
          wk_concurrency = worker_concurrency cfg, wk_worker_id = worker_id\<rparr>)"

section \<open>The processes are those of the other theories\<close>

lemma store_run_redis: "w_store (snd (run_redis m w)) = w_store w"
  by (simp add: run_redis_def split: prod.split)

text \<open>Where nobody else acts, a tick of the scheduler that was built is a tick.\<close>

lemma built_tick:
  assumes "se_others e = (\<lambda>w. w)" and "se_session e = (\<lambda>_. ev)" and "se_clock e = (\<lambda>_. now)"
    and "se_row_clock e = (\<lambda>_. now_at)" and "se_delivery e = (\<lambda>_. de)"
  shows "scheduler_tick (build_scheduler connect e cfg) =
    tick (fst (connect (redis_url cfg))) cfg de (\<lambda>_. ev) (\<lambda>_. now) now_at"
  by (simp add: scheduler_tick_def build_scheduler_def tick_def turn_def assms Let_def create_queue_def
      split: prod.split)

text \<open>The worker that was built is a worker of the other theories, under its generated id.\<close>

lemma built_worker:
  fixes connect x hostname pid uuid4 cfg
  defines "self \<equiv> build_worker connect x hostname pid uuid4 cfg"
    and "rc \<equiv> fst (connect (redis_url cfg))" and "y \<equiv> x\<lparr>x_worker_id := generate_worker_id hostname pid uuid4\<rparr>"
  shows "worker_process_job self = process rc y cfg" (is ?job)
    and "worker_consume_loop n self = consume_loop n rc y cfg" (is ?loop)
    and "worker_process counts self w = run_redis (q_close (wk_queue self)) (worker_run counts rc y cfg w)" (is ?run)
proof -
  have fields: "q_client (wk_queue self) = rc" "q_namespace (wk_queue self) = redis_queue_namespace cfg"
      "wk_execute self = execute rc y cfg" "wk_sleep self = exec_sleep y"
      "wk_poll_timeout_seconds self = worker_poll_timeout_seconds cfg"
      "wk_error_backoff_seconds self = worker_error_backoff_seconds cfg" "wk_concurrency self = worker_concurrency cfg"
    by (simp_all add: self_def rc_def y_def build_worker_def create_queue_def Let_def split: prod.split)
  show job: ?job by (intro ext) (simp only: worker_process_job_def process_def fields)
  show loop: "worker_consume_loop n self = consume_loop n rc y cfg" for n
  proof (induction n)
    case 0
    show ?case by (rule ext) (simp add: io_apply)
  next
    case (Suc n)
    show ?case by (rule ext) (simp only: worker_consume_loop.simps consume_loop.simps fields job Suc)
  qed
  show ?run by (simp add: worker_process_def worker_run_def fields loop)
qed

context shared_store
begin

lemma steps_turn:
  assumes "se_others e = others" and "\<And>ev now. takes_steps (m ev now :: ('r world, exn, 'a) io)"
  shows "takes_steps (turn e m)"
  unfolding takes_steps_def
proof
  fix w
  let ?v = "others w"
  have "db_step\<^sup>*\<^sup>* (w_store ?v) (w_store (snd (m (se_session e ?v) (se_clock e ?v) ?v)))"
    using assms(2) by (simp add: takes_steps_def)
  with others_step [of w] show "db_step\<^sup>*\<^sup>* (w_store w) (w_store (snd (turn e m w)))"
    by (simp add: turn_def assms(1) Let_def)
qed

lemma steps_built_tick:
  assumes "se_others e = others"
  shows "takes_steps (scheduler_tick (build_scheduler connect e cfg))"
proof -
  have redeliver: "takes_steps (\<lambda>w. redeliver_stuck rc cfg ev now (f w) n w)" for rc :: "'r redis" and f ev now n
    unfolding takes_steps_def using steps_services(2) [unfolded takes_steps_def, THEN spec] by blast
  have deliver: "takes_steps (\<lambda>w :: 'r world. dispatch_due (f w) cfg ev now n w)" for f ev now n
    unfolding takes_steps_def using steps_services(6) [unfolded takes_steps_def, THEN spec] by blast
  show ?thesis unfolding scheduler_tick_def build_scheduler_def Let_def
    by (simp, intro steps_bind steps_pure(1); rule steps_turn [OF assms]; rule steps_services redeliver deliver)
qed

end

text \<open>
  C21. Whatever is put together from the program's parts keeps to the program's transactions. A
  worker and a scheduler, built as the program builds them and run beside anything that takes only
  such transactions, leave a reachable store: whatever their jobs are and their handlers raise,
  wherever Redis, a transaction or the HTTP client fails, and at whatever await a shutdown cancels
  a consumer.
\<close>

theorem processes_reachable:
  assumes "\<And>w. db_step\<^sup>*\<^sup>* (w_store w) (w_store (x_others x w))"
    and "\<And>w. db_step\<^sup>*\<^sup>* (w_store w) (w_store (se_others e w))"
    and "reachable (w_store w)"
  shows "reachable (w_store (snd (worker_process counts (build_worker connect x hostname pid uuid4 cfg) w))) \<and>
    reachable (w_store (snd (scheduler_process n (se_others e) (build_scheduler connect e cfg) w)))"
proof
  have wk: "shared_store (x_others x)" and se: "shared_store (se_others e)" using assms(1,2) by unfold_locales
  show "reachable (w_store (snd (worker_process counts (build_worker connect x hostname pid uuid4 cfg) w)))"
    unfolding built_worker(3) store_run_redis
    by (rule reachable_steps [OF assms(3)], rule shared_store.worker_run_steps [OF wk]) simp
  show "reachable (w_store (snd (scheduler_process n (se_others e) (build_scheduler connect e cfg) w)))"
    unfolding scheduler_process_def store_run_redis
    by (rule reachable_steps [OF assms(3)], rule shared_store.scheduler_run_takes_steps [OF se],
        rule shared_store.steps_built_tick [OF se refl])
qed

definition mem_connect :: "string \<Rightarrow> (string \<Rightarrow> string list) redis \<times> ((string \<Rightarrow> string list), exn, unit) io" where
  "mem_connect url = (mem_redis, io_return ())"

definition demo_scheduler_env :: "(string \<Rightarrow> string list) scheduler_env" where
  "demo_scheduler_env = \<lparr>se_others = \<lambda>w. w, se_session = \<lambda>_. demo_env, se_clock = \<lambda>_. 200,
     se_row_clock = \<lambda>_ _. 200, se_delivery = \<lambda>_. demo_delivery\<rparr>"

theorem processes_reachable_witness:
  "reachable (w_store (snd (worker_process Suc (build_worker mem_connect demo_worker ''host'' 7 99 default_settings)
       \<lparr>w_store = demo2, w_redis = (\<lambda>_. [])(queue_key ''job_orchestrator'' NORMAL := [uuid_str 1])\<rparr>))) \<and>
   reachable (w_store (snd (scheduler_process 2 (se_others demo_scheduler_env)
       (build_scheduler mem_connect demo_scheduler_env default_settings)
       \<lparr>w_store = demo2, w_redis = (\<lambda>_. [])(queue_key ''job_orchestrator'' NORMAL := [uuid_str 1])\<rparr>)))"
  by (rule processes_reachable) (simp_all add: demo_worker_def demo_scheduler_env_def demo_reachable(2))

end
