(* ===== verification/Application.thy ===== *)
theory Application
  imports Api Processes
begin

text \<open>
  \<^verbatim>\<open>app/main.py\<close> around the routes: the lifespan of the application, the origins its CORS
  middleware admits, and the middleware that gives every request an id. The framework's own part
  (routing, the CORS headers, the answer to an exception nobody handles) is not in the repository.
\<close>

section \<open>Lifespan\<close>

text \<open>\<open>serve\<close> is what the application does with its queue until it is shut down;
  \<open>dispose\<close> is \<^verbatim>\<open>engine.dispose\<close>.\<close>

definition lifespan ::
  "(string \<Rightarrow> 'r redis \<times> ('r, exn, unit) io) \<Rightarrow> ('r world, exn, unit) io \<Rightarrow> settings \<Rightarrow>
   ('r queue_handle \<Rightarrow> 'r world \<Rightarrow> 'r world) \<Rightarrow> ('r world, exn, unit) io" where
  "lifespan connect dispose cfg serve = (let queue = create_queue connect cfg in
     (\<lambda>w. io_bind (run_redis (q_close queue)) (\<lambda>_. dispose) (serve queue w)))"

section \<open>Origins\<close>

text \<open>\<^verbatim>\<open>x.split(c)\<close>\<close>

fun split_at :: "char \<Rightarrow> string \<Rightarrow> string list" where
  "split_at c [] = [[]]"
| "split_at c (x # xs) = (if x = c then [] # split_at c xs
     else case split_at c xs of [] \<Rightarrow> [[x]] | part # parts \<Rightarrow> (x # part) # parts)"

definition allow_origins :: "settings \<Rightarrow> string list" where
  "allow_origins cfg = map py_strip (split_at (CHR '','') (frontend_origin cfg))"

lemma split_at_nonempty: "split_at c xs \<noteq> []"
  by (cases xs) (auto split: list.split)

text \<open>The parts are those between the separators, and none contains one.\<close>

lemma split_at_parts: "part \<in> set (split_at c xs) \<Longrightarrow> c \<notin> set part"
proof (induction xs arbitrary: part)
  case (Cons x xs)
  obtain p ps where "split_at c xs = p # ps" using split_at_nonempty [of c xs] by (cases "split_at c xs") simp_all
  with Cons show ?case by (auto split: if_splits)
qed simp

lemma split_at_join: "concat (map (\<lambda>part. part @ [c]) (split_at c xs)) = xs @ [c]"
proof (induction xs)
  case (Cons x xs)
  obtain p ps where "split_at c xs = p # ps" using split_at_nonempty [of c xs] by (cases "split_at c xs") simp_all
  with Cons show ?case by auto
qed simp

lemma py_strip_id:
  assumes "\<not> is_space (hd x)" and "\<not> is_space (last x)"
  shows "py_strip x = x"
proof -
  have drop_none: "dropWhile p y = y" if "\<not> p (hd y)" for p and y :: string
    using that by (cases y) simp_all
  have "dropWhile is_space (rev x) = rev x" using assms(2) by (intro drop_none) (simp add: hd_rev)
  then show ?thesis using drop_none [of is_space x] assms(1) by (simp add: py_strip_def)
qed

lemma allow_origins_default: "allow_origins default_settings = [''http://localhost:5173'']"
proof -
  have "frontend_origin default_settings = ''http://localhost:5173''" by (simp add: default_settings_def)
  moreover have "split_at (CHR '','') ''http://localhost:5173'' = [''http://localhost:5173'']" by simp
  moreover have "py_strip ''http://localhost:5173'' = ''http://localhost:5173''"
    by (rule py_strip_id) (simp_all add: is_space_def)
  ultimately show ?thesis by (simp add: allow_origins_def)
qed

section \<open>The request's context\<close>

text \<open>The context variables of structlog, and a response with its headers, whose names are compared in
  lower case.\<close>

type_synonym contextvars = "string \<rightharpoonup> string"

record 'a http_response =
  hr_response :: "'a response"
  hr_headers :: "string \<rightharpoonup> string"

definition bind_request_context ::
  "uuid \<Rightarrow> (contextvars \<times> 's, exn, 'a http_response) io \<Rightarrow> (contextvars \<times> 's, exn, 'a http_response) io" where
  "bind_request_context uuid4 call_next = (\<lambda>(vars, s). let request_id = uuid_str uuid4 in
     case call_next (vars(''correlation_id'' \<mapsto> request_id), s) of
       (Inl e, (_, t)) \<Rightarrow> (Inl e, (Map.empty, t))
     | (Inr response, (_, t)) \<Rightarrow>
         (Inr (response\<lparr>hr_headers := (hr_headers response)(''x-request-id'' \<mapsto> request_id)\<rparr>), (Map.empty, t)))"

text \<open>The handler behind it runs with the id bound, on the same state; no request leaves a variable
  behind for the next one on its task, and the id it was logged under is the one the client is told.\<close>

lemma request_context_cleared: "fst (snd (bind_request_context u m w)) = Map.empty"
  by (cases w) (auto simp: bind_request_context_def Let_def split: prod.split sum.split)

lemma request_id_told:
  assumes "bind_request_context u (\<lambda>(vars, s). route (vars ''correlation_id'') (vars, s)) (vars, s) = (Inr r, vars', t)"
  shows "hr_headers r ''x-request-id'' = Some (uuid_str u) \<and>
    (\<exists>r' vars1. route (hr_headers r ''x-request-id'') (vars(''correlation_id'' \<mapsto> uuid_str u), s) = (Inr r', vars1, t) \<and>
      hr_response r' = hr_response r)"
  using assms by (auto simp: bind_request_context_def Let_def split: prod.splits sum.splits)

text \<open>An exception that nobody handles passes through it: the answer the framework makes of it has no id.\<close>

lemma unhandled_has_no_id:
  "m (vars(''correlation_id'' \<mapsto> uuid_str u), s) = (Inl e, vars', t) \<Longrightarrow>
   bind_request_context u m (vars, s) = (Inl e, Map.empty, t)"
  by (simp add: bind_request_context_def Let_def)

end
