(* ===== verification/Scripts.thy ===== *)
theory Scripts
  imports ApiContracts CatalogFacts
begin

text \<open>
  \<^verbatim>\<open>backend/scripts/submit_jobs.py\<close> and \<^verbatim>\<open>seed.py\<close>: the demo jobs, and the client
  that posts them round by round. The HTTP client is a parameter, a function from a request body to
  a response over a state of any type, for a base URL and a user; \<open>api_post\<close> is the client that talks to the API's own
  route. The bodies are written as the API parses them.
\<close>

definition demo_jobs :: "job_submit list" where
  "demo_jobs =
    [\<lparr>sub_type = SLEEP, sub_payload = [(''duration_seconds'', JInt 8), (''steps'', JInt 8)],
      sub_priority = NORMAL, sub_max_attempts = None\<rparr>,
     \<lparr>sub_type = SLEEP, sub_payload = [(''duration_seconds'', JInt 5), (''steps'', JInt 5)],
      sub_priority = HIGH, sub_max_attempts = None\<rparr>,
     \<lparr>sub_type = REPORT, sub_payload = [(''pages'', JInt 4)], sub_priority = NORMAL, sub_max_attempts = None\<rparr>,
     \<lparr>sub_type = FLAKY, sub_payload = [(''fail_times'', JInt 2)], sub_priority = NORMAL, sub_max_attempts = None\<rparr>,
     \<lparr>sub_type = LLM_SUMMARY, sub_payload = [(''prompt'', JStr ''Summarize the quarterly earnings report''),
        (''tokens'', JInt 180)], sub_priority = HIGH, sub_max_attempts = None\<rparr>,
     \<lparr>sub_type = LLM_SUMMARY, sub_payload = [(''prompt'', JStr ''Draft the release notes''), (''tokens'', JInt 120),
        (''simulate_rate_limit'', JBool True)], sub_priority = NORMAL, sub_max_attempts = None\<rparr>,
     \<lparr>sub_type = ALWAYS_FAIL, sub_payload = [], sub_priority = LOW, sub_max_attempts = None\<rparr>]"

text \<open>One iteration of the inner loop; \<^verbatim>\<open>raise_for_status\<close> lets 2xx pass only.\<close>

definition submit_one ::
  "(job_submit \<Rightarrow> ('s, exn, 'a response) io) \<Rightarrow> job_submit \<Rightarrow> int \<Rightarrow> ('s, exn, int) io" where
  "submit_one post job submitted = io_bind (post job) (\<lambda>response.
     if 200 \<le> status_code response \<and> status_code response < 300 then io_return (submitted + 1)
     else io_raise (HTTPError (int_str (status_code response))))"

primrec submit_round ::
  "(job_submit \<Rightarrow> ('s, exn, 'a response) io) \<Rightarrow> job_submit list \<Rightarrow> int \<Rightarrow> ('s, exn, int) io" where
  "submit_round post [] submitted = io_return submitted"
| "submit_round post (job # rest) submitted =
     io_bind (submit_one post job submitted) (submit_round post rest)"

primrec submit_rounds :: "(job_submit \<Rightarrow> ('s, exn, 'a response) io) \<Rightarrow> nat \<Rightarrow> int \<Rightarrow> ('s, exn, int) io" where
  "submit_rounds post 0 submitted = io_return submitted"
| "submit_rounds post (Suc n) submitted =
     io_bind (submit_round post demo_jobs submitted) (submit_rounds post n)"

definition submit_demo_jobs :: "(job_submit \<Rightarrow> ('s, exn, 'a response) io) \<Rightarrow> int \<Rightarrow> ('s, exn, int) io" where
  "submit_demo_jobs post rounds = submit_rounds post (nat rounds) 0"

text \<open>The two scripts: \<open>client\<close> is the HTTP client for a base URL and a user, whose id it sends in
  a header.\<close>

definition submit_main ::
  "(string \<Rightarrow> string \<Rightarrow> job_submit \<Rightarrow> ('s, exn, 'a response) io) \<Rightarrow> settings \<Rightarrow> ('s, exn, int) io" where
  "submit_main client cfg =
     submit_demo_jobs (client (demo_target_url cfg) (demo_user_id cfg)) (demo_rounds cfg)"

definition seed ::
  "(string \<Rightarrow> string \<Rightarrow> job_submit \<Rightarrow> ('s, exn, 'a response) io) \<Rightarrow> settings \<Rightarrow> ('s, exn, int) io" where
  "seed client cfg = submit_demo_jobs (client (demo_target_url cfg) (demo_user_id cfg)) 1"

section \<open>Against the API\<close>

text \<open>The session and the clock are read anew for each request; nothing else commits.\<close>

definition api_post ::
  "(store \<Rightarrow> session_env) \<Rightarrow> settings \<Rightarrow> string \<Rightarrow> (store \<Rightarrow> datetime) \<Rightarrow> job_submit \<Rightarrow>
   (store, exn, job_accepted response) io" where
  "api_post evs cfg user clock body s =
     (case submit_job (evs s) cfg (\<lambda>s. s) (\<lambda>s. s) body (Some user) None (clock s) s of
        (response, t) \<Rightarrow> (Inr response, t))"

text \<open>An integer below two to the power 53 is a float as it is, which is how the model computes it.\<close>

lemma float_of_int_exact:
  assumes "\<bar>n\<bar> < 2 ^ 53"
  shows "float_of_int n = Inr (Finite (of_int n))"
proof -
  have "\<bar>of_int n :: rat\<bar> < 2 ^ 1024"
  proof -
    have "\<bar>n\<bar> < 2 ^ 1024" using assms by (rule order.strict_trans) (rule power_strict_increasing; simp)
    then have "of_int \<bar>n\<bar> < (of_int (2 ^ 1024) :: rat)" by (simp only: of_int_less_iff)
    then show ?thesis by simp
  qed
  then show ?thesis using fl_int [OF assms] by (simp add: float_of_int_def round_double_def Let_def)
qed

lemma float_of_int_code [code]:
  "float_of_int n = (if \<bar>n\<bar> < 2 ^ 53 then Inr (Finite (of_int n)) else
     (case round_double (of_int n) of Finite x \<Rightarrow> Inr (Finite x) | _ \<Rightarrow> Inl OverflowError))"
  using float_of_int_exact [of n] by (simp add: float_of_int_def)

text \<open>A text grows at most six times in JSON, where its quotes come to it.\<close>

lemma length_json_str: "length (json_str x) \<le> 6 * length x + 2"
proof -
  have "length (json_char c) \<le> 6" for c by (simp add: json_char_def hex2_def)
  then have "length (concat (map json_char x)) \<le> 6 * length x"
    by (induction x) (simp_all add: add_mono)
  then show ?thesis by (simp add: json_str_def)
qed

lemma length_nat_str_small: "n < 1000 \<Longrightarrow> length (nat_str n) \<le> 3"
  by (subst nat_str.simps, subst nat_str.simps, subst nat_str.simps) auto

lemma demo_jobs_small: "\<forall>body \<in> set demo_jobs. length (json_dumps (JObj (sub_payload body))) \<le> 2000"
  using length_json_str [of "''duration_seconds''"] length_json_str [of "''steps''"] length_json_str [of "''pages''"]
    length_json_str [of "''fail_times''"] length_json_str [of "''prompt''"] length_json_str [of "''tokens''"]
    length_json_str [of "''simulate_rate_limit''"] length_json_str [of "''Draft the release notes''"]
    length_json_str [of "''Summarize the quarterly earnings report''"]
    length_nat_str_small [of 8] length_nat_str_small [of 5] length_nat_str_small [of 4] length_nat_str_small [of 2]
    length_nat_str_small [of 180] length_nat_str_small [of 120]
  by (simp add: demo_jobs_def int_str_def)

lemma demo_jobs_normalized:
  "\<forall>body \<in> set demo_jobs. \<exists>d. normalize_payload (sub_type body) (sub_payload body) default_settings = Inr d"
proof -
  have sleep: "\<exists>d. normalize_sleep [(''duration_seconds'', JInt a), (''steps'', JInt a)] default_settings = Inr d"
    if a: "1 \<le> a" "a < float_limit" for a
  proof -
    obtain x where "float_of_int a = Inr (Finite x)" "1 \<le> x" using float_of_int_limit(2) [OF a] by blast
    then show ?thesis using a(1) by (simp add: normalize_sleep_def coerce_int_def coerce_float_def Let_def)
  qed
  have "8 < float_limit" "5 < float_limit" by (simp_all add: float_limit_def)
  then show ?thesis using sleep [of 8] sleep [of 5]
    by (simp add: demo_jobs_def normalize_report_def normalize_flaky_def normalize_llm_summary_def
        normalize_always_fail_def coerce_int_def Let_def)
qed

lemma demo_jobs_prepared:
  assumes "body \<in> set demo_jobs"
  shows "\<exists>p. submit_prepare default_settings \<lparr>rq_user_id = u, rq_job_type = sub_type body,
     rq_payload = sub_payload body, rq_priority = sub_priority body, rq_max_attempts = sub_max_attempts body,
     rq_idempotency_key = None\<rparr> = Inr p"
proof -
  have "int (length (json_dumps (JObj (sub_payload body)))) \<le> job_max_payload_bytes default_settings"
    using demo_jobs_small assms by (fastforce simp: default_settings_def)
  moreover obtain d where "normalize_payload (sub_type body) (sub_payload body) default_settings = Inr d"
    using demo_jobs_normalized assms by blast
  ultimately show ?thesis by (simp add: submit_prepare_def)
qed

text \<open>An accepted request adds one row.\<close>

lemma submit_create_appends:
  assumes "submit_create ev cfg u ty pl pr mx k now s = Inr (job, t)"
  shows "jobs t = jobs s @ [job] \<and> j_user_id job = u \<and> j_type job = ty \<and> j_priority job = pr"
  using assms
proof (cases rule: submit_create_cases)
  case (1 s1 s2)
  have "jobs t = jobs s2" using 1(6) by (auto simp: dispatch_add_def txn_simps)
  moreover have "jobs s2 = jobs s @ [job]" using 1(4,5) by (simp add: quiet_def)
  moreover obtain i where "job = new_job i u ty pl pr mx k now" using 1(1) by blast
  ultimately show ?thesis by (simp add: new_job_def)
qed

lemma api_post_accepts:
  assumes "api_post evs cfg user clock body s = (Inr r, t)" and "200 \<le> status_code r" and "status_code r < 300"
  shows "\<exists>j. jobs t = jobs s @ [j] \<and> j_user_id j = current_user_id (Some user) \<and> j_type j = sub_type body \<and>
    j_priority j = sub_priority body"
proof -
  let ?rq = "\<lparr>rq_user_id = current_user_id (Some user), rq_job_type = sub_type body, rq_payload = sub_payload body,
    rq_priority = sub_priority body, rq_max_attempts = sub_max_attempts body, rq_idempotency_key = None\<rparr>"
  obtain x u where run: "submit (evs s) cfg (\<lambda>s. s) (\<lambda>s. s) ?rq (clock s) s = (x, u)" by fastforce
  have refused: "300 \<le> status_code (submit_errors e :: job_accepted response)" for e
    by (simp add: submit_errors_def http_exception_handler_def unhandled_def split: exn.split)
  from assms run refused obtain j where x: "x = Inr j" "u = t"
    by (auto simp: api_post_def submit_job_def validation_exception_handler_def not_less [symmetric]
        split: if_splits sum.splits)
  from run x show ?thesis
    by (cases rule: submit_cases) (auto dest!: submit_create_appends)
qed

text \<open>What a round leaves: its jobs, in the order they were posted.\<close>

definition kinds :: "job list \<Rightarrow> (JobType \<times> JobPriority) list" where
  "kinds = map (\<lambda>j. (j_type j, j_priority j))"

definition bodies :: "job_submit list \<Rightarrow> (JobType \<times> JobPriority) list" where
  "bodies = map (\<lambda>b. (sub_type b, sub_priority b))"

lemma submit_one_appends:
  assumes "submit_one (api_post evs cfg user clock) b n s = (Inr m, t)"
  shows "m = n + 1 \<and> (\<exists>j. jobs t = jobs s @ [j] \<and> j_user_id j = current_user_id (Some user) \<and>
    kinds [j] = bodies [b])"
proof -
  obtain r u where post: "api_post evs cfg user clock b s = (Inr r, u)" by (cases "submit_job (evs s) cfg (\<lambda>s. s) (\<lambda>s. s) b (Some user) None (clock s) s") (auto simp: api_post_def)
  with assms api_post_accepts [OF post] show ?thesis
    by (auto simp: submit_one_def txn_simps kinds_def bodies_def split: if_splits)
qed

lemma submit_round_appends:
  "submit_round (api_post evs cfg user clock) bs n s = (Inr m, t) \<Longrightarrow>
   m = n + int (length bs) \<and> (\<exists>js. jobs t = jobs s @ js \<and> kinds js = bodies bs \<and>
     (\<forall>j \<in> set js. j_user_id j = current_user_id (Some user)))"
proof (induction bs arbitrary: n s)
  case Nil
  then show ?case by (simp add: txn_simps kinds_def bodies_def)
next
  case (Cons b bs)
  then obtain k u where one: "submit_one (api_post evs cfg user clock) b n s = (Inr k, u)"
    and rest: "submit_round (api_post evs cfg user clock) bs k u = (Inr m, t)"
    by (auto simp: txn_simps split: prod.splits sum.splits)
  from submit_one_appends [OF one] obtain j where k: "k = n + 1"
    and j: "jobs u = jobs s @ [j]" "j_user_id j = current_user_id (Some user)" "kinds [j] = bodies [b]" by blast
  from Cons.IH [OF rest] obtain js where m: "m = k + int (length bs)" and js: "jobs t = jobs u @ js"
    "kinds js = bodies bs" "\<forall>j \<in> set js. j_user_id j = current_user_id (Some user)" by blast
  have "jobs t = jobs s @ j # js" "kinds (j # js) = bodies (b # bs)"
    using j js by (simp_all add: kinds_def bodies_def)
  with m k j(2) js(3) show ?case by (intro conjI exI [of _ "j # js"]) auto
qed

lemma submit_rounds_appends:
  "submit_rounds (api_post evs cfg user clock) r n s = (Inr m, t) \<Longrightarrow>
   m = n + 7 * int r \<and> (\<exists>js. jobs t = jobs s @ js \<and> kinds js = concat (replicate r (bodies demo_jobs)) \<and>
     (\<forall>j \<in> set js. j_user_id j = current_user_id (Some user)))"
proof (induction r arbitrary: n s)
  case 0
  then show ?case by (simp add: txn_simps kinds_def)
next
  case (Suc r)
  then obtain k u where one: "submit_round (api_post evs cfg user clock) demo_jobs n s = (Inr k, u)"
    and rest: "submit_rounds (api_post evs cfg user clock) r k u = (Inr m, t)"
    by (auto simp: txn_simps split: prod.splits sum.splits)
  have seven: "length demo_jobs = 7" by (simp add: demo_jobs_def)
  from submit_round_appends [OF one] obtain js where js: "jobs u = jobs s @ js" "kinds js = bodies demo_jobs"
    "\<forall>j \<in> set js. j_user_id j = current_user_id (Some user)" and k: "k = n + 7" unfolding seven by auto
  from Suc.IH [OF rest] obtain ks where ks: "jobs t = jobs u @ ks" "kinds ks = concat (replicate r (bodies demo_jobs))"
    "\<forall>j \<in> set ks. j_user_id j = current_user_id (Some user)" and m: "m = k + 7 * int r" by blast
  have "kinds (js @ ks) = concat (replicate (Suc r) (bodies demo_jobs))"
    using js(2) ks(2) by (simp add: kinds_def)
  with k m js ks show ?case by (intro conjI exI [of _ "js @ ks"]) auto
qed

text \<open>
  C40. The demo script does what its log says: when it returns, it has returned the number of its
  requests, seven for each round, and the store has exactly that many new rows, of the demo user,
  with the types and priorities of the script in its order; and no demo job is refused as invalid
  under the default settings.
\<close>

theorem demo_script:
  assumes "submit_demo_jobs (api_post evs cfg user clock) rounds s = (Inr n, t)"
  shows "n = 7 * int (nat rounds) \<and>
    (\<exists>js. jobs t = jobs s @ js \<and> length js = nat n \<and>
      kinds js = concat (replicate (nat rounds) (bodies demo_jobs)) \<and>
      (\<forall>j \<in> set js. j_user_id j = current_user_id (Some user))) \<and>
    (\<forall>body \<in> set demo_jobs. \<exists>p. submit_prepare default_settings \<lparr>rq_user_id = u, rq_job_type = sub_type body,
      rq_payload = sub_payload body, rq_priority = sub_priority body, rq_max_attempts = sub_max_attempts body,
      rq_idempotency_key = None\<rparr> = Inr p)"
proof -
  from submit_rounds_appends [OF assms [unfolded submit_demo_jobs_def]] obtain js where n: "n = 7 * int (nat rounds)"
    and js: "jobs t = jobs s @ js" "kinds js = concat (replicate (nat rounds) (bodies demo_jobs))"
      "\<forall>j \<in> set js. j_user_id j = current_user_id (Some user)" by auto
  have "length js = length (kinds js)" by (simp add: kinds_def)
  also have "\<dots> = 7 * nat rounds" by (simp add: js(2) length_concat sum_list_replicate bodies_def demo_jobs_def)
  finally have "length js = nat n" by (simp add: n nat_mult_distrib)
  then show ?thesis using n js demo_jobs_prepared by blast
qed

text \<open>Fresh identifiers for each request, from an empty store.\<close>

theorem demo_script_witness:
  "\<exists>t js. seed (\<lambda>url user. api_post (\<lambda>_. demo_env) default_settings user (\<lambda>_. 100)) default_settings empty_store =
       (Inr 7, t) \<and> jobs t = js \<and> length js = 7 \<and> kinds js = bodies demo_jobs"
proof -
  let ?run = "submit_demo_jobs (api_post (\<lambda>_. demo_env) default_settings ''demo-user'' (\<lambda>_. 100)) 1 empty_store"
  have user: "demo_user_id default_settings = ''demo-user''" by (simp add: default_settings_def)
  have "(case ?run of (Inr n, _) \<Rightarrow> n = 7 | _ \<Rightarrow> False)" by code_simp
  then obtain t where run: "?run = (Inr 7, t)" by (cases ?run) (auto split: sum.splits)
  from demo_script [OF run] run show ?thesis by (auto simp: seed_def user empty_store_def)
qed

end
