(* ===== verification/Spec2Isabelle.thy ===== *)
theory Spec2Isabelle
  imports PyFloatFacts CatalogFacts BackoffFacts CodecFacts CalendarFacts PaginationFacts ApiContracts QueueContract DeliveryContract Hazards Schema ExecutionContract Application Scripts
begin

text \<open>
  A verification development of the job orchestrator: the Python program under
  \<^verbatim>\<open>src/backend/app\<close> and its demo scripts under \<^verbatim>\<open>src/backend/scripts\<close>.

  \<^bold>\<open>The program.\<close> API processes accept, list and cancel jobs. They keep everything in a
  PostgreSQL database of five tables; accepting a job writes the job, an event and a row of the
  dispatch outbox in one transaction. A scheduler runs six services in turn: it moves outbox rows
  into Redis queues, promotes due retries, reaps expired leases, redelivers stuck jobs, expires old
  ones and delivers notifications. Workers take job ids from the queues, claim the job by a guarded
  UPDATE, run its handler while a heartbeat renews the lease, and write the outcome with a
  notification in the transaction that ends the job. Redis only carries ids; the database decides.

  \<^bold>\<open>How state is modelled.\<close> A row is a record with the columns of
  \<^verbatim>\<open>db/models.py\<close>, a table a list of rows, the \<open>store\<close> the five tables with a count
  of the identifiers handed out. A transaction is a function from a store to an exception or a result
  with a new store, so an exception rolls back (\<open>Prelude\<close>). A process acts on a \<open>world\<close>, the
  store and the server of Redis, through functions that return an exception or a result together
  with the world, since what was committed or pushed before an exception stays. A loop over the rows
  of a scan is \<^const>\<open>txn_fold\<close> over a definition for its body. A clock reading, a random
  reading and the surroundings of a session (server time, identifiers, locked rows) are arguments.
  Delivering notifications has an effect that no rollback undoes: its transaction also carries the list
  of the HTTP requests it has posted (\<^const>\<open>deliver_run\<close>), and the batch as a transaction is what
  is left without that list (\<^const>\<open>deliver_txn\<close>).
  Concurrency is interleaving: \<^const>\<open>db_step\<close> has a rule for each transaction of the program
  with all its arguments open, and a process lets an arbitrary function on the world run wherever
  the source awaits. A worker's shutdown is an exception raised at any await (\<open>x_cancelled\<close>).

  \<^bold>\<open>The theories, in the order of the code.\<close>
  \<^item> \<open>Prelude\<close>: the two monads, row operations, the collections of simplification rules.
  \<^item> \<open>PyValues\<close>, \<open>PyFloat\<close>, \<open>PyText\<close>, \<open>DateTime\<close>, \<open>Codec\<close>: what the source uses
    of Python: exceptions, JSON values, UUIDs, IEEE doubles, \<^verbatim>\<open>str\<close>, \<^verbatim>\<open>int\<close>,
    \<^verbatim>\<open>float\<close>, \<^verbatim>\<open>json.dumps\<close>, ISO dates, base64.
  \<^item> \<open>Enums\<close>, \<open>Backoff\<close>, \<open>Catalog\<close>: \<^verbatim>\<open>domain/\<close>. \<open>Config\<close>:
    \<^verbatim>\<open>core/config.py\<close>.
  \<^item> \<open>Models\<close>: \<^verbatim>\<open>db/models.py\<close> and the migration, as the checks every INSERT and UPDATE
    meets. \<open>JobRepository\<close>, \<open>Outboxes\<close>: \<^verbatim>\<open>repositories/\<close>, one definition per method.
  \<^item> \<open>Submission\<close>: \<^verbatim>\<open>job_submission_service.py\<close> and
    \<^verbatim>\<open>job_cancellation_service.py\<close>. \<open>Pagination\<close>: \<^verbatim>\<open>core/pagination.py\<close>,
    \<^verbatim>\<open>job_read_service.py\<close> and the response schemas. \<open>Api\<close>: \<^verbatim>\<open>api/\<close> and the
    exception handlers of \<^verbatim>\<open>main.py\<close>.
  \<^item> \<open>Queue\<close>: \<^verbatim>\<open>queue/redis_queue.py\<close>. \<open>Scheduler\<close>: the five scheduler services,
    the notification service and \<^verbatim>\<open>Scheduler.tick\<close>.
  \<^item> \<open>Execution\<close>, \<open>Worker\<close>: the transactions and the control flow of
    \<^verbatim>\<open>job_execution_service.py\<close>, \<^verbatim>\<open>workers/worker.py\<close> and the loop of
    \<^verbatim>\<open>workers/scheduler.py\<close>. \<open>Identity\<close>: \<^verbatim>\<open>workers/identity.py\<close>.
  \<^item> \<open>Processes\<close>: \<^verbatim>\<open>create_queue\<close>, \<^verbatim>\<open>build_scheduler\<close>, \<^verbatim>\<open>build_worker\<close> and the ends
    of the two processes. \<open>Application\<close>: lifespan, origins and request middleware of
    \<^verbatim>\<open>main.py\<close>. \<open>Scripts\<close>: \<^verbatim>\<open>scripts/\<close>.

  \<^bold>\<open>What is proved, and where.\<close>
  \<^item> \<open>Lifecycle\<close>, \<open>Invariants\<close>, \<open>Preservation\<close>, \<open>System\<close>: an abstract lifecycle machine
    that every transaction refines, the invariant of the store, and that every process, whatever it
    consumes and wherever it fails, moves the store by transactions of the program only. The
    properties of this theory are read off from them.
  \<^item> \<open>Idempotency\<close>, \<open>Schema\<close>: invariants that follow from the statements alone (the locale
    \<open>identity_invariant\<close>): the idempotency keys and the typing of the rows.
  \<^item> \<open>SchedulerFacts\<close>, \<open>SchedulerContracts\<close>: what each batch writes (the locale
    \<open>row_batch\<close>) and what it hands over to be published, that dispatch queues what is pending.
  \<^item> \<open>DeliveryContract\<close>: which requests a delivery posts and what it records of the answers, what
    an exception takes back of it, and that delivery ends where the client fails only by
    \<^verbatim>\<open>HTTPError\<close>.
  \<^item> \<open>QueueContract\<close>: the queue refines an abstract queue by priority (the locales
    \<open>redis_lists\<close>, what Redis's commands do, and \<open>job_queue\<close>).
  \<^item> \<open>WorkerContracts\<close>: exclusive claims and fencing, and the status changes that the updates of
    the jobs table make (\<open>job_update\<close>). \<open>ExecutionContract\<close>: the row each
    outcome of a handler leaves, as long as nothing takes the job from its worker
    (\<open>side_step\<close>), and the cancellation that is lost. \<open>Processes\<close>: the states the processes
    reach. \<open>ApiContracts\<close>: what a client may rely on.
  \<^item> \<open>PyFloatFacts\<close>, \<open>BackoffFacts\<close>, \<open>CatalogFacts\<close>, \<open>CodecFacts\<close>, \<open>CalendarFacts\<close>,
    \<open>IsoFacts\<close>, \<open>PaginationFacts\<close>: rounding, the retry delay and its overflow, the handlers,
    the round trips up to the cursor, and the traversal of a listing.
  \<^item> \<open>Hazards\<close>: where the code does not do what its documentation says. \<open>Demo\<close>: runs of the
    program, computed by the definitions, on which the theorems are applied.

  \<^bold>\<open>Parameters and hypotheses.\<close> The Redis client, the HTTP client, the HMAC, the
  form in which a JSONB column gives a payload back, the reading of cursors that are not ASCII, and what
  other processes do are arguments. The only laws assumed of them are those of \<open>redis_lists\<close>, satisfied by an in-memory server (\<^const>\<open>mem_redis\<close>), and that the
  others keep to the program's transactions, satisfied by the program's own processes
  (the interpretations of \<open>shared_store\<close>); C36 alone also assumes an HTTP client that raises
  nothing but \<^verbatim>\<open>HTTPError\<close>, which C33 shows to be needed. Identifiers are not assumed fresh: an insert with a
  key that exists fails. No definition runs on fuel for lack of a termination proof; the iteration
  counts of \<^const>\<open>consume_loop\<close>, \<^const>\<open>heartbeat_loop\<close> and \<^const>\<open>scheduler_run\<close> are how
  often the process's endless loop runs before it is stopped, and the theorems hold for every count.

  \<^bold>\<open>Not modelled.\<close> Logging, the engine of \<^verbatim>\<open>db/session.py\<close>, the set-up of the application
  object and that of Alembic: they call libraries and decide nothing about a job. A signal is the end of the
  iterations of a process. The system clock: its readings are arguments. Isolation anomalies
  inside PostgreSQL: a transaction is atomic, except that \<^const>\<open>submit\<close>, which is three
  transactions, lets others run between them. Parsing of HTTP and JSON by FastAPI and pydantic: the
  routes take typed arguments. The bounds of an instant: the sums with a computed backoff are checked
  against the years 1 to 9999 (\<^const>\<open>datetime_add\<close>); those with a number of seconds from the
  settings (a lease, the age of a stuck or an expired job) are taken to stay inside. The TypeScript
  frontend.
\<close>

section \<open>The store between transactions\<close>

text \<open>
  C1. In every reachable store, the columns of every job agree with its status
  (\<^const>\<open>job_wf\<close>): a lock exactly while RUNNING or CANCELLING, a completion time exactly in
  the terminal statuses, a due time exactly while RETRYING, a result exactly when SUCCEEDED, and
  progress between 0 and 100.
\<close>

theorem job_rows_well_formed:
  assumes "reachable s" and "j \<in> set (jobs s)"
  shows "job_wf j"
  using reachable_inv [OF assms(1)] assms(2) by (simp add: store_inv_def rows_wf_def)

theorem job_rows_well_formed_witness: "reachable demo4 \<and> job_wf (hd (jobs demo4))"
proof -
  have "hd (jobs demo4) \<in> set (jobs demo4)" by code_simp
  with demo_reachable(4) show ?thesis using job_rows_well_formed by blast
qed

text \<open>
  C2. Every job that has ended has exactly one notification, of the event that ended it; a job
  that is still alive has none. So no end of a job goes unnoticed and none is announced twice,
  whatever the interleaving of workers, schedulers and requests.
\<close>

theorem one_notification_per_end:
  assumes "reachable s" and "j \<in> set (jobs s)"
  shows "map n_event_type (filter (\<lambda>n. n_job_id n = j_id j) (notification_outbox s)) =
    (case terminal_event (j_status j) of None \<Rightarrow> [] | Some e \<Rightarrow> [JobEventType_value e])"
  using reachable_inv [OF assms(1)] assms(2)
  by (simp add: store_inv_def rows_inv_def job_inv_def notified_def ended_def)

theorem one_notification_per_end_witness:
  "map n_event_type (filter (\<lambda>n. n_job_id n = 1) (notification_outbox demo4)) = [''succeeded'']"
proof -
  have "hd (jobs demo4) \<in> set (jobs demo4)" "j_id (hd (jobs demo4)) = 1" "j_status (hd (jobs demo4)) = SUCCEEDED"
    by code_simp+
  then show ?thesis using one_notification_per_end [OF demo_reachable(4), of "hd (jobs demo4)"] by simp
qed

text \<open>
  C3. The attempts recorded for a job are numbered 1 to its attempt count, each number once: a
  claim and its attempt row commit together, and no two claims share a number.
\<close>

theorem attempts_numbered:
  assumes "reachable s" and "j \<in> set (jobs s)"
  shows "map a_attempt_number (filter (\<lambda>a. a_job_id a = j_id j) (job_attempts s)) = [1..j_attempts j]"
  using reachable_inv [OF assms(1)] assms(2)
  by (simp add: store_inv_def rows_inv_def job_inv_def numbers_def)

theorem attempts_numbered_witness:
  "map a_attempt_number (filter (\<lambda>a. a_job_id a = 1) (job_attempts demo3)) = [1]"
proof -
  have "hd (jobs demo3) \<in> set (jobs demo3)" "j_id (hd (jobs demo3)) = 1" "j_attempts (hd (jobs demo3)) = 1"
    by code_simp+
  then show ?thesis using attempts_numbered [OF demo_reachable(3), of "hd (jobs demo3)"] by simp
qed

text \<open>
  C4. No accepted job is lost: every job has exactly one row in the dispatch outbox, which is
  still to be published while the job is PENDING; and a row still to be published belongs to a
  job that is PENDING, or that was cancelled or expired before it was dispatched.
\<close>

theorem accepted_job_in_outbox:
  assumes "reachable s" and "j \<in> set (jobs s)"
  shows "\<exists>d. filter (\<lambda>d. o_job_id d = j_id j) (dispatch_outbox s) = [d] \<and>
    (j_status j = PENDING \<longrightarrow> o_status d = O_PENDING) \<and>
    (o_status d = O_PENDING \<longrightarrow> j_status j \<in> {PENDING, CANCELLED, EXPIRED})"
proof -
  have agrees: "outbox_agrees (j_status j) (outbox s (j_id j))"
    using reachable_inv [OF assms(1)] assms(2) by (simp add: store_inv_def rows_inv_def job_inv_def)
  then obtain st where st: "outbox s (j_id j) = [st]" using outbox_agrees_published(2) by blast
  then obtain d where "filter (\<lambda>d. o_job_id d = j_id j) (dispatch_outbox s) = [d]" "o_status d = st"
    by (auto simp: outbox_def)
  with agrees st show ?thesis by (auto simp: outbox_agrees_def split: OutboxStatus.splits)
qed

theorem accepted_job_in_outbox_witness:
  "\<exists>d. filter (\<lambda>d. o_job_id d = 1) (dispatch_outbox demo1) = [d] \<and> o_status d = O_PENDING"
proof -
  have "hd (jobs demo1) \<in> set (jobs demo1)" "j_id (hd (jobs demo1)) = 1" "j_status (hd (jobs demo1)) = PENDING"
    by code_simp+
  then show ?thesis using accepted_job_in_outbox [OF demo_reachable(1), of "hd (jobs demo1)"] by auto
qed

section \<open>The lifecycle of a job\<close>

text \<open>
  C5. A job that has reached a terminal status is never written again: whatever transactions
  follow, its row stays as it is in every column.
\<close>

theorem terminal_jobs_frozen:
  assumes "db_step\<^sup>*\<^sup>* s t" and "j \<in> set (jobs s)" and "is_terminal (j_status j)"
  shows "j \<in> set (jobs t)"
  using rows_evolve_row [OF db_steps_evolve [OF assms(1)] assms(2)] assms(3) by (auto simp: evolves_def)

theorem terminal_jobs_frozen_witness: "cancelled_job \<in> set (jobs demo_dead_dispatch)"
proof -
  have "db_step\<^sup>*\<^sup>* demo_cancelled demo_dead_dispatch" using demo_steps(8) by blast
  moreover have "cancelled_job \<in> set (jobs demo_cancelled)" "is_terminal (j_status cancelled_job)"
    by (simp_all add: demo_cancelled_def cancelled_job_def)
  ultimately show ?thesis by (rule terminal_jobs_frozen)
qed

text \<open>
  C6. The store refines the abstract lifecycle machine: along any run a job keeps its identity
  columns and what is left of its row (status, attempts, owner, cancellation flag) moves by steps
  of the machine only.
\<close>

theorem store_refines_lifecycle:
  assumes "db_step\<^sup>*\<^sup>* s t" and "j \<in> set (jobs s)"
  shows "\<exists>j' \<in> set (jobs t). same_identity j j' \<and> lifecycle_step\<^sup>*\<^sup>* (lifecycle_of j) (lifecycle_of j')"
  using rows_evolve_row [OF db_steps_evolve [OF assms(1)] assms(2)] by (auto simp: evolves_def)

theorem store_refines_lifecycle_witness:
  "\<exists>j' \<in> set (jobs demo3). same_identity (hd (jobs demo1)) j' \<and>
     lifecycle_step\<^sup>*\<^sup>* (lifecycle_of (hd (jobs demo1))) (lifecycle_of j')"
proof -
  have "db_step\<^sup>*\<^sup>* demo1 demo3" using demo_steps(2,3) by (meson rtranclp.simps)
  moreover have "hd (jobs demo1) \<in> set (jobs demo1)" by code_simp
  ultimately show ?thesis by (rule store_refines_lifecycle)
qed

end
